(* ===== verification/Prelude.thy ===== *)
theory Prelude
  imports Main "HOL-Library.Word" "HOL-Library.Char_ord" "HOL-Library.List_Lexorder"
begin

text \<open>
  What every other theory shares: the collections of rewrite rules, the model of Go strings
  (bytes) with the functions of package \<open>strings\<close> the code calls, Go's 64-bit integer
  arithmetic, and generic lemmas on lists.

  A Go \<open>string\<close> and a Go \<open>[]byte\<close> are both sequences of bytes; both are the type
  \<^typ>\<open>string\<close> here, whose characters are the 256 byte values, so \<^term>\<open>length\<close> counts
  bytes as \<open>len\<close> does and the conversions between the two are the identity.
\<close>

type_synonym bytes = string

named_theorems op_simps \<open>symbolic execution of store operations\<close>
named_theorems row_simps \<open>column projections and key functions of the tables\<close>

subsection \<open>strings.TrimSpace\<close>

text \<open>
  \<open>strings.TrimSpace\<close> removes leading and trailing white space as Unicode defines it. The
  white-space code points, in UTF-8: the six ASCII ones, U+0085, U+00A0, U+1680, U+2000 to U+200A,
  U+2028, U+2029, U+202F, U+205F and U+3000. A rune of the text is one of them exactly when its
  bytes are one of these sequences, from the left as from the right.
\<close>

definition space_seqs :: "bytes list" where
  "space_seqs =
     map (\<lambda>n. [char_of (n::nat)]) [9, 10, 11, 12, 13, 32] @
     map (\<lambda>n. [char_of (194::nat), char_of (n::nat)]) [133, 160] @
     [map char_of [225, 154, 128::nat]] @
     map (\<lambda>n. map char_of [226, 128, n::nat])
       [128, 129, 130, 131, 132, 133, 134, 135, 136, 137, 138, 168, 169, 175] @
     [map char_of [226, 129, 159::nat], map char_of [227, 128, 128::nat]]"

fun strip_prefix :: "'a list \<Rightarrow> 'a list \<Rightarrow> 'a list option" where
  "strip_prefix [] s = Some s"
| "strip_prefix (p # ps) [] = None"
| "strip_prefix (p # ps) (c # s) = (if p = c then strip_prefix ps s else None)"

fun strip_any :: "'a list list \<Rightarrow> 'a list \<Rightarrow> 'a list option" where
  "strip_any [] s = None"
| "strip_any (p # ps) s = (case strip_prefix p s of None \<Rightarrow> strip_any ps s | Some t \<Rightarrow> Some t)"

fun trim_fuel :: "nat \<Rightarrow> 'a list list \<Rightarrow> 'a list \<Rightarrow> 'a list" where
  "trim_fuel 0 ps s = s"
| "trim_fuel (Suc n) ps s = (case strip_any ps s of None \<Rightarrow> s | Some t \<Rightarrow> trim_fuel n ps t)"

definition trim_left :: "'a list list \<Rightarrow> 'a list \<Rightarrow> 'a list" where
  "trim_left ps s = trim_fuel (length s) ps s"

definition trim_right :: "'a list list \<Rightarrow> 'a list \<Rightarrow> 'a list" where
  "trim_right ps s = rev (trim_left (map rev ps) (rev s))"

definition trim_space :: "bytes \<Rightarrow> bytes" where
  "trim_space s = trim_right space_seqs (trim_left space_seqs s)"

lemma strip_prefix_Some_iff: "strip_prefix p s = Some t \<longleftrightarrow> s = p @ t"
  by (induction p s rule: strip_prefix.induct) auto

lemma strip_prefix_None_iff: "strip_prefix p s = None \<longleftrightarrow> (\<forall>t. s \<noteq> p @ t)"
  by (metis not_None_eq strip_prefix_Some_iff)

lemma strip_any_None_iff: "strip_any ps s = None \<longleftrightarrow> (\<forall>p \<in> set ps. \<forall>t. s \<noteq> p @ t)"
  by (induction ps) (auto simp: strip_prefix_None_iff strip_prefix_Some_iff split: option.splits)

lemma strip_any_SomeD: "strip_any ps s = Some t \<Longrightarrow> \<exists>p \<in> set ps. s = p @ t"
  by (induction ps) (auto simp: strip_prefix_Some_iff split: option.splits)

lemma strip_any_shorter:
  "[] \<notin> set ps \<Longrightarrow> strip_any ps s = Some t \<Longrightarrow> length t < length s"
  by (auto dest!: strip_any_SomeD)

text \<open>With the length as fuel, nothing strippable is left in front.\<close>

lemma trim_fuel_stuck:
  "[] \<notin> set ps \<Longrightarrow> length s \<le> n \<Longrightarrow> strip_any ps (trim_fuel n ps s) = None"
proof (induction n arbitrary: s)
  case 0
  then show ?case by (auto simp: strip_any_None_iff)
next
  case (Suc n)
  show ?case
  proof (cases "strip_any ps s")
    case None
    then show ?thesis by simp
  next
    case (Some t)
    with Suc.prems have "length t \<le> n"
      using strip_any_shorter [of ps s t] by simp
    with Suc Some show ?thesis by simp
  qed
qed

lemma trim_left_stuck: "[] \<notin> set ps \<Longrightarrow> strip_any ps (trim_left ps s) = None"
  by (simp add: trim_left_def trim_fuel_stuck)

lemma trim_fuel_id: "strip_any ps s = None \<Longrightarrow> trim_fuel n ps s = s"
  by (cases n) simp_all

lemma trim_left_id: "strip_any ps s = None \<Longrightarrow> trim_left ps s = s"
  by (simp add: trim_left_def trim_fuel_id)

lemma trim_fuel_suffix: "\<exists>u. s = u @ trim_fuel n ps s"
proof (induction n arbitrary: s)
  case (Suc n)
  show ?case
  proof (cases "strip_any ps s")
    case (Some t)
    then obtain p where "s = p @ t" using strip_any_SomeD [of ps s t] by blast
    moreover obtain u where "t = u @ trim_fuel n ps t" using Suc by blast
    ultimately have "s = (p @ u) @ trim_fuel (Suc n) ps s" using Some by simp
    then show ?thesis by blast
  qed simp
qed simp

lemma trim_right_prefix: "\<exists>u. s = trim_right ps s @ u"
proof -
  obtain u where "rev s = u @ trim_left (map rev ps) (rev s)"
    using trim_fuel_suffix [of "rev s"] by (auto simp: trim_left_def)
  then have "s = rev (trim_left (map rev ps) (rev s)) @ rev u"
    by (metis rev_append rev_rev_ident)
  then show ?thesis by (auto simp: trim_right_def)
qed

lemma trim_right_id: "strip_any (map rev ps) (rev s) = None \<Longrightarrow> trim_right ps s = s"
  by (simp add: trim_right_def trim_left_id)

lemma space_seqs_nonempty: "[] \<notin> set space_seqs" "[] \<notin> set (map rev space_seqs)"
  by (simp_all add: space_seqs_def)

lemma trim_space_idem [simp]: "trim_space (trim_space s) = trim_space s"
proof -
  let ?l = "trim_left space_seqs s"
  let ?r = "trim_right space_seqs ?l"
  obtain u where u: "?l = ?r @ u" using trim_right_prefix [of ?l] by blast
  have "strip_any space_seqs ?l = None"
    by (rule trim_left_stuck [OF space_seqs_nonempty(1)])
  then have "\<forall>p \<in> set space_seqs. \<forall>t. ?r @ u \<noteq> p @ t"
    using u by (simp add: strip_any_None_iff)
  then have front: "strip_any space_seqs ?r = None"
    by (auto simp: strip_any_None_iff)
  have rear: "strip_any (map rev space_seqs) (rev ?r) = None"
    using trim_left_stuck [OF space_seqs_nonempty(2)] by (simp add: trim_right_def)
  show ?thesis
    by (simp add: trim_space_def trim_left_id [OF front] trim_right_id [OF rear])
qed

lemma trim_space_Nil [simp]: "trim_space [] = []"
  by (simp add: trim_space_def trim_left_def trim_right_def)

lemma trim_space_plain:
  assumes "\<forall>c \<in> set s. 32 < (of_char c :: nat) \<and> (of_char c :: nat) < 128"
  shows "trim_space s = s"
proof -
  have heads: "\<forall>p \<in> set space_seqs. (of_char (hd p) :: nat) \<le> 32 \<or> 128 \<le> (of_char (hd p) :: nat)"
    "\<forall>p \<in> set (map rev space_seqs). (of_char (hd p) :: nat) \<le> 32 \<or> 128 \<le> (of_char (hd p) :: nat)"
    by (simp_all add: space_seqs_def)
  have stuck: "strip_any ps t = None"
    if "[] \<notin> set ps" "\<forall>p \<in> set ps. (of_char (hd p) :: nat) \<le> 32 \<or> 128 \<le> (of_char (hd p) :: nat)"
      "\<forall>c \<in> set t. 32 < (of_char c :: nat) \<and> (of_char c :: nat) < 128" for ps t
    unfolding strip_any_None_iff
  proof (intro ballI allI notI)
    fix p u assume p: "p \<in> set ps" and t: "t = p @ u"
    with that(1) obtain c p' where "p = c # p'" by (cases p) auto
    then show False using that(2,3) p t by fastforce
  qed
  have front: "strip_any space_seqs s = None"
    by (rule stuck [OF space_seqs_nonempty(1) heads(1) assms])
  have rear: "strip_any (map rev space_seqs) (rev s) = None"
    by (rule stuck [OF space_seqs_nonempty(2) heads(2)]) (simp add: assms)
  show ?thesis by (simp add: trim_space_def trim_left_id [OF front] trim_right_id [OF rear])
qed

subsection \<open>Other functions of package strings\<close>

text \<open>
  \<open>strings.ToLower\<close> on ASCII, and \<open>strings.EqualFold\<close> where one side is lower-case hexadecimal:
  no code point outside ASCII folds to a hexadecimal digit, so the comparison is that of the
  ASCII-lowered bytes.
\<close>

definition ascii_lower :: "char \<Rightarrow> char" where
  "ascii_lower c =
     (let n = of_char c :: nat in if 65 \<le> n \<and> n \<le> 90 then char_of (n + 32) else c)"

definition to_lower :: "bytes \<Rightarrow> bytes" where
  "to_lower s = map ascii_lower s"

definition equal_fold :: "bytes \<Rightarrow> bytes \<Rightarrow> bool" where
  "equal_fold a b = (to_lower a = to_lower b)"

lemma equal_fold_refl [simp]: "equal_fold a a"
  by (simp add: equal_fold_def)

text \<open>\<open>strings.LastIndexByte\<close>: the last position of a byte, or -1.\<close>

fun last_index_byte :: "bytes \<Rightarrow> char \<Rightarrow> int" where
  "last_index_byte [] c = -1"
| "last_index_byte (x # s) c =
     (let i = last_index_byte s c in if 0 \<le> i then i + 1 else if x = c then 0 else -1)"

lemma last_index_byte_bounds: "-1 \<le> last_index_byte s c \<and> last_index_byte s c < int (length s)"
  by (induction s) (auto simp: Let_def)

lemma last_index_byte_absent: "last_index_byte s c = -1 \<longleftrightarrow> c \<notin> set s"
proof (induction s)
  case (Cons x s)
  then show ?case using last_index_byte_bounds [of s c] by (auto simp: Let_def)
qed simp

lemma last_index_byte_append:
  "c \<notin> set b \<Longrightarrow> last_index_byte (a @ c # b) c = int (length a)"
proof (induction a)
  case Nil
  then have "last_index_byte b c = -1" by (simp add: last_index_byte_absent)
  then show ?case by (simp add: Let_def)
qed (auto simp: Let_def)

lemma last_index_byte_split:
  "0 \<le> last_index_byte s c \<Longrightarrow>
   s = take (nat (last_index_byte s c)) s @ c # drop (nat (last_index_byte s c) + 1) s \<and>
   c \<notin> set (drop (nat (last_index_byte s c) + 1) s)"
proof (induction s)
  case (Cons x s)
  show ?case
  proof (cases "0 \<le> last_index_byte s c")
    case True
    then have "nat (last_index_byte s c + 1) = Suc (nat (last_index_byte s c))" by simp
    with Cons.IH [OF True] True show ?thesis by (simp add: Let_def)
  next
    case False
    with Cons.prems have "x = c" by (auto simp: Let_def split: if_splits)
    moreover have "last_index_byte s c = -1"
      using False last_index_byte_bounds [of s c] by simp
    ultimately show ?thesis
      using last_index_byte_absent [of s c] by (simp add: Let_def)
  qed
qed simp

subsection \<open>Go's int and int64\<close>

text \<open>Both are 64 bits wide; a result out of range wraps around.\<close>

definition wrap64 :: "int \<Rightarrow> int" where
  "wrap64 x = (x + 2 ^ 63) mod 2 ^ 64 - 2 ^ 63"

definition int64 :: "int \<Rightarrow> bool" where
  "int64 x \<longleftrightarrow> - (2 ^ 63) \<le> x \<and> x < 2 ^ 63"

lemma wrap64_id: "int64 x \<Longrightarrow> wrap64 x = x"
  by (simp add: wrap64_def int64_def)

lemma wrap64_int64: "int64 (wrap64 x)"
  using pos_mod_bound [of "2 ^ 64" "x + 2 ^ 63"] pos_mod_sign [of "2 ^ 64" "x + 2 ^ 63"]
  by (simp add: wrap64_def int64_def)

text \<open>\<open>1 << n\<close> on an \<open>int\<close>, for a shift count that is not negative.\<close>

definition shift_one :: "int \<Rightarrow> int" where
  "shift_one n = (if 64 \<le> n then 0 else wrap64 (2 ^ nat n))"

subsection \<open>Decimal numbers\<close>

definition digit_char :: "nat \<Rightarrow> char" where
  "digit_char n = char_of (48 + n)"

fun nat_decimal :: "nat \<Rightarrow> bytes" where
  "nat_decimal n =
     (if n < 10 then [digit_char n] else nat_decimal (n div 10) @ [digit_char (n mod 10)])"

declare nat_decimal.simps [simp del]

definition int_decimal :: "int \<Rightarrow> bytes" where
  "int_decimal i = (if i < 0 then CHR ''-'' # nat_decimal (nat (- i)) else nat_decimal (nat i))"

definition digit_value :: "char \<Rightarrow> nat option" where
  "digit_value c =
     (let n = of_char c :: nat in if 48 \<le> n \<and> n \<le> 57 then Some (n - 48) else None)"

lemma digit_value_char: "n < 10 \<Longrightarrow> digit_value (digit_char n) = Some n"
  by (simp add: digit_value_def digit_char_def Let_def)

lemma digit_char_less_iff:
  "a < 10 \<Longrightarrow> b < 10 \<Longrightarrow> digit_char a < digit_char b \<longleftrightarrow> a < b"
  by (simp add: digit_char_def less_char_def)

lemma digit_char_eq_iff:
  "a < 10 \<Longrightarrow> b < 10 \<Longrightarrow> digit_char a = digit_char b \<longleftrightarrow> a = b"
  by (metis digit_char_less_iff less_irrefl nat_neq_iff)

fun parse_digits :: "nat \<Rightarrow> bytes \<Rightarrow> nat option" where
  "parse_digits acc [] = Some acc"
| "parse_digits acc (c # s) =
     (case digit_value c of None \<Rightarrow> None | Some d \<Rightarrow> parse_digits (10 * acc + d) s)"

lemma parse_digits_append:
  "parse_digits acc (s @ t) =
     (case parse_digits acc s of None \<Rightarrow> None | Some a \<Rightarrow> parse_digits a t)"
  by (induction s arbitrary: acc) (auto split: option.splits)

lemma parse_nat_decimal: "parse_digits 0 (nat_decimal n) = Some n"
proof (induction n rule: nat_decimal.induct)
  case (1 n)
  show ?case
  proof (cases "n < 10")
    case True
    then show ?thesis by (subst nat_decimal.simps) (simp add: digit_value_char)
  next
    case False
    with "1.IH" show ?thesis
      by (subst nat_decimal.simps) (simp add: parse_digits_append digit_value_char)
  qed
qed

lemma nat_decimal_inject [simp]: "nat_decimal m = nat_decimal n \<longleftrightarrow> m = n"
  by (metis option.inject parse_nat_decimal)

lemma nat_decimal_nonempty [simp]: "nat_decimal n \<noteq> []"
  by (subst nat_decimal.simps) simp

lemma nat_decimal_digits: "c \<in> set (nat_decimal n) \<Longrightarrow> \<exists>d < 10. c = digit_char d"
proof (induction n rule: nat_decimal.induct)
  case (1 n)
  show ?case
  proof (cases "n < 10")
    case True
    with "1.prems" show ?thesis by (subst (asm) nat_decimal.simps) auto
  next
    case False
    with 1 show ?thesis by (subst (asm) (2) nat_decimal.simps) (auto intro: exI [of _ "n mod 10"])
  qed
qed

text \<open>Fixed width, padded with zeros.\<close>

fun pad_decimal :: "nat \<Rightarrow> nat \<Rightarrow> bytes" where
  "pad_decimal 0 n = []"
| "pad_decimal (Suc w) n = pad_decimal w (n div 10) @ [digit_char (n mod 10)]"

lemma length_pad_decimal [simp]: "length (pad_decimal w n) = w"
  by (induction w arbitrary: n) auto

lemma parse_pad_decimal: "n < 10 ^ w \<Longrightarrow> parse_digits 0 (pad_decimal w n) = Some n"
proof (induction w arbitrary: n)
  case (Suc w)
  then have "n div 10 < 10 ^ w" by (simp add: less_mult_imp_div_less mult.commute)
  with Suc.IH show ?case by (simp add: parse_digits_append digit_value_char)
qed simp

subsection \<open>Lists\<close>

lemma append_less_same_length:
  fixes a b c d :: "'a :: linorder list"
  assumes "length a = length b"
  shows "a @ c < b @ d \<longleftrightarrow> a < b \<or> a = b \<and> c < d"
  using assms by (induction a b rule: list_induct2) auto

lemma list_less_lastI:
  fixes a :: "'a :: linorder list"
  shows "a < b \<Longrightarrow> length a = length b \<Longrightarrow> a @ c < b @ d"
  by (simp add: append_less_same_length)

lemma pad_decimal_less:
  "m < n \<Longrightarrow> n < 10 ^ w \<Longrightarrow> pad_decimal w m < pad_decimal w n"
proof (induction w arbitrary: m n)
  case (Suc w)
  have n10: "n div 10 < 10 ^ w"
    using Suc.prems(2) by (simp add: less_mult_imp_div_less mult.commute)
  show ?case
  proof (cases "m div 10 < n div 10")
    case True
    then show ?thesis using Suc.IH [OF _ n10] by (simp add: append_less_same_length)
  next
    case False
    with Suc.prems have eq: "m div 10 = n div 10"
      by (meson div_le_mono le_neq_implies_less less_imp_le)
    with Suc.prems(1) have "m mod 10 < n mod 10"
      by (metis add_less_cancel_left mult_div_mod_eq)
    with eq show ?thesis by (simp add: append_less_same_length digit_char_less_iff)
  qed
qed simp

lemma distinct_map_filter': "distinct (map f xs) \<Longrightarrow> distinct (map f (filter P xs))"
  by (induction xs) auto

lemma filter_id_conv_all: "(\<forall>x \<in> set xs. P x) \<Longrightarrow> filter P xs = xs"
  by (induction xs) auto

lemma find_eq_hd_filter: "find P xs = (case filter P xs of [] \<Rightarrow> None | x # _ \<Rightarrow> Some x)"
  by (induction xs) auto

end
