(* ===== verification/Timestamp.thy ===== *)
theory Timestamp
  imports Prelude
begin

text \<open>
  Instants of package \<open>time\<close> and the text the store keeps them as. A \<open>time.Time\<close> is its instant,
  the number of nanoseconds since 1970-01-01 00:00:00 UTC; the store formats every instant with
  \<open>time.RFC3339Nano\<close> in UTC, keeps the text in a column, compares columns as text in SQL and reads
  them back with \<open>time.Parse\<close>. The layout drops the trailing zeros of the fraction (and the whole
  fraction when it is zero), so the text of two instants within one second does not order as the
  instants do; across seconds it does, for the years 0 to 9999.
\<close>

type_synonym instant = int
type_synonym duration = int

definition second :: duration where
  "second = 1000000000"

definition zero_time :: instant where
  "zero_time = -62135596800 * second"

definition is_zero :: "instant \<Rightarrow> bool" where
  "is_zero t = (t = zero_time)"

subsection \<open>The proleptic Gregorian calendar\<close>

definition leap :: "int \<Rightarrow> bool" where
  "leap y = (y mod 4 = 0 \<and> (y mod 100 \<noteq> 0 \<or> y mod 400 = 0))"

text \<open>Days from 0000-01-01 to January 1 of a year.\<close>

definition days_before :: "int \<Rightarrow> int" where
  "days_before y = 365 * y + (y + 3) div 4 - (y + 99) div 100 + (y + 399) div 400"

definition year_of :: "int \<Rightarrow> int" where
  "year_of d =
     (let y = (400 * d) div 146097
      in if d < days_before y then y - 1
         else if days_before (y + 1) \<le> d then y + 1 else y)"

definition month_lengths :: "bool \<Rightarrow> nat list" where
  "month_lengths lp = [31, if lp then 29 else 28, 31, 30, 31, 30, 31, 31, 30, 31, 30, 31]"

fun month_day :: "nat \<Rightarrow> nat \<Rightarrow> nat list \<Rightarrow> nat \<times> nat" where
  "month_day m yd [] = (m, yd + 1)"
| "month_day m yd (l # ls) = (if yd < l then (m, yd + 1) else month_day (m + 1) (yd - l) ls)"

definition day_of_year :: "int \<Rightarrow> nat" where
  "day_of_year d = nat (d - days_before (year_of d))"

definition civil_month_day :: "int \<Rightarrow> nat \<times> nat" where
  "civil_month_day d = month_day 1 (day_of_year d) (month_lengths (leap (year_of d)))"

lemma ceiling_step:
  fixes y j k :: int
  assumes "0 < k" "j = k - 1"
  shows "(y + k) div k = (y + j) div k + (if y mod k = 0 then 1 else 0)"
proof -
  define q r where "q = y div k" and "r = y mod k"
  have y: "y = k * q + r" and r: "0 \<le> r" "r < k"
    using assms by (simp_all add: q_def r_def)
  have succ: "(y + k) div k = q + 1"
    using r by (intro int_div_pos_eq [of _ _ _ r]) (simp_all add: y algebra_simps)
  show ?thesis
  proof (cases "r = 0")
    case True
    have "(y + j) div k = q"
      using assms True by (intro int_div_pos_eq [of _ _ _ "k - 1"]) (simp_all add: y)
    with True succ show ?thesis by (simp add: r_def)
  next
    case False
    have "(y + j) div k = q + 1"
      using assms r False by (intro int_div_pos_eq [of _ _ _ "r - 1"]) (simp_all add: y algebra_simps)
    with False succ show ?thesis by (simp add: r_def)
  qed
qed

lemma leap_mods: "(y::int) mod 400 = 0 \<Longrightarrow> y mod 100 = 0" "(y::int) mod 100 = 0 \<Longrightarrow> y mod 4 = 0"
  by (auto simp: mod_eq_0_iff_dvd elim: dvd_trans [rotated])

lemma days_before_Suc: "days_before (y + 1) = days_before y + (if leap y then 366 else 365)"
proof -
  have shift: "y + 1 + 3 = y + 4" "y + 1 + 99 = y + 100" "y + 1 + 399 = y + 400" by simp_all
  have "days_before (y + 1) = 365 * (y + 1) + (y + 4) div 4 - (y + 100) div 100 + (y + 400) div 400"
    unfolding days_before_def by (simp only: shift)
  also have "\<dots> = days_before y + 365 + (if y mod 4 = 0 then 1 else 0)
      - (if y mod 100 = 0 then 1 else 0) + (if y mod 400 = 0 then 1 else 0)"
  proof -
    define a b c where "a = (y + 3) div 4" and "b = (y + 99) div 100" and "c = (y + 399) div 400"
    have "(y + 4) div 4 = a + (if y mod 4 = 0 then 1 else 0)"
      unfolding a_def by (rule ceiling_step) simp_all
    moreover have "(y + 100) div 100 = b + (if y mod 100 = 0 then 1 else 0)"
      unfolding b_def by (rule ceiling_step) simp_all
    moreover have "(y + 400) div 400 = c + (if y mod 400 = 0 then 1 else 0)"
      unfolding c_def by (rule ceiling_step) simp_all
    moreover have "days_before y = 365 * y + a - b + c"
      unfolding days_before_def a_def b_def c_def ..
    ultimately show ?thesis by (simp only:) (simp add: algebra_simps)
  qed
  also have "\<dots> = days_before y + (if leap y then 366 else 365)"
    unfolding leap_def using leap_mods [of y]
    by (cases "y mod 4 = 0"; cases "y mod 100 = 0"; cases "y mod 400 = 0") simp_all
  finally show ?thesis .
qed

lemma div_bounds: "0 < k \<Longrightarrow> k * (x div k) \<le> x \<and> x < k * (x div k) + (k::int)"
  using mult_div_mod_eq [of k x] pos_mod_bound [of k x] pos_mod_sign [of k x] by linarith

lemma days_before_bounds:
  "146097 * y - 396 \<le> 400 * days_before y" "400 * days_before y \<le> 146097 * y + 700"
  using div_bounds [of 4 "y + 3"] div_bounds [of 100 "y + 99"] div_bounds [of 400 "y + 399"]
  by (simp_all add: days_before_def)

lemma year_of_bounds: "days_before (year_of d) \<le> d" "d < days_before (year_of d + 1)"
proof -
  define y where "y = (400 * d) div 146097"
  have y: "146097 * y \<le> 400 * d" "400 * d < 146097 * y + 146097"
    unfolding y_def using div_bounds [of 146097 "400 * d"] by simp_all
  have year: "year_of d = (if d < days_before y then y - 1
      else if days_before (y + 1) \<le> d then y + 1 else y)"
    by (simp add: year_of_def y_def Let_def)
  have low: "days_before (y - 1) \<le> d"
    using days_before_bounds(2) [of "y - 1"] y(1) by (simp add: algebra_simps)
  have high: "d < days_before (y + 1 + 1)"
    using days_before_bounds(1) [of "y + 1 + 1"] y(2) by (simp add: algebra_simps)
  show "days_before (year_of d) \<le> d" "d < days_before (year_of d + 1)"
    using low high by (auto simp: year)
qed

lemma days_before_mono: "y \<le> z \<Longrightarrow> days_before y \<le> days_before z"
proof (induction z rule: int_ge_induct)
  case (step i)
  then show ?case by (simp add: days_before_Suc split: if_splits)
qed simp

lemma year_of_mono: "d \<le> e \<Longrightarrow> year_of d \<le> year_of e"
proof (rule ccontr)
  assume de: "d \<le> e" and "\<not> year_of d \<le> year_of e"
  then have "days_before (year_of e + 1) \<le> days_before (year_of d)"
    by (intro days_before_mono) simp
  with de year_of_bounds [of d] year_of_bounds [of e] show False by simp
qed

lemma year_of_unique: "days_before y \<le> d \<Longrightarrow> d < days_before (y + 1) \<Longrightarrow> year_of d = y"
proof (rule ccontr)
  assume b: "days_before y \<le> d" "d < days_before (y + 1)" and ne: "year_of d \<noteq> y"
  from ne consider "year_of d + 1 \<le> y" | "y + 1 \<le> year_of d" by linarith
  then show False
    using days_before_mono year_of_bounds [of d] b by cases (meson leD order_trans)+
qed

lemma day_of_year_less: "day_of_year d < sum_list (month_lengths (leap (year_of d)))"
  using year_of_bounds [of d] days_before_Suc [of "year_of d"]
  by (auto simp: day_of_year_def month_lengths_def)

text \<open>Months and days grow with the day of the year.\<close>

lemma month_day_ge: "m \<le> fst (month_day m yd ls)"
  by (induction m yd ls rule: month_day.induct) auto

lemma month_day_mono:
  "yd < ye \<Longrightarrow> fst (month_day m yd ls) < fst (month_day m ye ls) \<or>
     fst (month_day m yd ls) = fst (month_day m ye ls) \<and>
     snd (month_day m yd ls) < snd (month_day m ye ls)"
proof (induction m yd ls arbitrary: ye rule: month_day.induct)
  case (2 m yd l ls)
  show ?case
  proof (cases "yd < l")
    case True
    then show ?thesis using "2.prems" month_day_ge [of "m + 1" "ye - l" ls] by auto
  next
    case False
    with "2.prems" have "yd - l < ye - l" "\<not> ye < l" by auto
    with False "2.IH" show ?thesis by simp
  qed
qed simp

lemma month_day_bounds:
  assumes "yd < sum_list ls" "\<forall>l \<in> set ls. l \<le> 31"
  shows "fst (month_day m yd ls) < m + length ls \<and> 1 \<le> snd (month_day m yd ls) \<and>
    snd (month_day m yd ls) \<le> ls ! (fst (month_day m yd ls) - m) \<and>
    sum_list (take (fst (month_day m yd ls) - m) ls) + snd (month_day m yd ls) = yd + 1"
  using assms
proof (induction m yd ls rule: month_day.induct)
  case (2 m yd l ls)
  show ?case
  proof (cases "yd < l")
    case False
    with 2 have IH: "fst (month_day (m + 1) (yd - l) ls) < m + 1 + length ls \<and>
      1 \<le> snd (month_day (m + 1) (yd - l) ls) \<and>
      snd (month_day (m + 1) (yd - l) ls) \<le> ls ! (fst (month_day (m + 1) (yd - l) ls) - (m + 1)) \<and>
      sum_list (take (fst (month_day (m + 1) (yd - l) ls) - (m + 1)) ls) +
        snd (month_day (m + 1) (yd - l) ls) = yd - l + 1"
      by simp
    obtain k where k: "fst (month_day (m + 1) (yd - l) ls) = m + 1 + k"
      using month_day_ge [of "m + 1" "yd - l" ls] nat_le_iff_add by auto
    have "yd - l + 1 + l = yd + 1" using False by simp
    with IH False show ?thesis by (simp add: k [simplified])
  qed simp
qed simp

lemma civil_month_day_bounds:
  "1 \<le> fst (civil_month_day d)" "fst (civil_month_day d) \<le> 12"
  "1 \<le> snd (civil_month_day d)" "snd (civil_month_day d) \<le> 31"
  "snd (civil_month_day d) \<le> month_lengths (leap (year_of d)) ! (fst (civil_month_day d) - 1)"
  "sum_list (take (fst (civil_month_day d) - 1) (month_lengths (leap (year_of d)))) +
     snd (civil_month_day d) = day_of_year d + 1"
proof -
  let ?ls = "month_lengths (leap (year_of d))"
  have ls: "\<forall>l \<in> set ?ls. l \<le> 31" "length ?ls = 12" by (auto simp: month_lengths_def)
  note b = month_day_bounds [OF day_of_year_less ls(1), of 1, folded civil_month_day_def]
  show ge: "1 \<le> fst (civil_month_day d)"
    using month_day_ge [of 1] by (simp add: civil_month_day_def)
  show le: "fst (civil_month_day d) \<le> 12" using b ls(2) by simp
  show "1 \<le> snd (civil_month_day d)" using b by simp
  show bound: "snd (civil_month_day d) \<le> ?ls ! (fst (civil_month_day d) - 1)" using b by simp
  have "?ls ! (fst (civil_month_day d) - 1) \<in> set ?ls" using ge le ls(2) by simp
  with ls(1) bound show "snd (civil_month_day d) \<le> 31" by (meson le_trans)
  show "sum_list (take (fst (civil_month_day d) - 1) ?ls) + snd (civil_month_day d)
    = day_of_year d + 1" using b by simp
qed

subsection \<open>Format(time.RFC3339Nano) in UTC\<close>

definition epoch_days :: int where
  "epoch_days = 719528"

definition unix_seconds :: "instant \<Rightarrow> int" where
  "unix_seconds t = t div second"

definition nanos_of :: "instant \<Rightarrow> nat" where
  "nanos_of t = nat (t mod second)"

definition day_number :: "int \<Rightarrow> int" where
  "day_number s = s div 86400 + epoch_days"

definition second_of_day :: "int \<Rightarrow> nat" where
  "second_of_day s = nat (s mod 86400)"

text \<open>Years print with at least four digits; a negative year prints its sign first.\<close>

definition format_year :: "int \<Rightarrow> bytes" where
  "format_year y =
     (if y < 0 then CHR ''-'' # (if - y < 10000 then pad_decimal 4 (nat (- y)) else nat_decimal (nat (- y)))
      else if y < 10000 then pad_decimal 4 (nat y) else nat_decimal (nat y))"

definition format_date :: "int \<Rightarrow> bytes" where
  "format_date d =
     format_year (year_of d) @ ''-'' @ pad_decimal 2 (fst (civil_month_day d)) @ ''-'' @
     pad_decimal 2 (snd (civil_month_day d))"

definition format_clock :: "nat \<Rightarrow> bytes" where
  "format_clock s =
     pad_decimal 2 (s div 3600) @ '':'' @ pad_decimal 2 (s div 60 mod 60) @ '':'' @
     pad_decimal 2 (s mod 60)"

definition drop_trailing_zeros :: "bytes \<Rightarrow> bytes" where
  "drop_trailing_zeros s = rev (dropWhile (\<lambda>c. c = CHR ''0'') (rev s))"

definition format_fraction :: "nat \<Rightarrow> bytes" where
  "format_fraction n = (if n = 0 then [] else CHR ''.'' # drop_trailing_zeros (pad_decimal 9 n))"

definition format_seconds :: "int \<Rightarrow> bytes" where
  "format_seconds s = format_date (day_number s) @ ''T'' @ format_clock (second_of_day s)"

definition format_nano :: "instant \<Rightarrow> bytes" where
  "format_nano t = format_seconds (unix_seconds t) @ format_fraction (nanos_of t) @ ''Z''"

text \<open>The instants of the years 0 to 9999, which print with a four-digit year.\<close>

definition four_digit :: "instant \<Rightarrow> bool" where
  "four_digit t = (0 \<le> year_of (day_number (unix_seconds t)) \<and>
                   year_of (day_number (unix_seconds t)) < 10000)"

lemma format_year_length: "0 \<le> y \<Longrightarrow> y < 10000 \<Longrightarrow> length (format_year y) = 4"
  by (simp add: format_year_def)

lemma format_date_length:
  "0 \<le> year_of d \<Longrightarrow> year_of d < 10000 \<Longrightarrow> length (format_date d) = 10"
  by (simp add: format_date_def format_year_length)

lemma format_clock_length [simp]: "length (format_clock s) = 8"
  by (simp add: format_clock_def)

lemma format_seconds_length:
  "0 \<le> year_of (day_number s) \<Longrightarrow> year_of (day_number s) < 10000 \<Longrightarrow> length (format_seconds s) = 19"
  by (simp add: format_seconds_def format_date_length)

lemma format_nano_nonempty [simp]: "format_nano t \<noteq> []"
  by (simp add: format_nano_def)

subsection \<open>Text order and time order\<close>

lemma format_date_less:
  assumes de: "d < e" and range: "0 \<le> year_of d" "year_of e < 10000"
  shows "format_date d < format_date e"
proof -
  have le: "year_of d \<le> year_of e" using de by (intro year_of_mono) simp
  then have lens: "length (format_year (year_of d)) = length (format_year (year_of e))"
    using range by (simp add: format_year_length)
  show ?thesis
  proof (cases "year_of d = year_of e")
    case False
    with le range have "format_year (year_of d) < format_year (year_of e)"
      by (auto simp: format_year_def intro!: pad_decimal_less)
    then show ?thesis using lens by (simp add: format_date_def append_less_same_length)
  next
    case True
    let ?md = "civil_month_day d" and ?me = "civil_month_day e"
    have "day_of_year d < day_of_year e"
      using de True year_of_bounds [of d] by (simp add: day_of_year_def)
    then have "fst ?md < fst ?me \<or> fst ?md = fst ?me \<and> snd ?md < snd ?me"
      using True month_day_mono by (simp add: civil_month_day_def)
    then have "pad_decimal 2 (fst ?md) < pad_decimal 2 (fst ?me) \<or>
      fst ?md = fst ?me \<and> pad_decimal 2 (snd ?md) < pad_decimal 2 (snd ?me)"
      using civil_month_day_bounds(2,4) [of e] by (auto intro!: pad_decimal_less)
    then show ?thesis using True by (auto simp: format_date_def append_less_same_length)
  qed
qed

lemma clock_fields: "(s::nat) div 3600 * 3600 + s div 60 mod 60 * 60 + s mod 60 = s"
proof -
  have "s div 60 = 60 * (s div 3600) + s div 60 mod 60"
    using mult_div_mod_eq [of 60 "s div 60"] div_mult2_eq [of s 60 60] by simp
  then show ?thesis using mult_div_mod_eq [of 60 s] by linarith
qed

lemma format_clock_less:
  assumes "a < b" "b < 86400"
  shows "format_clock a < format_clock b"
proof -
  have "a div 3600 < b div 3600 \<or> a div 3600 = b div 3600 \<and>
    (a div 60 mod 60 < b div 60 mod 60 \<or> a div 60 mod 60 = b div 60 mod 60 \<and> a mod 60 < b mod 60)"
  proof (rule ccontr)
    assume "\<not> ?thesis"
    moreover have "a div 3600 \<le> b div 3600" using assms(1) by (simp add: div_le_mono)
    moreover have "a div 60 mod 60 < 60" "b div 60 mod 60 < 60" "a mod 60 < 60" "b mod 60 < 60"
      by simp_all
    ultimately show False using clock_fields [of a] clock_fields [of b] assms(1) by linarith
  qed
  moreover have "b div 3600 < 100" using assms(2) by simp
  moreover have "b div 60 mod 60 < 100" "b mod 60 < 100"
    using mod_less_divisor [of 60 "b div 60"] mod_less_divisor [of 60 b] by linarith+
  ultimately show ?thesis
    by (auto simp: format_clock_def append_less_same_length intro!: pad_decimal_less)
qed

lemma format_seconds_less:
  assumes st: "s < u" and range: "0 \<le> year_of (day_number s)" "year_of (day_number u) < 10000"
  shows "format_seconds s < format_seconds u"
proof -
  have le: "day_number s \<le> day_number u" using st by (simp add: day_number_def zdiv_mono1)
  with range have year: "year_of (day_number s) < 10000" "0 \<le> year_of (day_number u)"
    using year_of_mono [OF le] by simp_all
  then have lens: "length (format_date (day_number s)) = length (format_date (day_number u))"
    using range by (simp add: format_date_length)
  show ?thesis
  proof (cases "day_number s = day_number u")
    case False
    with le range have "format_date (day_number s) < format_date (day_number u)"
      by (intro format_date_less) simp_all
    then show ?thesis using lens by (simp add: format_seconds_def append_less_same_length)
  next
    case True
    then have "s div 86400 = u div 86400" by (simp add: day_number_def)
    with st have "s mod 86400 < u mod 86400"
      using mult_div_mod_eq [of 86400 s] mult_div_mod_eq [of 86400 u] by linarith
    then have "second_of_day s < second_of_day u" "second_of_day u < 86400"
      by (simp_all add: second_of_day_def nat_less_iff)
    then show ?thesis
      using True by (simp add: format_seconds_def append_less_same_length format_clock_less)
  qed
qed

text \<open>Text order agrees with time order as soon as the two instants are in different seconds.\<close>

lemma format_nano_less:
  assumes "unix_seconds t < unix_seconds u" "four_digit t" "four_digit u"
  shows "format_nano t < format_nano u"
proof -
  have "format_seconds (unix_seconds t) < format_seconds (unix_seconds u)"
    using assms by (intro format_seconds_less) (simp_all add: four_digit_def)
  then show ?thesis
    using assms(2,3)
    by (simp add: format_nano_def list_less_lastI four_digit_def format_seconds_length)
qed

lemma format_nano_lessD:
  assumes "format_nano t < format_nano u" "four_digit t" "four_digit u"
  shows "unix_seconds t \<le> unix_seconds u"
proof (rule ccontr)
  assume "\<not> ?thesis"
  then have "format_nano u < format_nano t" using assms by (intro format_nano_less) simp_all
  with assms(1) show False by simp
qed

lemma seconds_le_imp:
  "unix_seconds t \<le> unix_seconds u \<Longrightarrow> t < u + second"
proof -
  assume le: "unix_seconds t \<le> unix_seconds u"
  have "second * (t div second) \<le> second * (u div second)"
    using le by (intro mult_left_mono) (simp_all add: unix_seconds_def second_def)
  moreover have "t = second * (t div second) + t mod second"
    "u = second * (u div second) + u mod second" by simp_all
  moreover have "t mod second < second" "0 \<le> u mod second" by (simp_all add: second_def)
  ultimately show ?thesis by linarith
qed

subsection \<open>time.Parse(time.RFC3339Nano)\<close>

text \<open>
  The parser of package \<open>time\<close> for this layout: fixed-width fields with their ranges, an optional
  fraction of which the first nine digits count, and \<open>Z\<close> or a numeric offset. \<open>None\<close> is an error.
\<close>

definition number_field :: "nat \<Rightarrow> nat \<Rightarrow> nat \<Rightarrow> nat \<Rightarrow> bytes \<Rightarrow> nat option" where
  "number_field at width lo hi s =
     (if at + width \<le> length s
      then case parse_digits 0 (take width (drop at s)) of
             None \<Rightarrow> None
           | Some n \<Rightarrow> if lo \<le> n \<and> n \<le> hi then Some n else None
      else None)"

definition char_at :: "nat \<Rightarrow> char \<Rightarrow> bytes \<Rightarrow> bool" where
  "char_at i c s = (i < length s \<and> s ! i = c)"

definition is_digit :: "char \<Rightarrow> bool" where
  "is_digit c = (digit_value c \<noteq> None)"

definition parse_fraction :: "bytes \<Rightarrow> nat \<times> bytes" where
  "parse_fraction s =
     (case s of
        [] \<Rightarrow> (0, s)
      | c # r \<Rightarrow>
          if c = CHR ''.'' \<and> takeWhile is_digit r \<noteq> [] then
            (case parse_digits 0 (take 9 (takeWhile is_digit r @ replicate 9 (CHR ''0''))) of
               None \<Rightarrow> (0, s)
             | Some n \<Rightarrow> (n, dropWhile is_digit r))
          else (0, s))"

definition parse_offset :: "bytes \<Rightarrow> int option" where
  "parse_offset z =
     (if z = ''Z'' then Some 0
      else if length z = 6 \<and> (z ! 0 = CHR ''+'' \<or> z ! 0 = CHR ''-'') \<and> z ! 3 = CHR '':'' then
        (case (number_field 1 2 0 24 z, number_field 4 2 0 60 z) of
           (Some h, Some m) \<Rightarrow>
             Some ((if z ! 0 = CHR ''-'' then -1 else 1) * int ((h * 60 + m) * 60))
         | _ \<Rightarrow> None)
      else None)"

definition civil_days :: "nat \<Rightarrow> nat \<Rightarrow> nat \<Rightarrow> int" where
  "civil_days y m d =
     days_before (int y) + int (sum_list (take (m - 1) (month_lengths (leap (int y))))) + int d - 1"

definition parse_nano :: "bytes \<Rightarrow> instant option" where
  "parse_nano s =
     (case number_field 0 4 0 9999 s of None \<Rightarrow> None | Some y \<Rightarrow>
      case number_field 5 2 1 12 s of None \<Rightarrow> None | Some mo \<Rightarrow>
      case number_field 8 2 1 (month_lengths (leap (int y)) ! (mo - 1)) s of None \<Rightarrow> None | Some d \<Rightarrow>
      case number_field 11 2 0 23 s of None \<Rightarrow> None | Some h \<Rightarrow>
      case number_field 14 2 0 59 s of None \<Rightarrow> None | Some mi \<Rightarrow>
      case number_field 17 2 0 59 s of None \<Rightarrow> None | Some sec \<Rightarrow>
      if \<not> (char_at 4 (CHR ''-'') s \<and> char_at 7 (CHR ''-'') s \<and> char_at 10 (CHR ''T'') s \<and>
            char_at 13 (CHR '':'') s \<and> char_at 16 (CHR '':'') s) then None else
      case parse_fraction (drop 19 s) of (n, z) \<Rightarrow>
      case parse_offset z of None \<Rightarrow> None | Some off \<Rightarrow>
        Some (((civil_days y mo d - epoch_days) * 86400 + int (h * 3600 + mi * 60 + sec) - off) * second
              + int n))"

subsection \<open>Parsing what was formatted\<close>

lemma number_field_pad:
  assumes "length a = at" "n < 10 ^ width" "lo \<le> n" "n \<le> hi"
  shows "number_field at width lo hi (a @ pad_decimal width n @ b) = Some n"
  using assms by (simp add: number_field_def parse_pad_decimal)

lemma char_at_append: "length a = i \<Longrightarrow> char_at i c (a @ c # b)"
  by (simp add: char_at_def nth_append)

lemma digit_char_is_digit: "n < 10 \<Longrightarrow> is_digit (digit_char n)"
  by (simp add: is_digit_def digit_value_char)

lemma pad_decimal_is_digit: "c \<in> set (pad_decimal w n) \<Longrightarrow> is_digit c"
  by (induction w arbitrary: n) (auto simp: digit_char_is_digit)

lemma drop_trailing_zeros_split:
  "\<exists>k. s = drop_trailing_zeros s @ replicate k (CHR ''0'')"
proof -
  let ?z = "\<lambda>c. c = CHR ''0''"
  have "takeWhile ?z (rev s) = replicate (length (takeWhile ?z (rev s))) (CHR ''0'')"
    by (rule replicate_eqI [symmetric, THEN sym]) (auto dest: set_takeWhileD)
  then obtain k where k: "takeWhile ?z (rev s) = replicate k (CHR ''0'')" by blast
  have "rev s = replicate k (CHR ''0'') @ dropWhile ?z (rev s)"
    using takeWhile_dropWhile_id [of ?z "rev s"] k by simp
  then have "rev (rev s) = rev (replicate k (CHR ''0'') @ dropWhile ?z (rev s))" by (rule arg_cong)
  then show ?thesis by (auto simp: drop_trailing_zeros_def)
qed

lemma parse_replicate_zero: "parse_digits 0 (replicate k (CHR ''0'')) = Some 0"
  by (induction k) (simp_all add: digit_value_def)

lemma parse_format_fraction:
  assumes n: "n < 10 ^ 9"
  shows "parse_fraction (format_fraction n @ ''Z'') = (n, ''Z'')"
proof (cases "n = 0")
  case True
  then show ?thesis by (simp add: format_fraction_def parse_fraction_def)
next
  case False
  let ?s = "pad_decimal 9 n" let ?d = "drop_trailing_zeros ?s"
  obtain k where k: "?s = ?d @ replicate k (CHR ''0'')" using drop_trailing_zeros_split by blast
  have d_digits: "\<forall>c \<in> set ?d. is_digit c"
    using k by (metis Un_iff pad_decimal_is_digit set_append)
  have "?d \<noteq> []"
  proof
    assume "?d = []"
    with k have "parse_digits 0 ?s = Some 0" by (metis append_Nil parse_replicate_zero)
    with parse_pad_decimal [OF n] False show False by simp
  qed
  moreover have "takeWhile is_digit (?d @ ''Z'') = ?d" "dropWhile is_digit (?d @ ''Z'') = ''Z''"
    using d_digits by (simp_all add: takeWhile_append2 dropWhile_append2 is_digit_def digit_value_def)
  moreover have "take 9 (?d @ replicate 9 (CHR ''0'')) = ?s"
  proof -
    have len: "length ?d + k = 9" using k by (metis length_append length_pad_decimal length_replicate)
    then have "take 9 (?d @ replicate 9 (CHR ''0'')) = ?d @ replicate k (CHR ''0'')" by simp
    with k show ?thesis by simp
  qed
  ultimately show ?thesis
    using False parse_pad_decimal [OF n] by (simp add: format_fraction_def parse_fraction_def)
qed

lemma civil_days_of:
  "0 \<le> year_of d \<Longrightarrow> civil_days (nat (year_of d)) (fst (civil_month_day d)) (snd (civil_month_day d)) = d"
  using civil_month_day_bounds(6) [of d] year_of_bounds(1) [of d]
  by (simp add: civil_days_def day_of_year_def)

text \<open>\<open>time.Parse\<close> inverts \<open>Format\<close> on the instants of the years 0 to 9999.\<close>

lemma parse_format_nano:
  assumes "four_digit t"
  shows "parse_nano (format_nano t) = Some t"
proof -
  define u where "u = unix_seconds t"
  define d where "d = day_number u"
  define y where "y = nat (year_of d)"
  define mo where "mo = fst (civil_month_day d)"
  define da where "da = snd (civil_month_day d)"
  define sd where "sd = second_of_day u"
  define rest where "rest = format_fraction (nanos_of t) @ ''Z''"
  have y: "y < 10000" "int y = year_of d" "0 \<le> year_of d"
    using assms by (simp_all add: y_def d_def u_def four_digit_def nat_less_iff)
  have mo: "1 \<le> mo" "mo \<le> 12" and da: "1 \<le> da" "da \<le> 31"
    and dl: "da \<le> month_lengths (leap (int y)) ! (mo - 1)"
    using civil_month_day_bounds [of d] y(2) by (simp_all add: mo_def da_def)
  have sd: "sd < 86400" by (simp add: sd_def second_of_day_def nat_less_iff)
  have hms: "sd div 3600 \<le> 23" "sd div 60 mod 60 \<le> 59" "sd mod 60 \<le> 59"
    using sd mod_less_divisor [of 60 "sd div 60"] mod_less_divisor [of 60 sd] by linarith+
  have shape: "format_nano t = pad_decimal 4 y @ ''-'' @ pad_decimal 2 mo @ ''-'' @ pad_decimal 2 da @
      ''T'' @ pad_decimal 2 (sd div 3600) @ '':'' @ pad_decimal 2 (sd div 60 mod 60) @ '':'' @
      pad_decimal 2 (sd mod 60) @ rest"
    using y(1,3) unfolding y_def
    by (simp add: nat_less_iff format_nano_def format_seconds_def format_date_def format_clock_def
        format_year_def u_def [symmetric] d_def [symmetric] mo_def [symmetric] da_def [symmetric]
        sd_def [symmetric] rest_def)
  note field = number_field_def parse_pad_decimal
  have f: "number_field 0 4 0 9999 (format_nano t) = Some y"
    "number_field 5 2 1 12 (format_nano t) = Some mo"
    "number_field 8 2 1 (month_lengths (leap (int y)) ! (mo - 1)) (format_nano t) = Some da"
    "number_field 11 2 0 23 (format_nano t) = Some (sd div 3600)"
    "number_field 14 2 0 59 (format_nano t) = Some (sd div 60 mod 60)"
    "number_field 17 2 0 59 (format_nano t) = Some (sd mod 60)"
    using y(1) mo da dl hms by (simp_all add: shape field)
  have c: "char_at 4 (CHR ''-'') (format_nano t)" "char_at 7 (CHR ''-'') (format_nano t)"
    "char_at 10 (CHR ''T'') (format_nano t)" "char_at 13 (CHR '':'') (format_nano t)"
    "char_at 16 (CHR '':'') (format_nano t)"
    by (simp_all add: shape char_at_def nth_append)
  have r: "drop 19 (format_nano t) = rest" by (simp add: shape)
  have frac: "parse_fraction rest = (nanos_of t, ''Z'')"
    unfolding rest_def by (rule parse_format_fraction) (simp add: nanos_of_def second_def nat_less_iff)
  have days: "civil_days y mo da = d"
    using civil_days_of [OF y(3)] by (simp add: y_def mo_def da_def)
  have secs: "(d - epoch_days) * 86400 + int (sd div 3600 * 3600 + sd div 60 mod 60 * 60 + sd mod 60) = u"
    by (simp add: clock_fields d_def day_number_def sd_def second_of_day_def)
  have "u * second + int (nanos_of t) = t"
    by (simp add: u_def unix_seconds_def nanos_of_def second_def)
  then show ?thesis
    unfolding parse_nano_def f option.case days
    by (simp only: c r frac prod.case parse_offset_def refl if_True if_False simp_thms option.case
        secs diff_0_right)
qed

end
