(* ===== verification/Model.thy ===== *)
theory Model
  imports Prelude Timestamp
begin

text \<open>
  The data the components exchange: the requests and jobs of the SDK contract as the code uses
  them, the worker state and access projections of \<open>internal/domain/dataexchange/model/work.go\<close>,
  and the errors as values. Strings are bytes, \<open>int\<close> and \<open>int64\<close> are integers (written with
  \<^const>\<open>wrap64\<close> where a computation can leave the range), instants are nanoseconds.
\<close>

subsection \<open>Errors\<close>

text \<open>
  One constructor per error the code distinguishes with \<open>errors.Is\<close> or \<open>apperror.KindOf\<close>;
  \<open>Err_msg\<close> is an error built with \<open>fmt.Errorf\<close> or \<open>errors.New\<close>, \<open>Err_sql\<close> one of the database
  driver and \<open>Err_external\<close> one that a provider or an SDK function returned. The text of an
  \<open>Err_msg\<close> is the fixed text with its arguments, without the quotation marks of \<open>%q\<close> and without
  the text of a wrapped error; nothing in the code reads it.
\<close>

datatype error_kind =
    Kind_bad_request | Kind_forbidden | Kind_not_found | Kind_conflict
  | Kind_rate_limited | Kind_unavailable | Kind_internal

datatype err =
    Err_sql bytes
  | Err_no_rows
  | Err_msg bytes
  | Err_external bytes
  | Err_source_too_large int
  | Err_source_unreadable err
  | Err_key_reused bytes
  | Err_job_not_found
  | Err_content_corrupt bytes
  | Err_artifact_expired
  | Err_header_required
  | Err_app error_kind bytes bytes
  | Err_joined err err

subsection \<open>Requests and jobs\<close>

record scope =
  sc_workspace :: bytes
  sc_actor :: bytes
  sc_role :: bytes
  sc_request :: bytes

record job_request =
  jq_scope :: scope
  jq_job_id :: bytes
  jq_provider :: bytes
  jq_operation :: bytes

record job_list_request =
  jl_scope :: scope
  jl_provider :: bytes
  jl_operation :: bytes
  jl_status :: bytes
  jl_limit :: int

record job =
  j_id :: bytes
  j_provider :: bytes
  j_operation :: bytes
  j_status :: bytes
  j_checkpoint :: int
  j_cursor :: bytes
  j_total :: int
  j_result_chunks :: int
  j_artifact_id :: bytes
  j_error_code :: bytes
  j_created_at :: instant
  j_updated_at :: instant
  j_workspace :: bytes
  j_object_key :: bytes
  j_actor :: bytes
  j_role :: bytes
  j_reference :: bytes
  j_options :: bytes
  j_lease_owner :: bytes
  j_fencing_token :: int

definition zero_job :: job where
  "zero_job =
     \<lparr>j_id = [], j_provider = [], j_operation = [], j_status = [], j_checkpoint = 0, j_cursor = [],
      j_total = 0, j_result_chunks = 0, j_artifact_id = [], j_error_code = [],
      j_created_at = zero_time, j_updated_at = zero_time, j_workspace = [], j_object_key = [],
      j_actor = [], j_role = [], j_reference = [], j_options = [], j_lease_owner = [],
      j_fencing_token = 0\<rparr>"

text \<open>What one call of an \<open>io.Reader\<close> returns: bytes, and no error, \<open>io.EOF\<close> or another error.\<close>

datatype read_status = Read_ok | Read_eof | Read_error err

type_synonym read_result = "bytes \<times> read_status"

record import_request =
  im_scope :: scope
  im_provider :: bytes
  im_object_key :: bytes
  im_idempotency_key :: bytes
  im_filename :: bytes
  im_content_type :: bytes
  im_max_bytes :: int
  im_options :: bytes
  im_source :: "read_result list option"

record export_request =
  ex_scope :: scope
  ex_provider :: bytes
  ex_object_key :: bytes
  ex_idempotency_key :: bytes
  ex_reference :: bytes
  ex_options :: "bytes option"

subsection \<open>Worker state (model/work.go)\<close>

record work_item =
  w_job :: job
  w_scope :: scope
  w_object_key :: bytes
  w_payload :: bytes
  w_attempts :: int

record artifact_record =
  ar_id :: bytes
  ar_filename :: bytes
  ar_content_type :: bytes
  ar_sha :: bytes
  ar_size :: int
  ar_expires_at :: instant

record job_access =
  ac_permission :: bytes
  ac_workspace :: bytes
  ac_owner :: bytes

definition normalized :: "job_access \<Rightarrow> job_access" where
  "normalized a =
     a\<lparr>ac_permission := trim_space (ac_permission a),
       ac_workspace := trim_space (ac_workspace a),
       ac_owner := trim_space (ac_owner a)\<rparr>"

record failure_plan =
  fp_status :: bytes
  fp_code :: bytes
  fp_attempts :: int
  fp_next :: instant

subsection \<open>What the providers are handed and return (SDK contract)\<close>

record import_row =
  rw_number :: int
  rw_values :: "bytes list"

record import_batch =
  ib_scope :: scope
  ib_object_key :: bytes
  ib_job :: bytes
  ib_chunk :: bytes
  ib_attempt :: int
  ib_final :: bool
  ib_headers :: "bytes list"
  ib_rows :: "import_row list"

record import_artifact =
  ia_scope :: scope
  ia_object_key :: bytes
  ia_job :: bytes
  ia_filename :: bytes
  ia_content_type :: bytes
  ia_options :: bytes
  ia_content :: "read_result list"

text \<open>\<open>ExportPlanRequest\<close> and \<open>ExportArtifactRequest\<close> have the same fields.\<close>

record export_plan_request =
  pq_scope :: scope
  pq_object_key :: bytes
  pq_reference :: bytes
  pq_options :: bytes
  pq_job :: bytes
  pq_created_at :: instant

record export_plan =
  pl_filename :: bytes
  pl_content_type :: bytes
  pl_expires_at :: instant

record page_request =
  pr_scope :: scope
  pr_object_key :: bytes
  pr_reference :: bytes
  pr_options :: bytes
  pr_cursor :: bytes
  pr_page_size :: int
  pr_job :: bytes
  pr_expires_at :: instant

record export_page =
  pg_columns :: "bytes list"
  pg_rows :: "bytes list list"
  pg_next_cursor :: bytes
  pg_total :: int

record export_artifact =
  ea_filename :: bytes
  ea_content_type :: bytes
  ea_expires_at :: instant
  ea_records :: int
  ea_content :: "read_result list option"

record export_completion =
  ec_scope :: scope
  ec_object_key :: bytes
  ec_reference :: bytes
  ec_options :: bytes
  ec_job :: bytes
  ec_artifact :: artifact_record
  ec_rows :: int
  ec_result_chunks :: int

text \<open>The calls of the code to its host's providers, in the order it makes them.\<close>

datatype event =
    Validate_batch import_batch
  | Apply_batch import_batch
  | Validate_artifact import_artifact
  | Apply_artifact import_artifact
  | Plan_export export_plan_request
  | Read_page page_request
  | Build_artifact export_plan_request
  | Complete_export export_completion
  | Project_job job scope
  | Open_artifact job scope
  | Apply_migrations "(bytes \<times> bytes) list"
  | Verify_capability bytes
  | Ask_descriptor
  | Connect_transport
  | Close_transport

lemma normalized_idem [simp]: "normalized (normalized a) = normalized a"
  by (simp add: normalized_def)

lemma normalized_simps [simp]:
  "ac_permission (normalized a) = trim_space (ac_permission a)"
  "ac_workspace (normalized a) = trim_space (ac_workspace a)"
  "ac_owner (normalized a) = trim_space (ac_owner a)"
  by (simp_all add: normalized_def)

text \<open>Job status values.\<close>

definition status_values :: "bytes set" where
  "status_values = {''queued'', ''running'', ''completed'', ''failed'', ''cancelled''}"

definition terminal :: "bytes \<Rightarrow> bool" where
  "terminal s \<longleftrightarrow> s = ''completed'' \<or> s = ''failed'' \<or> s = ''cancelled''"

end
