(* ===== verification/Db.thy ===== *)
theory Db
  imports Model
begin

text \<open>
  The database the store works on: the six tables of
  \<open>internal/infrastructure/persistence/database/schema/definition.go\<close> with their columns and
  primary keys, the statements the store's query builders stand for, and the effects an operation
  has: each statement may fail in the driver, each reading of the clock returns an instant.

  A table is the list of its rows, in no order the code relies on. A statement is the documented
  meaning of the SQL it renders to: \<open>INSERT\<close> fails on a duplicate primary key and otherwise adds the
  row, \<open>UPDATE\<close> changes every row of its predicate and reports how many there were, \<open>DELETE\<close>
  removes them, \<open>SELECT ... ORDER BY\<close> reads them; text columns compare byte by byte. The workspace
  builders of the ORM add \<open>workspace_id = ?\<close> to the predicate.
\<close>

subsection \<open>Rows\<close>

record job_row =
  jr_id :: bytes
  jr_workspace :: bytes
  jr_provider :: bytes
  jr_operation :: bytes
  jr_object_key :: bytes
  jr_idempotency_key :: bytes
  jr_request_sha :: bytes
  jr_request_payload :: bytes
  jr_status :: bytes
  jr_checkpoint :: int
  jr_cursor :: bytes
  jr_total :: int
  jr_result_chunks :: int
  jr_source_sha :: bytes
  jr_source_bytes :: int
  jr_source_chunks :: int
  jr_artifact_id :: bytes
  jr_error_code :: bytes
  jr_lease_owner :: bytes
  jr_lease_expires :: bytes
  jr_fencing_token :: int
  jr_actor :: bytes
  jr_role :: bytes
  jr_created_at :: bytes
  jr_updated_at :: bytes
  jr_reference :: bytes
  jr_attempts :: int
  jr_next_attempt :: bytes

record chunk_row =
  ck_workspace :: bytes
  ck_job :: bytes
  ck_direction :: bytes
  ck_sequence :: int
  ck_content :: bytes
  ck_sha :: bytes
  ck_created_at :: bytes

record artifact_row =
  at_id :: bytes
  at_workspace :: bytes
  at_job :: bytes
  at_filename :: bytes
  at_content_type :: bytes
  at_sha :: bytes
  at_size :: int
  at_expires_at :: bytes
  at_created_at :: bytes

record scope_row =
  qs_key :: bytes
  qs_updated_at :: bytes

record fence_row =
  fe_workspace :: bytes
  fe_subject :: bytes
  fe_request :: bytes

record receipt_row =
  rc_workspace :: bytes
  rc_request :: bytes
  rc_subject :: bytes
  rc_plan :: bytes
  rc_result :: bytes

record db =
  db_jobs :: "job_row list"
  db_chunks :: "chunk_row list"
  db_artifacts :: "artifact_row list"
  db_scopes :: "scope_row list"
  db_fences :: "fence_row list"
  db_receipts :: "receipt_row list"

definition empty_db :: db where
  "empty_db = \<lparr>db_jobs = [], db_chunks = [], db_artifacts = [], db_scopes = [], db_fences = [],
               db_receipts = []\<rparr>"

text \<open>The columns an \<open>INSERT\<close> does not name take the defaults of the schema.\<close>

definition default_job_row :: job_row where
  "default_job_row =
     \<lparr>jr_id = [], jr_workspace = [], jr_provider = [], jr_operation = [], jr_object_key = [],
      jr_idempotency_key = [], jr_request_sha = [], jr_request_payload = [], jr_status = [],
      jr_checkpoint = 0, jr_cursor = [], jr_total = 0, jr_result_chunks = 0, jr_source_sha = [],
      jr_source_bytes = 0, jr_source_chunks = 0, jr_artifact_id = [], jr_error_code = [],
      jr_lease_owner = [], jr_lease_expires = [], jr_fencing_token = 0, jr_actor = [], jr_role = [],
      jr_created_at = [], jr_updated_at = [], jr_reference = [], jr_attempts = 0,
      jr_next_attempt = []\<rparr>"

subsection \<open>Tables and statements\<close>

record ('r, 'k) table =
  t_get :: "db \<Rightarrow> 'r list"
  t_put :: "'r list \<Rightarrow> db \<Rightarrow> db"
  t_key :: "'r \<Rightarrow> 'k"

definition jobs_table :: "(job_row, bytes) table" where
  [row_simps]: "jobs_table =
     \<lparr>t_get = db_jobs, t_put = (\<lambda>rs d. d\<lparr>db_jobs := rs\<rparr>), t_key = jr_id\<rparr>"

definition chunks_table :: "(chunk_row, bytes \<times> bytes \<times> bytes \<times> int) table" where
  [row_simps]: "chunks_table =
     \<lparr>t_get = db_chunks, t_put = (\<lambda>rs d. d\<lparr>db_chunks := rs\<rparr>),
      t_key = (\<lambda>r. (ck_workspace r, ck_job r, ck_direction r, ck_sequence r))\<rparr>"

definition artifacts_table :: "(artifact_row, bytes) table" where
  [row_simps]: "artifacts_table =
     \<lparr>t_get = db_artifacts, t_put = (\<lambda>rs d. d\<lparr>db_artifacts := rs\<rparr>), t_key = at_id\<rparr>"

definition scopes_table :: "(scope_row, bytes) table" where
  [row_simps]: "scopes_table =
     \<lparr>t_get = db_scopes, t_put = (\<lambda>rs d. d\<lparr>db_scopes := rs\<rparr>), t_key = qs_key\<rparr>"

definition fences_table :: "(fence_row, bytes \<times> bytes) table" where
  [row_simps]: "fences_table =
     \<lparr>t_get = db_fences, t_put = (\<lambda>rs d. d\<lparr>db_fences := rs\<rparr>),
      t_key = (\<lambda>r. (fe_workspace r, fe_subject r))\<rparr>"

definition receipts_table :: "(receipt_row, bytes \<times> bytes) table" where
  [row_simps]: "receipts_table =
     \<lparr>t_get = db_receipts, t_put = (\<lambda>rs d. d\<lparr>db_receipts := rs\<rparr>),
      t_key = (\<lambda>r. (rc_workspace r, rc_request r))\<rparr>"

definition insert_into :: "('r, 'k) table \<Rightarrow> 'r \<Rightarrow> db \<Rightarrow> err + unit \<times> db" where
  "insert_into T r d =
     (if t_key T r \<in> t_key T ` set (t_get T d) then Inl (Err_sql ''duplicate primary key'')
      else Inr ((), t_put T (t_get T d @ [r]) d))"

definition update_rows :: "('r \<Rightarrow> bool) \<Rightarrow> ('r \<Rightarrow> 'r) \<Rightarrow> 'r list \<Rightarrow> 'r list" where
  "update_rows p f rs = map (\<lambda>r. if p r then f r else r) rs"

definition update_where ::
  "('r, 'k) table \<Rightarrow> ('r \<Rightarrow> bool) \<Rightarrow> ('r \<Rightarrow> 'r) \<Rightarrow> db \<Rightarrow> err + nat \<times> db" where
  "update_where T p f d =
     Inr (length (filter p (t_get T d)), t_put T (update_rows p f (t_get T d)) d)"

text \<open>An update of key columns fails when two rows would share a key.\<close>

definition rekey_where ::
  "('r, 'k) table \<Rightarrow> ('r \<Rightarrow> bool) \<Rightarrow> ('r \<Rightarrow> 'r) \<Rightarrow> db \<Rightarrow> err + nat \<times> db" where
  "rekey_where T p f d =
     (if distinct (map (t_key T) (update_rows p f (t_get T d))) then update_where T p f d
      else Inl (Err_sql ''duplicate primary key''))"

definition delete_where :: "('r, 'k) table \<Rightarrow> ('r \<Rightarrow> bool) \<Rightarrow> db \<Rightarrow> err + unit \<times> db" where
  "delete_where T p d = Inr ((), t_put T (filter (\<lambda>r. \<not> p r) (t_get T d)) d)"

text \<open>\<open>INSERT ... ON CONFLICT DO UPDATE\<close> (the engine's \<open>ApplyUpsert\<close>).\<close>

definition upsert_into :: "('r, 'k) table \<Rightarrow> 'r \<Rightarrow> ('r \<Rightarrow> 'r) \<Rightarrow> db \<Rightarrow> err + unit \<times> db" where
  "upsert_into T r f d =
     (if t_key T r \<in> t_key T ` set (t_get T d)
      then Inr ((), t_put T (update_rows (\<lambda>x. t_key T x = t_key T r) f (t_get T d)) d)
      else Inr ((), t_put T (t_get T d @ [r]) d))"

definition select_where :: "('r, 'k) table \<Rightarrow> ('r \<Rightarrow> bool) \<Rightarrow> db \<Rightarrow> 'r list" where
  "select_where T p d = filter p (t_get T d)"

text \<open>\<open>QueryRow\<close>: the first row, or \<open>sql.ErrNoRows\<close>.\<close>

definition first_row :: "'r list \<Rightarrow> err + 'r" where
  "first_row rs = (case rs of [] \<Rightarrow> Inl Err_no_rows | r # _ \<Rightarrow> Inr r)"

subsection \<open>Operations\<close>

text \<open>
  The world an operation runs in: the database, which statements the driver will fail (by their
  number), what \<open>time.Now\<close> returns (by the number of the reading) and the calls made to providers
  so far. An operation returns an error or a value, and the world after it.
\<close>

record world =
  w_db :: db
  w_fault :: "nat \<Rightarrow> bool"
  w_statements :: nat
  w_clock :: "nat \<Rightarrow> instant"
  w_readings :: nat
  w_trace :: "event list"

type_synonym 'a op = "world \<Rightarrow> (err + 'a) \<times> world"

definition ret :: "'a \<Rightarrow> 'a op" where
  "ret x w = (Inr x, w)"

definition throw :: "err \<Rightarrow> 'a op" where
  "throw e w = (Inl e, w)"

definition lift :: "err + 'a \<Rightarrow> 'a op" where
  "lift r w = (r, w)"

definition and_then :: "'a op \<Rightarrow> ('a \<Rightarrow> 'b op) \<Rightarrow> 'b op" where
  "and_then m f w = (case m w of (Inl e, w') \<Rightarrow> (Inl e, w') | (Inr x, w') \<Rightarrow> f x w')"

text \<open>The error as a value, for the code that looks at it instead of returning it.\<close>

definition attempt :: "'a op \<Rightarrow> (err + 'a) op" where
  "attempt m w = (case m w of (r, w') \<Rightarrow> (Inr r, w'))"

definition time_now :: "instant op" where
  "time_now w = (Inr (w_clock w (w_readings w)), w\<lparr>w_readings := Suc (w_readings w)\<rparr>)"

text \<open>
  A call to a provider: it is recorded, and answered by a function of all the calls before it, which
  is any behaviour a provider with a state of its own can have.
\<close>

definition call :: "(event list \<Rightarrow> err + 'a) \<Rightarrow> event \<Rightarrow> 'a op" where
  "call answer ev w = (answer (w_trace w), w\<lparr>w_trace := w_trace w @ [ev]\<rparr>)"

definition statement :: "(db \<Rightarrow> err + 'a \<times> db) \<Rightarrow> 'a op" where
  "statement f w =
     (if w_fault w (w_statements w)
      then (Inl (Err_sql ''driver''), w\<lparr>w_statements := Suc (w_statements w)\<rparr>)
      else case f (w_db w) of
             Inl e \<Rightarrow> (Inl e, w\<lparr>w_statements := Suc (w_statements w)\<rparr>)
           | Inr (x, d) \<Rightarrow> (Inr x, w\<lparr>w_statements := Suc (w_statements w), w_db := d\<rparr>))"

definition query :: "(db \<Rightarrow> err + 'a) \<Rightarrow> 'a op" where
  "query f = statement (\<lambda>d. case f d of Inl e \<Rightarrow> Inl e | Inr x \<Rightarrow> Inr (x, d))"

text \<open>
  A transaction: it takes effect as one step of the store, which is what the serializable isolation
  asks for that the erasure calls request; the others (\<open>BeginTx(ctx, nil)\<close>) run at the default level of
  the engine, and that nobody else's writes come between their statements is an assumption of the model
  there. (The fenced updates, and the two statements of a claim, do not rest on it.) \<open>BeginTx\<close> may fail; the body sees the database as it was then, which the deferred
  \<open>Rollback\<close> restores whenever the body returns an error. A body that returns a value has committed
  (\<open>commit_tx\<close>, which may fail) or rolled back itself (\<open>rollback_tx\<close>).
\<close>

definition with_tx :: "(db \<Rightarrow> 'a op) \<Rightarrow> 'a op" where
  "with_tx body =
     and_then (query (\<lambda>d. Inr d)) (\<lambda>d w.
       case body d w of
         (Inl e, w') \<Rightarrow> (Inl e, w'\<lparr>w_db := d\<rparr>)
       | (Inr x, w') \<Rightarrow> (Inr x, w'))"

definition commit_tx :: "unit op" where
  "commit_tx = query (\<lambda>_. Inr ())"

definition rollback_tx :: "db \<Rightarrow> unit op" where
  "rollback_tx d w = (Inr (), w\<lparr>w_db := d\<rparr>)"

subsection \<open>Symbolic execution\<close>

text \<open>
  \<open>wp m Q R w\<close>: run in \<open>w\<close>, the operation ends in a value and world of \<open>Q\<close> or an error and world
  of \<open>R\<close>. The rules below compute it through every construct.
\<close>

definition wp :: "'a op \<Rightarrow> ('a \<Rightarrow> world \<Rightarrow> bool) \<Rightarrow> (err \<Rightarrow> world \<Rightarrow> bool) \<Rightarrow> world \<Rightarrow> bool" where
  "wp m Q R w = (case m w of (Inl e, w') \<Rightarrow> R e w' | (Inr x, w') \<Rightarrow> Q x w')"

abbreviation after_statement :: "world \<Rightarrow> world" where
  "after_statement w \<equiv> w\<lparr>w_statements := Suc (w_statements w)\<rparr>"

lemma wp_ret [op_simps]: "wp (ret x) Q R w = Q x w"
  by (simp add: wp_def ret_def)

lemma wp_throw [op_simps]: "wp (throw e) Q R w = R e w"
  by (simp add: wp_def throw_def)

lemma wp_lift [op_simps]:
  "wp (lift r) Q R w = (case r of Inl e \<Rightarrow> R e w | Inr x \<Rightarrow> Q x w)"
  by (simp add: wp_def lift_def split: sum.splits)

lemma wp_and_then [op_simps]: "wp (and_then m f) Q R w = wp m (\<lambda>x. wp (f x) Q R) R w"
  by (simp add: wp_def and_then_def split: prod.splits sum.splits)

lemma wp_attempt [op_simps]:
  "wp (attempt m) Q R w = wp m (\<lambda>x. Q (Inr x)) (\<lambda>e. Q (Inl e)) w"
  by (simp add: wp_def attempt_def split: prod.splits sum.splits)

lemma wp_time_now [op_simps]:
  "wp time_now Q R w = Q (w_clock w (w_readings w)) (w\<lparr>w_readings := Suc (w_readings w)\<rparr>)"
  by (simp add: wp_def time_now_def)

lemma wp_call [op_simps]:
  "wp (call answer ev) Q R w =
     (case answer (w_trace w) of
        Inl e \<Rightarrow> R e (w\<lparr>w_trace := w_trace w @ [ev]\<rparr>)
      | Inr x \<Rightarrow> Q x (w\<lparr>w_trace := w_trace w @ [ev]\<rparr>))"
  by (simp add: wp_def call_def split: sum.splits)

lemma wp_statement [op_simps]:
  "wp (statement f) Q R w =
     (if w_fault w (w_statements w) then R (Err_sql ''driver'') (after_statement w)
      else case f (w_db w) of
             Inl e \<Rightarrow> R e (after_statement w)
           | Inr (x, d) \<Rightarrow> Q x (w\<lparr>w_statements := Suc (w_statements w), w_db := d\<rparr>))"
  by (simp add: wp_def statement_def split: prod.splits sum.splits)

lemma wp_query [op_simps]:
  "wp (query f) Q R w =
     (if w_fault w (w_statements w) then R (Err_sql ''driver'') (after_statement w)
      else case f (w_db w) of Inl e \<Rightarrow> R e (after_statement w) | Inr x \<Rightarrow> Q x (after_statement w))"
  by (simp add: query_def op_simps split: sum.splits)

lemma wp_commit [op_simps]:
  "wp commit_tx Q R w =
     (if w_fault w (w_statements w) then R (Err_sql ''driver'') (after_statement w)
      else Q () (after_statement w))"
  by (simp add: commit_tx_def op_simps)

lemma wp_rollback [op_simps]: "wp (rollback_tx d) Q R w = Q () (w\<lparr>w_db := d\<rparr>)"
  by (simp add: wp_def rollback_tx_def)

lemma wp_with_tx [op_simps]:
  "wp (with_tx body) Q R w =
     (if w_fault w (w_statements w) then R (Err_sql ''driver'') (after_statement w)
      else wp (body (w_db w)) Q (\<lambda>e w'. R e (w'\<lparr>w_db := w_db w\<rparr>)) (after_statement w))"
proof -
  have "wp (\<lambda>w'. case body d w' of (Inl e, w'') \<Rightarrow> (Inl e, w''\<lparr>w_db := d\<rparr>) | (Inr x, w'') \<Rightarrow> (Inr x, w''))
      Q R v = wp (body d) Q (\<lambda>e w'. R e (w'\<lparr>w_db := d\<rparr>)) v" for d v
    by (simp add: wp_def split: prod.splits sum.splits)
  then show ?thesis by (simp add: with_tx_def op_simps)
qed

lemma wp_if [op_simps]: "wp (if b then m else n) Q R w = (if b then wp m Q R w else wp n Q R w)"
  by simp

lemma wp_let [op_simps]: "wp (let x = a in f x) Q R w = (let x = a in wp (f x) Q R w)"
  by (simp add: Let_def)

lemma wp_case_option [op_simps]:
  "wp (case x of None \<Rightarrow> m | Some y \<Rightarrow> f y) Q R w =
     (case x of None \<Rightarrow> wp m Q R w | Some y \<Rightarrow> wp (f y) Q R w)"
  by (simp split: option.splits)

lemma wp_case_sum [op_simps]:
  "wp (case x of Inl a \<Rightarrow> f a | Inr b \<Rightarrow> g b) Q R w =
     (case x of Inl a \<Rightarrow> wp (f a) Q R w | Inr b \<Rightarrow> wp (g b) Q R w)"
  by (simp split: sum.splits)

lemma wp_case_prod [op_simps]:
  "wp (case x of (a, b) \<Rightarrow> f a b) Q R w = (case x of (a, b) \<Rightarrow> wp (f a b) Q R w)"
  by (simp split: prod.splits)

lemma wp_mono:
  "wp m Q R w \<Longrightarrow> (\<And>x w'. Q x w' \<Longrightarrow> Q' x w') \<Longrightarrow> (\<And>e w'. R e w' \<Longrightarrow> R' e w') \<Longrightarrow> wp m Q' R' w"
  by (auto simp: wp_def split: prod.splits sum.splits)

lemma wp_valueD: "wp m Q R w \<Longrightarrow> m w = (Inr x, w') \<Longrightarrow> Q x w'"
  by (simp add: wp_def)

lemma wp_errorD: "wp m Q R w \<Longrightarrow> m w = (Inl e, w') \<Longrightarrow> R e w'"
  by (simp add: wp_def)

lemma wpI:
  "(\<And>x w'. m w = (Inr x, w') \<Longrightarrow> Q x w') \<Longrightarrow> (\<And>e w'. m w = (Inl e, w') \<Longrightarrow> R e w') \<Longrightarrow> wp m Q R w"
  by (auto simp: wp_def split: prod.splits sum.splits)

end
