(* ===== verification/Tables.thy ===== *)
theory Tables
  imports Db
begin

text \<open>
  What every statement keeps. The interface of a table is a locale: reading gives back what was
  written and writing what was read changes nothing; from these laws alone follow the facts about
  \<open>INSERT\<close>, \<open>UPDATE\<close>, \<open>DELETE\<close> and upserts that the components use, the primary key first of all.
  The six tables of the schema are its instances. A predicate that all statements of an operation
  keep is kept by the operation, whatever the driver does: the rules of \<open>keeps_rules\<close> follow its
  code.
\<close>

named_theorems keeps_rules \<open>rules that show an operation keeps a predicate of the database\<close>

subsection \<open>Tables\<close>

definition keyed :: "('r, 'k) table \<Rightarrow> db \<Rightarrow> bool" where
  "keyed T d \<longleftrightarrow> distinct (map (t_key T) (t_get T d))"

definition all_rows :: "('r, 'k) table \<Rightarrow> ('r \<Rightarrow> bool) \<Rightarrow> db \<Rightarrow> bool" where
  "all_rows T ok d \<longleftrightarrow> (\<forall>r \<in> set (t_get T d). ok r)"

lemma set_update_rows:
  "set (update_rows p f rs) = f ` {r \<in> set rs. p r} \<union> {r \<in> set rs. \<not> p r}"
  by (auto simp: update_rows_def)

lemma update_rows_keys:
  "(\<And>r. r \<in> set rs \<Longrightarrow> p r \<Longrightarrow> key (f r) = key r) \<Longrightarrow> map key (update_rows p f rs) = map key rs"
  by (auto simp: update_rows_def)

lemma length_update_rows [simp]: "length (update_rows p f rs) = length rs"
  by (simp add: update_rows_def)

lemma update_rows_none: "(\<And>r. r \<in> set rs \<Longrightarrow> \<not> p r) \<Longrightarrow> update_rows p f rs = rs"
  by (auto simp: update_rows_def intro: map_idI)

lemma filter_update_rows:
  "(\<And>r. r \<in> set rs \<Longrightarrow> p r \<Longrightarrow> \<not> q r) \<Longrightarrow> (\<And>r. r \<in> set rs \<Longrightarrow> p r \<Longrightarrow> \<not> q (f r)) \<Longrightarrow>
   filter q (update_rows p f rs) = filter q rs"
  by (induction rs) (auto simp: update_rows_def)

lemma filter_key:
  "distinct (map key rs) \<Longrightarrow> r \<in> set rs \<Longrightarrow> filter (\<lambda>x. key x = key r) rs = [r]"
proof (induction rs)
  case (Cons a rs)
  show ?case
  proof (cases "a = r")
    case True
    then have "filter (\<lambda>x. key x = key r) rs = []"
      using Cons.prems by (auto simp: filter_empty_conv image_iff)
    then show ?thesis using True by simp
  next
    case False
    then have "r \<in> set rs" using Cons.prems by simp
    moreover from this have "key a \<noteq> key r" using Cons.prems by auto
    ultimately show ?thesis using Cons.IH Cons.prems by simp
  qed
qed simp

lemma unique_row:
  assumes "distinct (map key rs)" "r \<in> set rs" "p r" "\<And>x. x \<in> set rs \<Longrightarrow> p x \<Longrightarrow> key x = key r"
  shows "filter p rs = [r]"
proof -
  have "filter p rs = filter p (filter (\<lambda>x. key x = key r) rs)"
    unfolding filter_filter using assms(4) by (intro filter_cong) blast+
  then show ?thesis using assms(3) by (simp add: filter_key [OF assms(1,2)])
qed

lemma at_most_one_row:
  assumes "distinct (map key rs)" "\<And>x y. x \<in> set rs \<Longrightarrow> y \<in> set rs \<Longrightarrow> p x \<Longrightarrow> p y \<Longrightarrow> key x = key y"
  shows "length (filter p rs) \<le> 1"
proof (cases "filter p rs")
  case (Cons r rest)
  then have "r \<in> set (filter p rs)" by simp
  then have "r \<in> set rs" "p r" by simp_all
  then have "filter p rs = [r]" using assms by (intro unique_row [where key = key]) blast+
  then show ?thesis by simp
qed simp

locale sql_table =
  fixes T :: "('r, 'k) table"
  assumes get_put: "t_get T (t_put T rs d) = rs"
    and put_get: "t_put T (t_get T d) d = d"
    and put_put: "t_put T rs (t_put T rs' d) = t_put T rs d"
begin

lemma keyed_put: "keyed T (t_put T rs d) \<longleftrightarrow> distinct (map (t_key T) rs)"
  by (simp add: keyed_def get_put)

lemma all_put: "all_rows T ok (t_put T rs d) \<longleftrightarrow> (\<forall>r \<in> set rs. ok r)"
  by (simp add: all_rows_def get_put)

lemma insert_keyed: "insert_into T r d = Inr (u, d') \<Longrightarrow> keyed T d \<Longrightarrow> keyed T d'"
  by (auto simp: insert_into_def keyed_def get_put split: if_split_asm)

lemma insert_all: "insert_into T r d = Inr (u, d') \<Longrightarrow> all_rows T ok d \<Longrightarrow> ok r \<Longrightarrow> all_rows T ok d'"
  by (auto simp: insert_into_def all_rows_def get_put split: if_split_asm)

lemma update_keyed:
  "update_where T p f d = Inr (n, d') \<Longrightarrow> keyed T d \<Longrightarrow>
   (\<And>r. p r \<Longrightarrow> t_key T (f r) = t_key T r) \<Longrightarrow> keyed T d'"
  unfolding update_where_def keyed_def
  by (metis Pair_inject get_put sum.inject(2) update_rows_keys)

lemma update_all:
  "update_where T p f d = Inr (n, d') \<Longrightarrow> all_rows T ok d \<Longrightarrow>
   (\<And>r. p r \<Longrightarrow> ok r \<Longrightarrow> ok (f r)) \<Longrightarrow> all_rows T ok d'"
  by (auto simp: update_where_def all_rows_def get_put set_update_rows)

lemma rekey_keyed: "rekey_where T p f d = Inr (n, d') \<Longrightarrow> keyed T d'"
  unfolding rekey_where_def update_where_def by (auto simp: keyed_put split: if_split_asm)

lemma rekey_all:
  "rekey_where T p f d = Inr (n, d') \<Longrightarrow> all_rows T ok d \<Longrightarrow>
   (\<And>r. p r \<Longrightarrow> ok r \<Longrightarrow> ok (f r)) \<Longrightarrow> all_rows T ok d'"
proof -
  assume run: "rekey_where T p f d = Inr (n, d')" and ok: "all_rows T ok d"
    and step: "\<And>r. p r \<Longrightarrow> ok r \<Longrightarrow> ok (f r)"
  from run have "update_where T p f d = Inr (n, d')"
    by (simp add: rekey_where_def split: if_split_asm)
  then show "all_rows T ok d'" by (rule update_all [OF _ ok step])
qed

lemma delete_keyed: "delete_where T p d = Inr (u, d') \<Longrightarrow> keyed T d \<Longrightarrow> keyed T d'"
  unfolding delete_where_def keyed_def
  by (metis Pair_inject distinct_map_filter get_put sum.inject(2))

lemma delete_all: "delete_where T p d = Inr (u, d') \<Longrightarrow> all_rows T ok d \<Longrightarrow> all_rows T ok d'"
  by (auto simp: delete_where_def all_rows_def get_put)

lemma upsert_keyed:
  "upsert_into T r f d = Inr (u, d') \<Longrightarrow> keyed T d \<Longrightarrow>
   (\<And>x. t_key T x = t_key T r \<Longrightarrow> t_key T (f x) = t_key T x) \<Longrightarrow> keyed T d'"
proof -
  assume run: "upsert_into T r f d = Inr (u, d')" and keyed: "keyed T d"
    and same: "\<And>x. t_key T x = t_key T r \<Longrightarrow> t_key T (f x) = t_key T x"
  show "keyed T d'"
  proof (cases "t_key T r \<in> t_key T ` set (t_get T d)")
    case True
    have keys: "map (t_key T) (update_rows (\<lambda>x. t_key T x = t_key T r) f (t_get T d)) =
        map (t_key T) (t_get T d)"
      by (rule update_rows_keys) (rule same)
    from True have "d' = t_put T (update_rows (\<lambda>x. t_key T x = t_key T r) f (t_get T d)) d"
      using run by (simp add: upsert_into_def)
    then show ?thesis
      using keyed keys by (simp only: keyed_def get_put)
  next
    case False
    then have "d' = t_put T (t_get T d @ [r]) d"
      using run by (simp add: upsert_into_def)
    then show ?thesis using keyed False by (simp add: keyed_def get_put)
  qed
qed

lemma update_none:
  "(\<And>r. r \<in> set (t_get T d) \<Longrightarrow> \<not> p r) \<Longrightarrow> update_where T p f d = Inr (0, d)"
  by (simp add: update_where_def update_rows_none put_get)

lemma update_one:
  assumes "keyed T d" "r \<in> set (t_get T d)" "p r"
    "\<And>x. x \<in> set (t_get T d) \<Longrightarrow> p x \<Longrightarrow> t_key T x = t_key T r"
  shows "update_where T p f d = Inr (1, t_put T (update_rows p f (t_get T d)) d)"
proof -
  have "filter p (t_get T d) = [r]"
  proof (rule unique_row)
    show "distinct (map (t_key T) (t_get T d))" using assms(1) by (simp only: keyed_def)
  qed (fact assms)+
  then show ?thesis by (simp add: update_where_def)
qed

lemma select_one:
  assumes "keyed T d" "r \<in> set (t_get T d)" "p r"
    "\<And>x. x \<in> set (t_get T d) \<Longrightarrow> p x \<Longrightarrow> t_key T x = t_key T r"
  shows "select_where T p d = [r]"
proof -
  have "filter p (t_get T d) = [r]"
  proof (rule unique_row)
    show "distinct (map (t_key T) (t_get T d))" using assms(1) by (simp only: keyed_def)
  qed (fact assms)+
  then show ?thesis by (simp add: select_where_def)
qed

end

interpretation jobs: sql_table jobs_table
  by unfold_locales (simp_all add: row_simps)

interpretation chunks: sql_table chunks_table
  by unfold_locales (simp_all add: row_simps)

interpretation artifacts: sql_table artifacts_table
  by unfold_locales (simp_all add: row_simps)

interpretation scopes: sql_table scopes_table
  by unfold_locales (simp_all add: row_simps)

interpretation fences: sql_table fences_table
  by unfold_locales (simp_all add: row_simps)

interpretation receipts: sql_table receipts_table
  by unfold_locales (simp_all add: row_simps)

lemma table_get [simp]:
  "t_get jobs_table = db_jobs" "t_get chunks_table = db_chunks" "t_get artifacts_table = db_artifacts"
  "t_get scopes_table = db_scopes" "t_get fences_table = db_fences"
  "t_get receipts_table = db_receipts"
  by (simp_all add: row_simps)

subsection \<open>Predicates an operation keeps\<close>

definition keeps :: "(db \<Rightarrow> bool) \<Rightarrow> 'a op \<Rightarrow> bool" where
  "keeps I m \<longleftrightarrow> (\<forall>w. I (w_db w) \<longrightarrow> I (w_db (snd (m w))))"

lemma keepsD: "keeps I m \<Longrightarrow> I (w_db w) \<Longrightarrow> m w = (r, w') \<Longrightarrow> I (w_db w')"
  by (metis keeps_def snd_conv)

lemma keeps_wp: "keeps I m \<Longrightarrow> I (w_db w) \<Longrightarrow> wp m (\<lambda>_ w'. I (w_db w')) (\<lambda>_ w'. I (w_db w')) w"
  by (rule wpI) (auto dest: keepsD)

lemma keeps_ret [keeps_rules]: "keeps I (ret x)"
  by (simp add: keeps_def ret_def)

lemma keeps_throw [keeps_rules]: "keeps I (throw e)"
  by (simp add: keeps_def throw_def)

lemma keeps_lift [keeps_rules]: "keeps I (lift r)"
  by (simp add: keeps_def lift_def)

lemma keeps_time_now [keeps_rules]: "keeps I time_now"
  by (simp add: keeps_def time_now_def)

lemma keeps_call [keeps_rules]: "keeps I (call answer ev)"
  by (simp add: keeps_def call_def)

lemma keeps_iff_wp:
  "keeps I m \<longleftrightarrow> (\<forall>w. I (w_db w) \<longrightarrow> wp m (\<lambda>_ w'. I (w_db w')) (\<lambda>_ w'. I (w_db w')) w)"
proof -
  have "wp m (\<lambda>_ w'. I (w_db w')) (\<lambda>_ w'. I (w_db w')) w \<longleftrightarrow> I (w_db (snd (m w)))" for w
    by (cases "m w") (simp add: wp_def split: sum.splits)
  then show ?thesis by (simp add: keeps_def)
qed

lemma keeps_and_then [keeps_rules]:
  assumes "keeps I m" "\<And>x. keeps I (f x)"
  shows "keeps I (and_then m f)"
  unfolding keeps_iff_wp wp_and_then
proof (intro allI impI)
  fix w :: world assume "I (w_db w)"
  from keeps_wp [OF assms(1) this]
  show "wp m (\<lambda>x. wp (f x) (\<lambda>_ w'. I (w_db w')) (\<lambda>_ w'. I (w_db w'))) (\<lambda>_ w'. I (w_db w')) w"
    by (rule wp_mono) (rule keeps_wp [OF assms(2)])
qed

lemma keeps_attempt [keeps_rules]: "keeps I m \<Longrightarrow> keeps I (attempt m)"
  by (simp add: keeps_iff_wp op_simps)

lemma keeps_query [keeps_rules]: "keeps I (query f)"
  by (auto simp: keeps_def query_def statement_def split: sum.splits prod.splits)

lemma keeps_statement:
  "(\<And>d x d'. I d \<Longrightarrow> f d = Inr (x, d') \<Longrightarrow> I d') \<Longrightarrow> keeps I (statement f)"
  by (auto simp: keeps_def statement_def split: sum.splits prod.splits)

lemma keeps_commit [keeps_rules]: "keeps I commit_tx"
  by (simp add: commit_tx_def keeps_query)

lemma keeps_rollback [keeps_rules]: "I d \<Longrightarrow> keeps I (rollback_tx d)"
  by (simp add: keeps_def rollback_tx_def)

lemma keeps_with_tx [keeps_rules]:
  assumes "\<And>d. I d \<Longrightarrow> keeps I (body d)"
  shows "keeps I (with_tx body)"
  unfolding keeps_def
proof (intro allI impI)
  fix w :: world assume I: "I (w_db w)"
  have "wp (body (w_db w)) (\<lambda>_ w'. I (w_db w')) (\<lambda>_ w'. I (w_db w')) (after_statement w)"
    using keeps_wp [OF assms [OF I]] I by simp
  then have "wp (with_tx body) (\<lambda>_ w'. I (w_db w')) (\<lambda>_ w'. I (w_db w')) w"
    using I by (auto simp: op_simps elim: wp_mono)
  then show "I (w_db (snd (with_tx body w)))"
    by (cases "with_tx body w") (auto simp: wp_def split: sum.splits)
qed

lemma keeps_if [keeps_rules]: "(b \<Longrightarrow> keeps I m) \<Longrightarrow> (\<not> b \<Longrightarrow> keeps I n) \<Longrightarrow> keeps I (if b then m else n)"
  by simp

lemma keeps_let [keeps_rules]: "keeps I (f a) \<Longrightarrow> keeps I (let x = a in f x)"
  by (simp add: Let_def)

lemma keeps_case_option [keeps_rules]:
  "(x = None \<Longrightarrow> keeps I m) \<Longrightarrow> (\<And>y. x = Some y \<Longrightarrow> keeps I (f y)) \<Longrightarrow>
   keeps I (case x of None \<Rightarrow> m | Some y \<Rightarrow> f y)"
  by (simp split: option.splits)

lemma keeps_case_sum [keeps_rules]:
  "(\<And>a. x = Inl a \<Longrightarrow> keeps I (f a)) \<Longrightarrow> (\<And>b. x = Inr b \<Longrightarrow> keeps I (g b)) \<Longrightarrow>
   keeps I (case x of Inl a \<Rightarrow> f a | Inr b \<Rightarrow> g b)"
  by (simp split: sum.splits)

lemma keeps_case_prod [keeps_rules]:
  "(\<And>a b. x = (a, b) \<Longrightarrow> keeps I (f a b)) \<Longrightarrow> keeps I (case x of (a, b) \<Rightarrow> f a b)"
  by (simp split: prod.splits)

lemma keeps_case_status [keeps_rules]:
  "(s = Read_ok \<Longrightarrow> keeps I f) \<Longrightarrow> (s = Read_eof \<Longrightarrow> keeps I g) \<Longrightarrow>
   (\<And>e. s = Read_error e \<Longrightarrow> keeps I (h e)) \<Longrightarrow>
   keeps I (case s of Read_ok \<Rightarrow> f | Read_eof \<Rightarrow> g | Read_error e \<Rightarrow> h e)"
  by (cases s) simp_all

subsection \<open>What a value of an operation says of the database\<close>

text \<open>
  \<open>leads I m Q\<close>: from a database of \<open>I\<close>, when \<open>m\<close> returns the value \<open>x\<close> the database is in \<open>Q x\<close>.
  Within a transaction that is all that counts, because an error restores the database.
\<close>

definition leads :: "(db \<Rightarrow> bool) \<Rightarrow> 'a op \<Rightarrow> ('a \<Rightarrow> db \<Rightarrow> bool) \<Rightarrow> bool" where
  "leads I m Q \<longleftrightarrow> (\<forall>w. I (w_db w) \<longrightarrow> wp m (\<lambda>x w'. Q x (w_db w')) (\<lambda>_ _. True) w)"

lemma leadsD: "leads I m Q \<Longrightarrow> I (w_db w) \<Longrightarrow> wp m (\<lambda>x w'. Q x (w_db w')) (\<lambda>_ _. True) w"
  by (simp add: leads_def)

lemma leads_and_then:
  assumes "leads I m Q" "\<And>x. leads (Q x) (f x) R"
  shows "leads I (and_then m f) R"
  unfolding leads_def wp_and_then
proof (intro allI impI)
  fix w :: world assume "I (w_db w)"
  from leadsD [OF assms(1) this]
  show "wp m (\<lambda>x. wp (f x) (\<lambda>x w'. R x (w_db w')) (\<lambda>_ _. True)) (\<lambda>_ _. True) w"
    by (rule wp_mono) (auto dest: leadsD [OF assms(2)])
qed

lemma leads_keeps: "keeps I m \<Longrightarrow> leads I m (\<lambda>_. I)"
  unfolding leads_def by (auto dest!: keeps_wp elim: wp_mono)

lemma leads_ret: "(\<And>d. I d \<Longrightarrow> Q x d) \<Longrightarrow> leads I (ret x) Q"
  by (simp add: leads_def op_simps)

lemma leads_throw: "leads I (throw e) Q"
  by (simp add: leads_def op_simps)

lemma leads_weaken:
  assumes "leads I m Q" "\<And>d. J d \<Longrightarrow> I d" "\<And>x d. Q x d \<Longrightarrow> R x d"
  shows "leads J m R"
  unfolding leads_def
proof (intro allI impI)
  fix w :: world assume "J (w_db w)"
  from leadsD [OF assms(1) assms(2) [OF this]]
  show "wp m (\<lambda>x w'. R x (w_db w')) (\<lambda>_ _. True) w" by (rule wp_mono) (simp_all add: assms(3))
qed

lemma leads_statement:
  "(\<And>d x d'. I d \<Longrightarrow> f d = Inr (x, d') \<Longrightarrow> Q x d') \<Longrightarrow> leads I (statement f) Q"
  by (auto simp: leads_def op_simps split: sum.splits prod.splits)

lemma leads_rollback: "Q () d \<Longrightarrow> leads I (rollback_tx d) Q"
  by (simp add: leads_def op_simps)

lemma leads_with_tx:
  assumes "\<And>d. I d \<Longrightarrow> leads I (body d) (\<lambda>_. I)"
  shows "keeps I (with_tx body)"
  unfolding keeps_iff_wp
proof (intro allI impI)
  fix w :: world assume I: "I (w_db w)"
  have "wp (body (w_db w)) (\<lambda>_ w'. I (w_db w')) (\<lambda>_ _. True) (after_statement w)"
    using leadsD [OF assms [OF I]] I by simp
  then show "wp (with_tx body) (\<lambda>_ w'. I (w_db w')) (\<lambda>_ w'. I (w_db w')) w"
    using I by (auto simp: op_simps elim: wp_mono)
qed

lemma leads_if: "(b \<Longrightarrow> leads I m Q) \<Longrightarrow> (\<not> b \<Longrightarrow> leads I n Q) \<Longrightarrow> leads I (if b then m else n) Q"
  by simp

lemma leads_case_sum:
  "(\<And>a. x = Inl a \<Longrightarrow> leads I (f a) Q) \<Longrightarrow> (\<And>b. x = Inr b \<Longrightarrow> leads I (g b) Q) \<Longrightarrow>
   leads I (case x of Inl a \<Rightarrow> f a | Inr b \<Rightarrow> g b) Q"
  by (simp split: sum.splits)

lemma leads_case_option:
  "(x = None \<Longrightarrow> leads I m Q) \<Longrightarrow> (\<And>y. x = Some y \<Longrightarrow> leads I (f y) Q) \<Longrightarrow>
   leads I (case x of None \<Rightarrow> m | Some y \<Rightarrow> f y) Q"
  by (simp split: option.splits)

lemma leads_case_prod:
  "(\<And>a b. x = (a, b) \<Longrightarrow> leads I (f a b) Q) \<Longrightarrow> leads I (case x of (a, b) \<Rightarrow> f a b) Q"
  by (simp split: prod.splits)

lemma leads_let: "leads I (f a) Q \<Longrightarrow> leads I (let x = a in f x) Q"
  by (simp add: Let_def)

lemmas leads_cases = leads_if leads_case_sum leads_case_option leads_case_prod leads_let

subsection \<open>Statements that keep a predicate of the tables\<close>

text \<open>
  A predicate \<open>I\<close> of the database that asks of one table unique keys and \<open>ok\<close> of every row, and
  nothing more: what each statement on the table has to satisfy to keep it.
\<close>

locale kept_table = sql_table T for T :: "('r, 'k) table" +
  fixes I :: "db \<Rightarrow> bool" and ok :: "'r \<Rightarrow> bool"
  assumes I_keyed: "I d \<Longrightarrow> keyed T d"
    and I_rows: "I d \<Longrightarrow> all_rows T ok d"
    and I_put: "I d \<Longrightarrow> distinct (map (t_key T) rs) \<Longrightarrow> \<forall>r \<in> set rs. ok r \<Longrightarrow> I (t_put T rs d)"
begin

lemma I_new:
  assumes "I d" "d' = t_put T rs d" "keyed T d'" "all_rows T ok d'"
  shows "I d'"
  using assms I_put [OF assms(1), of rs] by (simp add: keyed_def all_rows_def get_put)

lemma insert_kept: "ok r \<Longrightarrow> keeps I (statement (insert_into T r))"
proof (rule keeps_statement)
  fix d u d' assume "ok r" "I d" and run: "insert_into T r d = Inr (u, d')"
  then have "keyed T d'" "all_rows T ok d'"
    using insert_keyed [OF run I_keyed] insert_all [OF run I_rows] by blast+
  moreover have "d' = t_put T (t_get T d @ [r]) d"
    using run by (simp add: insert_into_def split: if_split_asm)
  ultimately show "I d'" using \<open>I d\<close> I_new by blast
qed

lemma update_kept:
  assumes "\<And>r. p r \<Longrightarrow> ok r \<Longrightarrow> ok (f r)" "\<And>r. p r \<Longrightarrow> t_key T (f r) = t_key T r"
  shows "keeps I (statement (update_where T p f))"
proof (rule keeps_statement)
  fix d n d' assume "I d" and run: "update_where T p f d = Inr (n, d')"
  then have "keyed T d'" "all_rows T ok d'"
    using update_keyed [OF run I_keyed] update_all [OF run I_rows] assms by blast+
  moreover have "d' = t_put T (update_rows p f (t_get T d)) d"
    using run by (simp add: update_where_def)
  ultimately show "I d'" using \<open>I d\<close> I_new by blast
qed

lemma rekey_kept:
  assumes "\<And>r. p r \<Longrightarrow> ok r \<Longrightarrow> ok (f r)"
  shows "keeps I (statement (rekey_where T p f))"
proof (rule keeps_statement)
  fix d n d' assume "I d" and run: "rekey_where T p f d = Inr (n, d')"
  then have "keyed T d'" "all_rows T ok d'"
    using rekey_keyed [OF run] rekey_all [OF run I_rows] assms by blast+
  moreover have "d' = t_put T (update_rows p f (t_get T d)) d"
    using run by (simp add: rekey_where_def update_where_def split: if_split_asm)
  ultimately show "I d'" using \<open>I d\<close> I_new by blast
qed

lemma delete_kept: "keeps I (statement (delete_where T p))"
proof (rule keeps_statement)
  fix d u d' assume "I d" and run: "delete_where T p d = Inr (u, d')"
  then have "keyed T d'" "all_rows T ok d'"
    using delete_keyed [OF run I_keyed] delete_all [OF run I_rows] by blast+
  moreover have "d' = t_put T (filter (\<lambda>r. \<not> p r) (t_get T d)) d"
    using run by (simp add: delete_where_def)
  ultimately show "I d'" using \<open>I d\<close> I_new by blast
qed

lemma upsert_kept:
  assumes "ok r" "\<And>x. t_key T x = t_key T r \<Longrightarrow> ok x \<Longrightarrow> ok (f x)"
    "\<And>x. t_key T x = t_key T r \<Longrightarrow> t_key T (f x) = t_key T x"
  shows "keeps I (statement (upsert_into T r f))"
proof (rule keeps_statement)
  fix d u d' assume "I d" and run: "upsert_into T r f d = Inr (u, d')"
  define rs where "rs = (if t_key T r \<in> t_key T ` set (t_get T d)
    then update_rows (\<lambda>x. t_key T x = t_key T r) f (t_get T d) else t_get T d @ [r])"
  have d': "d' = t_put T rs d"
    using run by (simp add: upsert_into_def rs_def split: if_split_asm)
  have "\<forall>x \<in> set rs. ok x"
    using I_rows [OF \<open>I d\<close>] assms(1,2) by (auto simp: rs_def all_rows_def set_update_rows)
  then have "all_rows T ok d'" by (simp add: d' all_rows_def get_put)
  then show "I d'"
    using I_new [OF \<open>I d\<close> d'] upsert_keyed [OF run I_keyed [OF \<open>I d\<close>] assms(3)] by blast
qed

end

subsection \<open>Operations that leave the database alone when they fail\<close>

definition all_or_nothing :: "'a op \<Rightarrow> bool" where
  "all_or_nothing m \<longleftrightarrow> (\<forall>w e w'. m w = (Inl e, w') \<longrightarrow> w_db w' = w_db w)"

definition reads_only :: "'a op \<Rightarrow> bool" where
  "reads_only m \<longleftrightarrow> (\<forall>w. w_db (snd (m w)) = w_db w)"

lemma reads_only_keeps: "reads_only m \<longleftrightarrow> (\<forall>I. keeps I m)"
proof
  assume all: "\<forall>I. keeps I m"
  have "w_db (snd (m w)) = w_db w" for w
    using spec [OF all, of "\<lambda>d. d = w_db w"] by (simp add: keeps_def)
  then show "reads_only m" by (simp add: reads_only_def)
qed (simp add: reads_only_def keeps_def)

lemma reads_onlyI: "(\<And>I. keeps I m) \<Longrightarrow> reads_only m"
  by (simp add: reads_only_keeps)

lemma reads_onlyD: "reads_only m \<Longrightarrow> m w = (r, w') \<Longrightarrow> w_db w' = w_db w"
  by (metis reads_only_def snd_conv)

lemma with_tx_all_or_nothing: "all_or_nothing (with_tx body)"
  unfolding all_or_nothing_def
proof (intro allI impI)
  fix w e w' assume run: "with_tx body w = (Inl e, w')"
  have "wp (with_tx body) (\<lambda>_ _. True) (\<lambda>_ w'. w_db w' = w_db w) w"
    by (simp add: op_simps) (simp add: wp_def split: prod.splits sum.splits)
  then show "w_db w' = w_db w" using run by (simp add: wp_def)
qed

lemma all_or_nothing_after:
  assumes "reads_only m" "\<And>x. all_or_nothing (f x)"
  shows "all_or_nothing (and_then m f)"
  unfolding all_or_nothing_def and_then_def
proof (intro allI impI)
  fix w e w' assume "(case m w of (Inl e, w') \<Rightarrow> (Inl e, w') | (Inr x, w') \<Rightarrow> f x w') = (Inl e, w')"
  then show "w_db w' = w_db w"
    using assms(2) reads_onlyD [OF assms(1)]
    by (auto simp: all_or_nothing_def split: prod.splits sum.splits)
qed

lemma all_or_nothingD: "all_or_nothing m \<Longrightarrow> m w = (Inl e, w') \<Longrightarrow> w_db w' = w_db w"
  by (auto simp: all_or_nothing_def)

end
