(* ===== verification/Sha256.thy ===== *)
theory Sha256
  imports Prelude
begin

unbundle bit_operations_syntax

text \<open>
  Packages \<open>crypto/sha256\<close> and \<open>encoding/hex\<close> of Go's standard library, as the store and the
  export services use them: \<open>sha256.Sum256\<close> of a byte string, the incremental \<open>hash.Hash\<close>
  (\<open>sha256.New\<close>, \<open>Write\<close>, \<open>Sum(nil)\<close>), and \<open>hex.EncodeToString\<close>. The function is the one of
  FIPS 180-4, executable; the proofs of the other theories use only its output length.
\<close>

type_synonym u32 = "32 word"

definition round_constants :: "u32 list" where
  "round_constants =
    [1116352408, 1899447441, 3049323471, 3921009573, 961987163, 1508970993, 2453635748, 2870763221,
     3624381080, 310598401, 607225278, 1426881987, 1925078388, 2162078206, 2614888103, 3248222580,
     3835390401, 4022224774, 264347078, 604807628, 770255983, 1249150122, 1555081692, 1996064986,
     2554220882, 2821834349, 2952996808, 3210313671, 3336571891, 3584528711, 113926993, 338241895,
     666307205, 773529912, 1294757372, 1396182291, 1695183700, 1986661051, 2177026350, 2456956037,
     2730485921, 2820302411, 3259730800, 3345764771, 3516065817, 3600352804, 4094571909, 275423344,
     430227734, 506948616, 659060556, 883997877, 958139571, 1322822218, 1537002063, 1747873779,
     1955562222, 2024104815, 2227730452, 2361852424, 2428436474, 2756734187, 3204031479, 3329325298]"

definition initial_state :: "u32 list" where
  "initial_state =
    [1779033703, 3144134277, 1013904242, 2773480762, 1359893119, 2600822924, 528734635, 1541459225]"

definition rotr :: "nat \<Rightarrow> u32 \<Rightarrow> u32" where
  "rotr n x = (drop_bit n x OR push_bit (32 - n) x)"

definition big_sigma0 :: "u32 \<Rightarrow> u32" where
  "big_sigma0 x = (rotr 2 x XOR rotr 13 x XOR rotr 22 x)"

definition big_sigma1 :: "u32 \<Rightarrow> u32" where
  "big_sigma1 x = (rotr 6 x XOR rotr 11 x XOR rotr 25 x)"

definition small_sigma0 :: "u32 \<Rightarrow> u32" where
  "small_sigma0 x = (rotr 7 x XOR rotr 18 x XOR drop_bit 3 x)"

definition small_sigma1 :: "u32 \<Rightarrow> u32" where
  "small_sigma1 x = (rotr 17 x XOR rotr 19 x XOR drop_bit 10 x)"

definition ch_fun :: "u32 \<Rightarrow> u32 \<Rightarrow> u32 \<Rightarrow> u32" where
  "ch_fun x y z = ((x AND y) XOR (NOT x AND z))"

definition maj_fun :: "u32 \<Rightarrow> u32 \<Rightarrow> u32 \<Rightarrow> u32" where
  "maj_fun x y z = ((x AND y) XOR (x AND z) XOR (y AND z))"

text \<open>The message schedule, held newest first.\<close>

fun schedule :: "nat \<Rightarrow> u32 list \<Rightarrow> u32 list" where
  "schedule 0 ws = ws"
| "schedule (Suc n) ws =
     schedule n
       ((small_sigma1 (ws ! 1) + ws ! 6 + small_sigma0 (ws ! 14) + ws ! 15) # ws)"

fun compress_round :: "u32 list \<Rightarrow> u32 \<times> u32 \<Rightarrow> u32 list" where
  "compress_round [a, b, c, d, e, f, g, h] (k, w) =
     (let t1 = h + big_sigma1 e + ch_fun e f g + k + w;
          t2 = big_sigma0 a + maj_fun a b c
      in [t1 + t2, a, b, c, d + t1, e, f, g])"
| "compress_round s kw = s"

definition compress :: "u32 list \<Rightarrow> u32 list \<Rightarrow> u32 list" where
  "compress st block =
     map2 (+) st (foldl compress_round st (zip round_constants (rev (schedule 48 (rev block)))))"

fun be_word :: "int list \<Rightarrow> int" where
  "be_word bs = foldl (\<lambda>a b. 256 * a + b) 0 bs"

fun words_of :: "int list \<Rightarrow> u32 list" where
  "words_of (a # b # c # d # rest) = word_of_int (be_word [a, b, c, d]) # words_of rest"
| "words_of rest = []"

text \<open>Padding: one bit, zeros, and the length in bits as a 64-bit big-endian number.\<close>

fun be_bytes :: "nat \<Rightarrow> int \<Rightarrow> int list" where
  "be_bytes 0 n = []"
| "be_bytes (Suc w) n = be_bytes w (n div 256) @ [n mod 256]"

definition pad_message :: "int list \<Rightarrow> int list" where
  "pad_message m =
     m @ [128] @ replicate ((119 - length m mod 64) mod 64) 0 @ be_bytes 8 (8 * int (length m))"

fun absorb :: "nat \<Rightarrow> u32 list \<Rightarrow> u32 list \<Rightarrow> u32 list" where
  "absorb 0 st ws = st"
| "absorb (Suc n) st ws = absorb n (compress st (take 16 ws)) (drop 16 ws)"

definition word_bytes :: "u32 \<Rightarrow> bytes" where
  "word_bytes w = map char_of (be_bytes 4 (uint w))"

definition sha256 :: "bytes \<Rightarrow> bytes" where
  "sha256 s =
     (let m = pad_message (map of_char s)
      in concat (map word_bytes (absorb (length m div 64) initial_state (words_of m))))"

subsection \<open>hash.Hash\<close>

text \<open>
  The incremental hash of \<open>sha256.New\<close>: writing appends to what has been hashed, \<open>Sum(nil)\<close> is
  the digest of everything written so far.
\<close>

type_synonym digest = bytes

definition hash_new :: digest where
  "hash_new = []"

definition hash_write :: "digest \<Rightarrow> bytes \<Rightarrow> digest" where
  "hash_write h p = h @ p"

definition hash_sum :: "digest \<Rightarrow> bytes" where
  "hash_sum h = sha256 h"

subsection \<open>Hexadecimal\<close>

definition hex_digit :: "nat \<Rightarrow> char" where
  "hex_digit n = (if n < 10 then char_of (48 + n) else char_of (87 + n))"

definition hex_byte :: "char \<Rightarrow> bytes" where
  "hex_byte c = (let n = of_char c :: nat in [hex_digit (n div 16), hex_digit (n mod 16)])"

definition hex_encode :: "bytes \<Rightarrow> bytes" where
  "hex_encode s = concat (map hex_byte s)"

lemma hex_digit_inj: "m < 16 \<Longrightarrow> n < 16 \<Longrightarrow> hex_digit m = hex_digit n \<Longrightarrow> m = n"
proof -
  assume mn: "m < 16" "n < 16" and eq: "hex_digit m = hex_digit n"
  have of: "of_char (hex_digit k) = (if k < 10 then 48 + k else 87 + k)" if "k < 16" for k :: nat
    using that by (simp add: hex_digit_def)
  from eq have "(of_char (hex_digit m) :: nat) = of_char (hex_digit n)" by simp
  then show "m = n" using mn by (simp add: of split: if_splits)
qed

lemma hex_byte_inject [simp]: "hex_byte a = hex_byte b \<longleftrightarrow> a = b"
proof
  assume eq: "hex_byte a = hex_byte b"
  have hi: "of_char c div 16 < (16::nat)" and lo: "of_char c mod 16 < (16::nat)" for c
    using nat_of_char_less_256 [of c] by (auto intro: less_mult_imp_div_less)
  from eq have "of_char a div 16 = (of_char b div 16 :: nat)"
    using hex_digit_inj [OF hi hi] by (simp add: hex_byte_def Let_def)
  moreover from eq have "of_char a mod 16 = (of_char b mod 16 :: nat)"
    using hex_digit_inj [OF lo lo] by (simp add: hex_byte_def Let_def)
  ultimately have "(of_char a :: nat) = of_char b" by (metis mult_div_mod_eq)
  then show "a = b" by simp
qed simp

lemma hex_byte_length [simp]: "length (hex_byte c) = 2"
  by (simp add: hex_byte_def Let_def)

lemma hex_encode_simps [simp]:
  "hex_encode [] = []" "hex_encode (c # s) = hex_byte c @ hex_encode s"
  by (simp_all add: hex_encode_def)

lemma length_hex_encode [simp]: "length (hex_encode s) = 2 * length s"
  by (induction s) simp_all

lemma hex_encode_inject [simp]: "hex_encode a = hex_encode b \<longleftrightarrow> a = b"
proof
  show "hex_encode a = hex_encode b \<Longrightarrow> a = b"
  proof (induction a arbitrary: b)
    case Nil
    then have "length (hex_encode b) = 0" by (metis list.size(3) hex_encode_simps(1))
    then show ?case by simp
  next
    case (Cons x a)
    show ?case
    proof (cases b)
      case Nil
      with Cons.prems have "length (hex_encode (x # a)) = 0" by simp
      then show ?thesis by simp
    next
      case (Cons y b')
      with Cons.prems have "hex_byte x = hex_byte y \<and> hex_encode a = hex_encode b'"
        by (simp add: append_eq_append_conv)
      with Cons Cons.IH show ?thesis by simp
    qed
  qed
qed simp

lemma of_hex_digit: "n < 16 \<Longrightarrow> (of_char (hex_digit n) :: nat) = (if n < 10 then 48 + n else 87 + n)"
  by (simp add: hex_digit_def)

lemma hex_encode_plain: "c \<in> set (hex_encode s) \<Longrightarrow> \<exists>n < 16. c = hex_digit n"
proof (induction s)
  case (Cons x s)
  have "of_char x div 16 < (16::nat)" "of_char x mod 16 < (16::nat)"
    using nat_of_char_less_256 [of x] by (auto intro: less_mult_imp_div_less)
  then have "\<exists>n < 16. hex_digit (of_char x div 16) = hex_digit n"
    "\<exists>n < 16. hex_digit (of_char x mod 16) = hex_digit n" by blast+
  then show ?case using Cons by (auto simp: hex_byte_def Let_def)
qed simp

lemma trim_space_hex [simp]: "trim_space (hex_encode s) = hex_encode s"
  by (rule trim_space_plain) (auto dest!: hex_encode_plain simp: of_hex_digit)

lemma to_lower_hex [simp]: "to_lower (hex_encode s) = hex_encode s"
  unfolding to_lower_def
proof (rule map_idI)
  fix c assume "c \<in> set (hex_encode s)"
  then obtain n where "n < 16" "c = hex_digit n" using hex_encode_plain by blast
  then show "ascii_lower c = c" by (simp add: ascii_lower_def Let_def of_hex_digit)
qed

subsection \<open>Output length\<close>

lemma length_schedule [simp]: "length (schedule n ws) = n + length ws"
  by (induction n ws rule: schedule.induct) auto

lemma length_compress_round [simp]: "length (compress_round s kw) = length s"
  by (induction s kw rule: compress_round.induct) (auto simp: Let_def)

lemma length_foldl_round [simp]: "length (foldl compress_round s kws) = length s"
  by (induction kws arbitrary: s) auto

lemma length_compress [simp]: "length (compress st block) = length st"
  by (simp add: compress_def)

lemma length_absorb [simp]: "length (absorb n st ws) = length st"
  by (induction n arbitrary: st ws) auto

lemma length_be_bytes [simp]: "length (be_bytes w n) = w"
  by (induction w arbitrary: n) auto

lemma length_sha256 [simp]: "length (sha256 s) = 32"
proof -
  have "length (concat (map word_bytes ws)) = 4 * length ws" for ws
    by (induction ws) (auto simp: word_bytes_def)
  then show ?thesis by (simp add: sha256_def Let_def initial_state_def)
qed

definition hex_sha :: "bytes \<Rightarrow> bytes" where
  "hex_sha s = hex_encode (sha256 s)"

lemma length_hex_sha [simp]: "length (hex_sha s) = 64"
  by (simp add: hex_sha_def)

lemma hex_sha_nonempty [simp]: "hex_sha s \<noteq> []"
proof -
  have "length (hex_sha s) \<noteq> 0" by simp
  then show ?thesis by (simp only: length_0_conv not_False_eq_True)
qed

lemma hex_sha_eq_iff [simp]: "hex_sha a = hex_sha b \<longleftrightarrow> sha256 a = sha256 b"
  by (simp add: hex_sha_def)

end
