(* ===== verification/Json.thy ===== *)
theory Json
  imports Prelude
begin

text \<open>
  Package \<open>encoding/json\<close> as the store uses it: the text \<open>json.Marshal\<close> writes for strings,
  integers, objects and arrays (strings escaped for HTML, invalid UTF-8 replaced), the compaction of
  a \<open>json.RawMessage\<close>, and \<open>json.Unmarshal\<close> into a struct (keys matched exactly or up to case,
  unknown keys ignored, \<open>null\<close> leaving a field alone, the last of two equal keys winning). A value
  is read through its raw text: \<open>skip_value\<close> finds where it ends.
\<close>

abbreviation quote_char :: char where "quote_char \<equiv> CHR 0x22"
abbreviation backslash :: char where "backslash \<equiv> CHR 0x5C"

definition byte :: "char \<Rightarrow> nat" where
  "byte c = of_char c"

lemma char_of_byte [simp]: "char_of (byte c) = c"
  by (simp add: byte_def)

lemma byte_char_of: "n < 256 \<Longrightarrow> byte (char_of n) = n"
  by (simp add: byte_def)

lemma byte_less: "byte c < 256"
  by (simp add: byte_def)

lemma byte_inject: "byte c = byte d \<longleftrightarrow> c = d"
  by (metis char_of_byte)

lemma byte_eq_iff: "n < 256 \<Longrightarrow> byte c = n \<longleftrightarrow> c = char_of n"
  by (metis byte_char_of char_of_byte)

subsection \<open>UTF-8\<close>

definition cont_byte :: "nat \<Rightarrow> nat \<Rightarrow> char \<Rightarrow> bool" where
  "cont_byte lo hi c \<longleftrightarrow> lo \<le> byte c \<and> byte c \<le> hi"

text \<open>The length of the rune a text starts with, 0 when its bytes are not UTF-8.\<close>

fun utf8_len :: "bytes \<Rightarrow> nat" where
  "utf8_len [] = 0"
| "utf8_len (a # s) =
     (let n = byte a in
      if n < 128 then 1
      else if 194 \<le> n \<and> n \<le> 223 then
        (case s of b # _ \<Rightarrow> if cont_byte 128 191 b then 2 else 0 | _ \<Rightarrow> 0)
      else if 224 \<le> n \<and> n \<le> 239 then
        (case s of b # c # _ \<Rightarrow>
           if cont_byte (if n = 224 then 160 else 128) (if n = 237 then 159 else 191) b \<and>
              cont_byte 128 191 c then 3 else 0
         | _ \<Rightarrow> 0)
      else if 240 \<le> n \<and> n \<le> 244 then
        (case s of b # c # d # _ \<Rightarrow>
           if cont_byte (if n = 240 then 144 else 128) (if n = 244 then 143 else 191) b \<and>
              cont_byte 128 191 c \<and> cont_byte 128 191 d then 4 else 0
         | _ \<Rightarrow> 0)
      else 0)"

definition utf8_encode :: "nat \<Rightarrow> bytes" where
  "utf8_encode r =
     (if r < 128 then [char_of r]
      else if r < 2048 then [char_of (192 + r div 64), char_of (128 + r mod 64)]
      else if r < 65536 then
        [char_of (224 + r div 4096), char_of (128 + r div 64 mod 64), char_of (128 + r mod 64)]
      else
        [char_of (240 + r div 262144), char_of (128 + r div 4096 mod 64),
         char_of (128 + r div 64 mod 64), char_of (128 + r mod 64)])"

definition replacement :: bytes where
  "replacement = utf8_encode 65533"

fun valid_utf8 :: "bytes \<Rightarrow> bool" where
  "valid_utf8 [] = True"
| "valid_utf8 (c # s) =
     (utf8_len (c # s) \<noteq> 0 \<and> valid_utf8 (drop (utf8_len (c # s) - 1) s))"

subsection \<open>Writing\<close>

definition hex_nibble :: "nat \<Rightarrow> char" where
  "hex_nibble n = (if n < 10 then char_of (48 + n) else char_of (87 + n))"

definition escape_ascii :: "char \<Rightarrow> bytes" where
  "escape_ascii c =
     (let n = byte c in
      if c = quote_char \<or> c = backslash then [backslash, c]
      else if c = CHR 0x08 then [backslash, CHR ''b'']
      else if c = CHR 0x0C then [backslash, CHR ''f'']
      else if c = CHR 0x0A then [backslash, CHR ''n'']
      else if c = CHR 0x0D then [backslash, CHR ''r'']
      else if c = CHR 0x09 then [backslash, CHR ''t'']
      else if n < 32 \<or> c = CHR ''<'' \<or> c = CHR ''>'' \<or> c = CHR ''&'' then
        backslash # ''u00'' @ [hex_nibble (n div 16), hex_nibble (n mod 16)]
      else [c])"

definition line_separator :: bytes where "line_separator = utf8_encode 8232"
definition paragraph_separator :: bytes where "paragraph_separator = utf8_encode 8233"

fun escape :: "bytes \<Rightarrow> bytes" where
  "escape [] = []"
| "escape (c # s) =
     (let k = utf8_len (c # s) in
      if byte c < 128 then escape_ascii c @ escape s
      else if k = 0 then backslash # ''ufffd'' @ escape s
      else (if take k (c # s) = line_separator then backslash # ''u2028''
            else if take k (c # s) = paragraph_separator then backslash # ''u2029''
            else take k (c # s)) @ escape (drop (k - 1) s))"

definition json_string :: "bytes \<Rightarrow> bytes" where
  "json_string s = quote_char # escape s @ [quote_char]"

fun comma_separated :: "bytes list \<Rightarrow> bytes" where
  "comma_separated [] = []"
| "comma_separated [v] = v"
| "comma_separated (v # vs) = v @ CHR '','' # comma_separated vs"

definition json_object :: "(bytes \<times> bytes) list \<Rightarrow> bytes" where
  "json_object fields =
     CHR ''{'' # comma_separated (map (\<lambda>(k, v). json_string k @ CHR '':'' # v) fields) @ ''}''"

definition json_array :: "bytes list \<Rightarrow> bytes" where
  "json_array vs = CHR ''['' # comma_separated vs @ '']''"

subsection \<open>Reading\<close>

definition is_space :: "char \<Rightarrow> bool" where
  "is_space c \<longleftrightarrow> byte c \<in> {32, 9, 10, 13}"

definition skip_space :: "bytes \<Rightarrow> bytes" where
  "skip_space s = dropWhile is_space s"

definition hex_value :: "char \<Rightarrow> nat option" where
  "hex_value c =
     (let n = byte c in
      if 48 \<le> n \<and> n \<le> 57 then Some (n - 48)
      else if 97 \<le> n \<and> n \<le> 102 then Some (n - 87)
      else if 65 \<le> n \<and> n \<le> 70 then Some (n - 55) else None)"

fun hex4 :: "bytes \<Rightarrow> (nat \<times> bytes) option" where
  "hex4 (a # b # c # d # s) =
     (case (hex_value a, hex_value b, hex_value c, hex_value d) of
        (Some a, Some b, Some c, Some d) \<Rightarrow> Some (((a * 16 + b) * 16 + c) * 16 + d, s)
      | _ \<Rightarrow> None)"
| "hex4 s = None"

text \<open>A \<open>\u\<close> escape after its \<open>u\<close>: surrogate pairs combine, a lone surrogate is replaced.\<close>

definition unicode_escape :: "bytes \<Rightarrow> (bytes \<times> bytes) option" where
  "unicode_escape s =
     (case hex4 s of
        None \<Rightarrow> None
      | Some (r, s') \<Rightarrow>
          if 55296 \<le> r \<and> r < 57344 then
            (case s' of
               b # u # t \<Rightarrow>
                 if b = backslash \<and> u = CHR ''u'' \<and> r < 56320 then
                   (case hex4 t of
                      Some (q, t') \<Rightarrow>
                        if 56320 \<le> q \<and> q < 57344
                        then Some (utf8_encode ((r - 55296) * 1024 + (q - 56320) + 65536), t')
                        else Some (replacement, s')
                    | None \<Rightarrow> Some (replacement, s'))
                 else Some (replacement, s')
             | _ \<Rightarrow> Some (replacement, s'))
          else Some (utf8_encode r, s'))"

definition simple_escape :: "char \<Rightarrow> char option" where
  "simple_escape e =
     (if e = quote_char \<or> e = backslash \<or> e = CHR ''/'' then Some e
      else if e = CHR ''b'' then Some (CHR 0x08)
      else if e = CHR ''f'' then Some (CHR 0x0C)
      else if e = CHR ''n'' then Some (CHR 0x0A)
      else if e = CHR ''r'' then Some (CHR 0x0D)
      else if e = CHR ''t'' then Some (CHR 0x09) else None)"

definition prepend :: "bytes \<Rightarrow> (bytes \<times> bytes) option \<Rightarrow> (bytes \<times> bytes) option" where
  "prepend p r = map_option (\<lambda>(v, s). (p @ v, s)) r"

text \<open>The rest of a string after its opening quote: its value and what follows it.\<close>

fun parse_string :: "nat \<Rightarrow> bytes \<Rightarrow> (bytes \<times> bytes) option" where
  "parse_string 0 s = None"
| "parse_string (Suc n) [] = None"
| "parse_string (Suc n) (c # s) =
     (if c = quote_char then Some ([], s)
      else if c = backslash then
        (case s of
           [] \<Rightarrow> None
         | e # t \<Rightarrow>
             if e = CHR ''u'' then
               (case unicode_escape t of None \<Rightarrow> None | Some (v, t') \<Rightarrow> prepend v (parse_string n t'))
             else (case simple_escape e of None \<Rightarrow> None | Some x \<Rightarrow> prepend [x] (parse_string n t)))
      else if byte c < 32 then None
      else if utf8_len (c # s) = 0 then prepend replacement (parse_string n s)
      else prepend (take (utf8_len (c # s)) (c # s)) (parse_string n (drop (utf8_len (c # s) - 1) s)))"

definition read_string :: "bytes \<Rightarrow> (bytes \<times> bytes) option" where
  "read_string s =
     (case s of [] \<Rightarrow> None
      | c # t \<Rightarrow> if c = quote_char then parse_string (Suc (length t)) t else None)"

definition is_num_digit :: "char \<Rightarrow> bool" where
  "is_num_digit c \<longleftrightarrow> digit_value c \<noteq> None"

definition skip_digits1 :: "bytes \<Rightarrow> bytes option" where
  "skip_digits1 s = (case s of c # t \<Rightarrow> if is_num_digit c then Some (dropWhile is_num_digit t) else None
                     | [] \<Rightarrow> None)"

definition skip_number :: "bytes \<Rightarrow> bytes option" where
  "skip_number s =
     (let s1 = (case s of c # t \<Rightarrow> if c = CHR ''-'' then t else s | [] \<Rightarrow> s)
      in case (case s1 of c # t \<Rightarrow> if c = CHR ''0'' then Some t else skip_digits1 s1 | [] \<Rightarrow> None) of
           None \<Rightarrow> None
         | Some s2 \<Rightarrow>
           case (case s2 of c # t \<Rightarrow> if c = CHR ''.'' then skip_digits1 t else Some s2 | [] \<Rightarrow> Some s2) of
             None \<Rightarrow> None
           | Some s3 \<Rightarrow>
             (case s3 of
                c # t \<Rightarrow>
                  if c = CHR ''e'' \<or> c = CHR ''E'' then
                    skip_digits1 (case t of x # u \<Rightarrow> if x = CHR ''+'' \<or> x = CHR ''-'' then u else t
                                  | [] \<Rightarrow> t)
                  else Some s3
              | [] \<Rightarrow> Some s3))"

definition expect :: "char \<Rightarrow> bytes \<Rightarrow> bytes option" where
  "expect c s = (case s of x # t \<Rightarrow> if x = c then Some t else None | [] \<Rightarrow> None)"

definition raw_text :: "bytes \<Rightarrow> bytes \<Rightarrow> bytes" where
  "raw_text s rest = take (length s - length rest) s"

text \<open>
  The three readers spend one unit of fuel per value, member and element: \<open>skip_value\<close> the text after
  a value, \<open>members\<close> the keys and raw values of an object after its brace and \<open>elements\<close> the raw
  elements of an array after its bracket, with the text after the closing one.
\<close>

fun skip_value :: "nat \<Rightarrow> bytes \<Rightarrow> bytes option"
  and members :: "nat \<Rightarrow> bytes \<Rightarrow> ((bytes \<times> bytes) list \<times> bytes) option"
  and elements :: "nat \<Rightarrow> bytes \<Rightarrow> (bytes list \<times> bytes) option"
where
  "skip_value 0 s = None"
| "skip_value (Suc n) s =
     (case s of [] \<Rightarrow> None
      | c # t \<Rightarrow>
        if c = quote_char then map_option snd (read_string s)
        else if c = CHR ''{'' then
          (case expect (CHR ''}'') (skip_space t) of
             Some u \<Rightarrow> Some u
           | None \<Rightarrow> map_option snd (members n (skip_space t)))
        else if c = CHR ''['' then
          (case expect (CHR '']'') (skip_space t) of
             Some u \<Rightarrow> Some u
           | None \<Rightarrow> map_option snd (elements n (skip_space t)))
        else if c = CHR ''t'' then strip_prefix ''true'' s
        else if c = CHR ''f'' then strip_prefix ''false'' s
        else if c = CHR ''n'' then strip_prefix ''null'' s
        else skip_number s)"
| "members 0 s = None"
| "members (Suc n) s =
     (case read_string s of None \<Rightarrow> None | Some (key, s1) \<Rightarrow>
      case expect (CHR '':'') (skip_space s1) of None \<Rightarrow> None | Some s2 \<Rightarrow>
      let v = skip_space s2 in
      case skip_value n v of None \<Rightarrow> None | Some s3 \<Rightarrow>
      let m = (key, raw_text v s3) in
      case expect (CHR '','') (skip_space s3) of
        Some s4 \<Rightarrow> map_option (\<lambda>(ms, r). (m # ms, r)) (members n (skip_space s4))
      | None \<Rightarrow> map_option (\<lambda>r. ([m], r)) (expect (CHR ''}'') (skip_space s3)))"
| "elements 0 s = None"
| "elements (Suc n) s =
     (case skip_value n s of None \<Rightarrow> None | Some s1 \<Rightarrow>
      let v = raw_text s s1 in
      case expect (CHR '','') (skip_space s1) of
        Some s2 \<Rightarrow> map_option (\<lambda>(vs, r). (v # vs, r)) (elements n (skip_space s2))
      | None \<Rightarrow> map_option (\<lambda>r. ([v], r)) (expect (CHR '']'') (skip_space s1)))"

text \<open>The raw text of the single value a document holds.\<close>

definition document :: "bytes \<Rightarrow> bytes option" where
  "document s =
     (let v = skip_space s in
      case skip_value (Suc (length v)) v of
        None \<Rightarrow> None
      | Some rest \<Rightarrow> if skip_space rest = [] then Some (raw_text v rest) else None)"

definition object_members :: "bytes \<Rightarrow> (bytes \<times> bytes) list option" where
  "object_members v =
     (case expect (CHR ''{'') v of None \<Rightarrow> None | Some t \<Rightarrow>
      if expect (CHR ''}'') (skip_space t) \<noteq> None then Some []
      else map_option fst (members (length v) (skip_space t)))"

definition array_elements :: "bytes \<Rightarrow> bytes list option" where
  "array_elements v =
     (case expect (CHR ''['') v of None \<Rightarrow> None | Some t \<Rightarrow>
      if expect (CHR '']'') (skip_space t) \<noteq> None then Some []
      else map_option fst (elements (length v) (skip_space t)))"

text \<open>\<open>json.Compact\<close> with HTML escaping, as \<open>Marshal\<close> applies it to a \<open>RawMessage\<close>.\<close>

fun compact_text :: "bool \<Rightarrow> bytes \<Rightarrow> bytes" where
  "compact_text in_string [] = []"
| "compact_text in_string [c] =
     (if \<not> in_string \<and> is_space c then []
      else if c = CHR ''<'' \<or> c = CHR ''>'' \<or> c = CHR ''&'' then escape_ascii c else [c])"
| "compact_text in_string (c # d # s) =
     (if \<not> in_string \<and> is_space c then compact_text False (d # s)
      else if c = CHR ''<'' \<or> c = CHR ''>'' \<or> c = CHR ''&''
      then escape_ascii c @ compact_text in_string (d # s)
      else if take 3 (c # d # s) = line_separator
      then backslash # ''u2028'' @ compact_text in_string (drop 1 s)
      else if take 3 (c # d # s) = paragraph_separator
      then backslash # ''u2029'' @ compact_text in_string (drop 1 s)
      else if c = quote_char then c # compact_text (\<not> in_string) (d # s)
      else if in_string \<and> c = backslash then c # d # compact_text True s
      else c # compact_text in_string (d # s))"

definition compact :: "bytes \<Rightarrow> bytes option" where
  "compact s = map_option (compact_text False) (document s)"

subsection \<open>Unmarshalling into a struct\<close>

text \<open>
  Keys match up to case as \<open>bytes.EqualFold\<close> does: besides ASCII letters, the Kelvin sign folds to
  \<open>k\<close> and the long s to \<open>s\<close>.
\<close>

fun fold_key :: "bytes \<Rightarrow> bytes" where
  "fold_key [] = []"
| "fold_key (c # s) =
     (if take 3 (c # s) = utf8_encode 8490 then CHR ''k'' # fold_key (drop 2 s)
      else if take 2 (c # s) = utf8_encode 383 then CHR ''s'' # fold_key (drop 1 s)
      else ascii_lower c # fold_key s)"

type_synonym 'r setter = "bytes \<Rightarrow> 'r \<Rightarrow> 'r option"

definition field_setter :: "(bytes \<times> 'r setter) list \<Rightarrow> bytes \<Rightarrow> 'r setter option" where
  "field_setter fields key =
     (case map_of fields key of
        Some f \<Rightarrow> Some f
      | None \<Rightarrow> map_option snd (find (\<lambda>(k, f). fold_key k = fold_key key) fields))"

fun set_fields :: "(bytes \<times> 'r setter) list \<Rightarrow> (bytes \<times> bytes) list \<Rightarrow> 'r \<Rightarrow> 'r option" where
  "set_fields fields [] r = Some r"
| "set_fields fields ((key, v) # ms) r =
     (case field_setter fields key of
        None \<Rightarrow> set_fields fields ms r
      | Some f \<Rightarrow> (case f v r of None \<Rightarrow> None | Some r' \<Rightarrow> set_fields fields ms r'))"

definition set_struct :: "(bytes \<times> 'r setter) list \<Rightarrow> 'r setter" where
  "set_struct fields v r =
     (if v = ''null'' then Some r
      else case object_members v of None \<Rightarrow> None | Some ms \<Rightarrow> set_fields fields ms r)"

definition set_string :: "(bytes \<Rightarrow> 'r \<Rightarrow> 'r) \<Rightarrow> 'r setter" where
  "set_string put v r =
     (if v = ''null'' then Some r
      else case read_string v of Some (s, rest) \<Rightarrow> Some (put s r) | None \<Rightarrow> None)"

definition parse_int64 :: "bytes \<Rightarrow> int option" where
  "parse_int64 s =
     (let (neg, t) = (case s of c # u \<Rightarrow> if c = CHR ''-'' then (True, u)
                                        else if c = CHR ''+'' then (False, u) else (False, s)
                      | [] \<Rightarrow> (False, s))
      in if t = [] then None
         else case parse_digits 0 t of
                None \<Rightarrow> None
              | Some n \<Rightarrow> let i = (if neg then - int n else int n)
                         in if int64 i then Some i else None)"

definition set_int :: "(int \<Rightarrow> 'r \<Rightarrow> 'r) \<Rightarrow> 'r setter" where
  "set_int put v r =
     (if v = ''null'' then Some r
      else if skip_number v \<noteq> Some [] then None
      else case parse_int64 v of Some i \<Rightarrow> Some (put i r) | None \<Rightarrow> None)"

definition set_raw :: "(bytes \<Rightarrow> 'r \<Rightarrow> 'r) \<Rightarrow> 'r setter" where
  "set_raw put v r = Some (put v r)"

fun set_each :: "'e setter \<Rightarrow> 'e \<Rightarrow> bytes list \<Rightarrow> 'e list option" where
  "set_each f zero [] = Some []"
| "set_each f zero (v # vs) =
     (case f v zero of None \<Rightarrow> None
      | Some e \<Rightarrow> map_option (\<lambda>es. e # es) (set_each f zero vs))"

definition set_slice :: "'e setter \<Rightarrow> 'e \<Rightarrow> ('e list \<Rightarrow> 'r \<Rightarrow> 'r) \<Rightarrow> 'r setter" where
  "set_slice f zero put v r =
     (if v = ''null'' then Some (put [] r)
      else case array_elements v of None \<Rightarrow> None
           | Some vs \<Rightarrow> map_option (\<lambda>es. put es r) (set_each f zero vs))"

definition unmarshal :: "'r setter \<Rightarrow> 'r \<Rightarrow> bytes \<Rightarrow> 'r option" where
  "unmarshal f zero s = (case document s of None \<Rightarrow> None | Some v \<Rightarrow> f v zero)"

end
