(* ===== verification/Submission.thy ===== *)
theory Submission
  imports Db Sha256 Json
begin

text \<open>
  Submitting jobs (\<open>SubmitImport\<close>, \<open>SubmitExport\<close> of
  \<open>internal/infrastructure/persistence/database/dataexchange/store.go\<close>): the identity and the
  fingerprint of a request, the lock on the submitting subject, the source read in chunks under a
  staging id, the idempotent replay, and the job row. \<open>Scoped\<close> only tags the context with the
  workspace for row-level security and has no counterpart.
\<close>

definition source_chunk_bytes :: nat where
  "source_chunk_bytes = 1048576"

abbreviation nul :: char where "nul \<equiv> CHR 0x00"

definition job_id :: "scope \<Rightarrow> bytes \<Rightarrow> bytes \<Rightarrow> bytes \<Rightarrow> bytes \<Rightarrow> bytes" where
  "job_id scope provider operation object_key key =
     ''data_exchange:'' @ hex_encode (take 12 (sha256
       (sc_workspace scope @ [nul] @ sc_actor scope @ [nul] @ provider @ [nul] @ operation @ [nul] @
        object_key @ [nul] @ key)))"

fun fingerprint_loop :: "digest \<Rightarrow> bytes list \<Rightarrow> digest" where
  "fingerprint_loop h [] = h"
| "fingerprint_loop h (p # ps) = fingerprint_loop (hash_write (hash_write h p) [nul]) ps"

definition fingerprint :: "bytes list \<Rightarrow> bytes" where
  "fingerprint parts = hex_encode (hash_sum (fingerprint_loop hash_new parts))"

subsection \<open>The subject lock (subject_erasure.go)\<close>

definition lock_subject_scope :: "bytes \<Rightarrow> bytes \<Rightarrow> bytes op" where
  "lock_subject_scope workspace subject =
     and_then (statement (upsert_into fences_table
         \<lparr>fe_workspace = workspace, fe_subject = subject, fe_request = []\<rparr>
         (\<lambda>r. r\<lparr>fe_subject := subject\<rparr>))) (\<lambda>_.
     query (\<lambda>d.
       case first_row (select_where fences_table
              (\<lambda>r. fe_workspace r = workspace \<and> fe_subject r = subject) d) of
         Inl e \<Rightarrow> Inl e
       | Inr r \<Rightarrow> Inr (fe_request r)))"

definition check_subject_submission :: "scope \<Rightarrow> unit op" where
  "check_subject_submission scope =
     and_then (lock_subject_scope (sc_workspace scope) (sc_actor scope)) (\<lambda>request.
       if request \<noteq> [] then throw (Err_msg ''Data Exchange subject is fenced for erasure'')
       else ret ())"

definition register_scope :: "bytes \<Rightarrow> unit op" where
  "register_scope workspace =
     and_then time_now (\<lambda>now.
       statement (upsert_into scopes_table
         \<lparr>qs_key = workspace, qs_updated_at = format_nano now\<rparr>
         (\<lambda>r. r\<lparr>qs_updated_at := format_nano now\<rparr>)))"

subsection \<open>The stored request of an import\<close>

record import_payload =
  ip_filename :: bytes
  ip_content_type :: bytes
  ip_max_bytes :: int
  ip_options :: bytes

definition zero_import_payload :: import_payload where
  "zero_import_payload =
     \<lparr>ip_filename = [], ip_content_type = [], ip_max_bytes = 0, ip_options = []\<rparr>"

definition marshal_import_payload :: "import_payload \<Rightarrow> bytes option" where
  "marshal_import_payload p =
     (let head = [(''filename'', json_string (ip_filename p)),
                  (''content_type'', json_string (ip_content_type p)),
                  (''max_bytes'', int_decimal (ip_max_bytes p))]
      in if ip_options p = [] then Some (json_object head)
         else map_option (\<lambda>raw. json_object (head @ [(''options'', raw)])) (compact (ip_options p)))"

definition unmarshal_import_payload :: "bytes \<Rightarrow> import_payload option" where
  "unmarshal_import_payload =
     unmarshal (set_struct
       [(''filename'', set_string (\<lambda>s p. p\<lparr>ip_filename := s\<rparr>)),
        (''content_type'', set_string (\<lambda>s p. p\<lparr>ip_content_type := s\<rparr>)),
        (''max_bytes'', set_int (\<lambda>i p. p\<lparr>ip_max_bytes := i\<rparr>)),
        (''options'', set_raw (\<lambda>v p. p\<lparr>ip_options := v\<rparr>))]) zero_import_payload"

subsection \<open>Reading a job row\<close>

definition parse_time_or_zero :: "bytes \<Rightarrow> instant" where
  "parse_time_or_zero s = (case parse_nano s of Some t \<Rightarrow> t | None \<Rightarrow> zero_time)"

definition scan_job :: "job_row \<Rightarrow> job" where
  "scan_job r =
     \<lparr>j_id = jr_id r, j_provider = jr_provider r, j_operation = jr_operation r,
      j_status = jr_status r, j_checkpoint = jr_checkpoint r, j_cursor = jr_cursor r,
      j_total = jr_total r, j_result_chunks = jr_result_chunks r,
      j_artifact_id = jr_artifact_id r, j_error_code = jr_error_code r,
      j_created_at = parse_time_or_zero (jr_created_at r),
      j_updated_at = parse_time_or_zero (jr_updated_at r),
      j_workspace = jr_workspace r, j_object_key = jr_object_key r, j_actor = jr_actor r,
      j_role = jr_role r, j_reference = jr_reference r,
      j_options =
        (if jr_operation r = ''import''
         then case unmarshal_import_payload (jr_request_payload r) of
                Some p \<Rightarrow> ip_options p | None \<Rightarrow> jr_request_payload r
         else jr_request_payload r),
      j_lease_owner = [], j_fencing_token = 0\<rparr>"

definition same_request_key :: "scope \<Rightarrow> bytes \<Rightarrow> bytes \<Rightarrow> bytes \<Rightarrow> bytes \<Rightarrow> job_row \<Rightarrow> bool" where
  "same_request_key scope provider operation object_key key r \<longleftrightarrow>
     jr_workspace r = sc_workspace scope \<and> jr_provider r = provider \<and> jr_operation r = operation \<and>
     jr_actor r = sc_actor scope \<and> jr_object_key r = object_key \<and> jr_idempotency_key r = key"

definition lookup_idempotent :: "scope \<Rightarrow> bytes \<Rightarrow> bytes \<Rightarrow> bytes \<Rightarrow> bytes \<Rightarrow> job option op" where
  "lookup_idempotent scope provider operation object_key key =
     and_then (attempt (query (\<lambda>d.
         first_row (select_where jobs_table
           (same_request_key scope provider operation object_key key) d))))
       (\<lambda>r. ret (case r of Inl e \<Rightarrow> None | Inr row \<Rightarrow> Some (scan_job row)))"

definition request_hash :: "bytes \<Rightarrow> bytes op" where
  "request_hash jid =
     query (\<lambda>d. case first_row (select_where jobs_table (\<lambda>r. jr_id r = jid) d) of
                   Inl e \<Rightarrow> Inl e | Inr r \<Rightarrow> Inr (jr_request_sha r))"

subsection \<open>SubmitImport\<close>

text \<open>
  The read loop: every non-empty read becomes one chunk row under the staging id; a reader whose
  calls are used up reports the end of the file.
\<close>

fun store_source ::
  "int \<Rightarrow> bytes \<Rightarrow> bytes \<Rightarrow> int \<Rightarrow> int \<Rightarrow> digest \<Rightarrow> read_result list \<Rightarrow> (int \<times> int \<times> digest) op" where
  "store_source limit workspace staging size_read chunks h [] = ret (size_read, chunks, h)"
| "store_source limit workspace staging size_read chunks h ((part, status) # reads) =
     and_then
       (if part = [] then ret (size_read, chunks, h)
        else let size_read = size_read + int (length part) in
          if limit < size_read then throw (Err_source_too_large limit)
          else and_then time_now (\<lambda>now.
            and_then (statement (insert_into chunks_table
                \<lparr>ck_workspace = workspace, ck_job = staging, ck_direction = ''source'',
                 ck_sequence = chunks, ck_content = part, ck_sha = hex_encode (sha256 part),
                 ck_created_at = format_nano now\<rparr>))
              (\<lambda>_. ret (size_read, chunks + 1, hash_write h part))))
       (\<lambda>(size_read, chunks, h).
          case status of
            Read_eof \<Rightarrow> ret (size_read, chunks, h)
          | Read_error e \<Rightarrow> throw (Err_source_unreadable e)
          | Read_ok \<Rightarrow> store_source limit workspace staging size_read chunks h reads)"

definition import_limit :: "import_request \<Rightarrow> int" where
  "import_limit r = (if im_max_bytes r \<le> 0 then 128 * 1048576 else im_max_bytes r)"

definition import_job_row :: "import_request \<Rightarrow> bytes \<Rightarrow> bytes \<Rightarrow> bytes \<Rightarrow> int \<Rightarrow> int \<Rightarrow> instant \<Rightarrow> job_row" where
  "import_job_row r hash payload source_hash size_read chunks now =
     default_job_row\<lparr>
       jr_id := job_id (im_scope r) (im_provider r) ''import'' (im_object_key r) (im_idempotency_key r),
       jr_workspace := sc_workspace (im_scope r), jr_provider := im_provider r,
       jr_operation := ''import'', jr_object_key := im_object_key r,
       jr_idempotency_key := im_idempotency_key r, jr_request_sha := hash,
       jr_request_payload := payload, jr_status := ''queued'', jr_source_sha := source_hash,
       jr_source_bytes := size_read, jr_source_chunks := chunks, jr_actor := sc_actor (im_scope r),
       jr_role := sc_role (im_scope r), jr_created_at := format_nano now,
       jr_updated_at := format_nano now\<rparr>"

definition submitted_import :: "import_request \<Rightarrow> instant \<Rightarrow> job" where
  "submitted_import r now =
     zero_job\<lparr>
       j_id := job_id (im_scope r) (im_provider r) ''import'' (im_object_key r) (im_idempotency_key r),
       j_provider := im_provider r, j_operation := ''import'', j_status := ''queued'',
       j_workspace := sc_workspace (im_scope r), j_object_key := im_object_key r,
       j_actor := sc_actor (im_scope r), j_role := sc_role (im_scope r),
       j_options := im_options r, j_created_at := now, j_updated_at := now\<rparr>"

definition import_lookup :: "import_request \<Rightarrow> job option op" where
  "import_lookup r =
     lookup_idempotent (im_scope r) (im_provider r) ''import'' (im_object_key r) (im_idempotency_key r)"

text \<open>After the source is staged and fingerprinted, when no job has the key yet.\<close>

definition insert_import ::
  "db \<Rightarrow> import_request \<Rightarrow> bytes \<Rightarrow> bytes \<Rightarrow> bytes \<Rightarrow> bytes \<Rightarrow> int \<Rightarrow> int \<Rightarrow> (job \<times> bool) op" where
  "insert_import snapshot r staging hash payload source_hash size_read chunks =
     and_then time_now (\<lambda>now.
     let row = import_job_row r hash payload source_hash size_read chunks now in
     and_then (attempt (statement (insert_into jobs_table row))) (\<lambda>inserted.
     case inserted of
       Inl e \<Rightarrow>
         and_then (rollback_tx snapshot) (\<lambda>_.
         and_then (import_lookup r) (\<lambda>existing.
         case existing of
           None \<Rightarrow> throw e
         | Some job \<Rightarrow>
             and_then (attempt (request_hash (j_id job))) (\<lambda>h.
               if h = Inr hash then ret (job, True) else throw (Err_key_reused ''source''))))
     | Inr _ \<Rightarrow>
         and_then (statement (rekey_where chunks_table
             (\<lambda>c. ck_workspace c = sc_workspace (im_scope r) \<and> ck_job c = staging \<and>
                  ck_direction c = ''source'')
             (\<lambda>c. c\<lparr>ck_job := jr_id row\<rparr>))) (\<lambda>_.
         and_then (register_scope (sc_workspace (im_scope r))) (\<lambda>_.
         and_then commit_tx (\<lambda>_. ret (submitted_import r now, False))))))"

definition import_payload_of :: "import_request \<Rightarrow> import_payload" where
  "import_payload_of r =
     \<lparr>ip_filename = im_filename r, ip_content_type = im_content_type r,
      ip_max_bytes = import_limit r, ip_options = im_options r\<rparr>"

definition import_hash :: "import_request \<Rightarrow> bytes \<Rightarrow> bytes \<Rightarrow> bytes" where
  "import_hash r payload source_hash =
     fingerprint [im_provider r, im_object_key r, payload, source_hash]"

definition submit_import :: "import_request \<Rightarrow> (job \<times> bool) op" where
  "submit_import r =
     (let jid = job_id (im_scope r) (im_provider r) ''import'' (im_object_key r) (im_idempotency_key r) in
     and_then time_now (\<lambda>started.
     let staging = jid @ '':staging:'' @ int_decimal (wrap64 started) in
     with_tx (\<lambda>snapshot.
     and_then (check_subject_submission (im_scope r)) (\<lambda>_.
     case im_source r of
       None \<Rightarrow> throw (Err_msg ''invalid memory address or nil pointer dereference'')
     | Some reads \<Rightarrow>
     and_then (store_source (import_limit r) (sc_workspace (im_scope r)) staging 0 0 hash_new reads)
       (\<lambda>(size_read, chunks, h).
     let source_hash = hex_encode (hash_sum h) in
     case marshal_import_payload (import_payload_of r) of
       None \<Rightarrow> throw (Err_msg ''encode Data Exchange import request'')
     | Some payload \<Rightarrow>
     let hash = import_hash r payload source_hash in
     and_then (attempt (query (\<lambda>d.
         first_row (select_where jobs_table
           (same_request_key (im_scope r) (im_provider r) ''import'' (im_object_key r)
             (im_idempotency_key r)) d)))) (\<lambda>lookup.
     case lookup of
       Inr row \<Rightarrow>
         if jr_request_sha row \<noteq> hash then throw (Err_key_reused ''source'')
         else and_then (rollback_tx snapshot) (\<lambda>_.
           and_then (import_lookup r) (\<lambda>existing.
             case existing of
               None \<Rightarrow> throw (Err_msg ''Data Exchange idempotent import disappeared'')
             | Some job \<Rightarrow> ret (job, True)))
     | Inl e \<Rightarrow>
         if e \<noteq> Err_no_rows then throw e
         else insert_import snapshot r staging hash payload source_hash size_read chunks))))))"

subsection \<open>SubmitExport\<close>

definition export_payload :: "export_request \<Rightarrow> bytes" where
  "export_payload r = (case ex_options r of None \<Rightarrow> [] | Some options \<Rightarrow> options)"

definition export_hash :: "export_request \<Rightarrow> bytes" where
  "export_hash r =
     fingerprint [ex_provider r, ex_object_key r, trim_space (ex_reference r), export_payload r]"

definition export_job_row :: "export_request \<Rightarrow> instant \<Rightarrow> job_row" where
  "export_job_row r now =
     default_job_row\<lparr>
       jr_id := job_id (ex_scope r) (ex_provider r) ''export'' (ex_object_key r) (ex_idempotency_key r),
       jr_workspace := sc_workspace (ex_scope r), jr_provider := ex_provider r,
       jr_operation := ''export'', jr_object_key := ex_object_key r,
       jr_idempotency_key := ex_idempotency_key r, jr_request_sha := export_hash r,
       jr_request_payload := export_payload r, jr_status := ''queued'',
       jr_actor := sc_actor (ex_scope r), jr_role := sc_role (ex_scope r),
       jr_reference := trim_space (ex_reference r), jr_created_at := format_nano now,
       jr_updated_at := format_nano now\<rparr>"

definition submitted_export :: "export_request \<Rightarrow> instant \<Rightarrow> job" where
  "submitted_export r now =
     zero_job\<lparr>
       j_id := job_id (ex_scope r) (ex_provider r) ''export'' (ex_object_key r) (ex_idempotency_key r),
       j_provider := ex_provider r, j_operation := ''export'', j_status := ''queued'',
       j_workspace := sc_workspace (ex_scope r), j_object_key := ex_object_key r,
       j_actor := sc_actor (ex_scope r), j_role := sc_role (ex_scope r),
       j_reference := trim_space (ex_reference r), j_options := export_payload r,
       j_created_at := now, j_updated_at := now\<rparr>"

definition submit_export :: "export_request \<Rightarrow> (job \<times> bool) op" where
  "submit_export r =
     and_then time_now (\<lambda>now.
     with_tx (\<lambda>snapshot.
     and_then (check_subject_submission (ex_scope r)) (\<lambda>_.
     and_then (attempt (statement (insert_into jobs_table (export_job_row r now)))) (\<lambda>inserted.
     case inserted of
       Inl e \<Rightarrow>
         and_then (rollback_tx snapshot) (\<lambda>_.
         and_then (lookup_idempotent (ex_scope r) (ex_provider r) ''export'' (ex_object_key r)
             (ex_idempotency_key r)) (\<lambda>existing.
         case existing of
           None \<Rightarrow> throw e
         | Some job \<Rightarrow>
             and_then (attempt (request_hash (j_id job))) (\<lambda>h.
               if (case h of Inl _ \<Rightarrow> [] | Inr existing_hash \<Rightarrow> existing_hash) \<noteq> export_hash r
               then throw (Err_key_reused ''request'') else ret (job, True))))
     | Inr _ \<Rightarrow>
         and_then (register_scope (sc_workspace (ex_scope r))) (\<lambda>_.
         and_then commit_tx (\<lambda>_. ret (submitted_export r now, False)))))))"

end
