(* ===== verification/JobAccess.thy ===== *)
theory JobAccess
  imports Submission
begin

text \<open>
  The job reads and the cancellation of
  \<open>internal/infrastructure/persistence/database/dataexchange/store.go\<close> (\<open>Job\<close>, \<open>Jobs\<close>,
  \<open>Cancel\<close>): every query carries the workspace and the owner of the resolved access.
\<close>

definition job_access_matches_scope :: "job_request \<Rightarrow> job_access \<Rightarrow> bool" where
  "job_access_matches_scope r access \<longleftrightarrow>
     ac_workspace access \<noteq> [] \<and> ac_owner access \<noteq> [] \<and>
     ac_workspace access = trim_space (sc_workspace (jq_scope r)) \<and>
     ac_owner access = trim_space (sc_actor (jq_scope r))"

definition job_candidate :: "job_request \<Rightarrow> job_access \<Rightarrow> job_row \<Rightarrow> bool" where
  "job_candidate r access row \<longleftrightarrow>
     jr_id row = trim_space (jq_job_id r) \<and> jr_actor row = ac_owner access \<and>
     (trim_space (jq_provider r) \<noteq> [] \<longrightarrow> jr_provider row = trim_space (jq_provider r)) \<and>
     (trim_space (jq_operation r) \<noteq> [] \<longrightarrow> jr_operation row = trim_space (jq_operation r))"

text \<open>The workspace builder adds the workspace to the predicate.\<close>

definition job_select :: "job_request \<Rightarrow> job_access \<Rightarrow> db \<Rightarrow> job_row list" where
  "job_select r access =
     select_where jobs_table (\<lambda>row. jr_workspace row = ac_workspace access \<and> job_candidate r access row)"

text \<open>\<open>sql.ErrNoRows\<close> becomes \<open>ErrJobNotFound\<close>; every other error is returned as it is.\<close>

definition found_or_not_found :: "err + job_row \<Rightarrow> job op" where
  "found_or_not_found found =
     (case found of
        Inl e \<Rightarrow> throw (if e = Err_no_rows then Err_job_not_found else e)
      | Inr row \<Rightarrow> ret (scan_job row))"

definition store_job :: "job_request \<Rightarrow> job_access \<Rightarrow> job op" where
  "store_job r access0 =
     (let access = normalized access0 in
      if \<not> job_access_matches_scope r access then throw Err_job_not_found
      else and_then (attempt (query (\<lambda>d. first_row (job_select r access d)))) found_or_not_found)"

definition list_predicate :: "job_list_request \<Rightarrow> job_access \<Rightarrow> job_row \<Rightarrow> bool" where
  "list_predicate r access row \<longleftrightarrow>
     jr_workspace row = ac_workspace access \<and> jr_actor row = ac_owner access \<and>
     (trim_space (jl_provider r) \<noteq> [] \<longrightarrow> jr_provider row = trim_space (jl_provider r)) \<and>
     (trim_space (jl_operation r) \<noteq> [] \<longrightarrow> jr_operation row = trim_space (jl_operation r)) \<and>
     (trim_space (jl_status r) \<noteq> [] \<longrightarrow> jr_status row = trim_space (jl_status r))"

text \<open>
  \<open>ORDER BY created_at DESC, id DESC\<close>, and at most \<open>Limit\<close> of the rows. What the query builder renders
  for a negative limit is not under \<open>src\<close> (\<open>LIMIT -1\<close> is no limit in SQLite and an error in other
  engines); the model then takes no row. A limit that \<open>JobListRequest.Validate\<close> of the SDK lets pass is
  expected not to be negative.
\<close>

definition newest_first :: "job_row list \<Rightarrow> job_row list" where
  "newest_first rows = rev (sort_key jr_created_at (sort_key jr_id rows))"

definition store_jobs :: "job_list_request \<Rightarrow> job_access \<Rightarrow> job list op" where
  "store_jobs r access0 =
     (let access = normalized access0 in
      if ac_workspace access = [] \<or> ac_owner access = [] \<or>
         ac_workspace access \<noteq> trim_space (sc_workspace (jl_scope r)) \<or>
         ac_owner access \<noteq> trim_space (sc_actor (jl_scope r))
      then throw Err_job_not_found
      else
        let limit = (if jl_limit r = 0 then 50 else jl_limit r) in
        query (\<lambda>d. Inr (map scan_job
          (take (nat limit) (newest_first (select_where jobs_table (list_predicate r access) d))))))"

definition cancel_row :: "instant \<Rightarrow> job_row \<Rightarrow> job_row" where
  "cancel_row now row = row\<lparr>jr_status := ''cancelled'', jr_updated_at := format_nano now\<rparr>"

definition store_cancel :: "job_request \<Rightarrow> job_access \<Rightarrow> job op" where
  "store_cancel r access0 =
     (let access = normalized access0 in
      if \<not> job_access_matches_scope r access then throw Err_job_not_found
      else with_tx (\<lambda>snapshot.
        and_then (and_then (attempt (query (\<lambda>d. first_row (job_select r access d)))) found_or_not_found)
          (\<lambda>selected.
        and_then
          (if j_status selected = ''queued'' \<or> j_status selected = ''running''
           then and_then time_now (\<lambda>now.
             and_then (statement (update_where jobs_table
                 (\<lambda>row. jr_workspace row = ac_workspace access \<and> job_candidate r access row \<and>
                        jr_status row \<in> {''queued'', ''running''})
                 (cancel_row now)))
               (\<lambda>updated. if updated \<noteq> 1 then throw Err_job_not_found else ret ()))
           else ret ()) (\<lambda>_.
        and_then (and_then (attempt (query (\<lambda>d. first_row (job_select r access d)))) found_or_not_found)
          (\<lambda>job.
        and_then commit_tx (\<lambda>_. ret job))))))"

end
