(* ===== verification/Claiming.thy ===== *)
theory Claiming
  imports Submission
begin

text \<open>
  How workers take jobs (\<open>Claim\<close>, \<open>ClaimJob\<close>, \<open>claimWorkspace\<close> of
  \<open>internal/infrastructure/persistence/database/dataexchange/store.go\<close>): a \<open>SELECT\<close> of the oldest
  claimable job and, in a second statement outside any transaction, an \<open>UPDATE\<close> that repeats the
  whole condition and raises the fencing token. Other workers may run between the two.
\<close>

definition default_lease :: duration where
  "default_lease = 30 * second"

definition lease_ttl :: "duration \<Rightarrow> duration" where
  "lease_ttl ttl = (if ttl \<le> 0 then default_lease else ttl)"

text \<open>The condition on the text columns, for the text of the current instant.\<close>

definition claimable :: "bytes \<Rightarrow> job_row \<Rightarrow> bool" where
  "claimable now r \<longleftrightarrow>
     (jr_status r = ''queued'' \<and> (jr_next_attempt r = [] \<or> jr_next_attempt r < now)) \<or>
     (jr_status r = ''running'' \<and> jr_lease_expires r \<noteq> [] \<and> jr_lease_expires r < now)"

definition requested :: "job_request option \<Rightarrow> job_row \<Rightarrow> bool" where
  "requested request r \<longleftrightarrow>
     (case request of
        None \<Rightarrow> True
      | Some q \<Rightarrow>
          jr_id r = trim_space (jq_job_id q) \<and> jr_actor r = trim_space (sc_actor (jq_scope q)) \<and>
          (trim_space (jq_provider q) \<noteq> [] \<longrightarrow> jr_provider r = trim_space (jq_provider q)) \<and>
          (trim_space (jq_operation q) \<noteq> [] \<longrightarrow> jr_operation r = trim_space (jq_operation q)))"

definition claim_candidate :: "bytes \<Rightarrow> bytes \<Rightarrow> job_request option \<Rightarrow> job_row \<Rightarrow> bool" where
  "claim_candidate workspace now request r \<longleftrightarrow>
     jr_workspace r = workspace \<and> claimable now r \<and> requested request r"

text \<open>\<open>ORDER BY created_at LIMIT 1\<close>: the oldest candidate; ties fall as the rows lie in the table.\<close>

definition claim_select :: "bytes \<Rightarrow> bytes \<Rightarrow> job_request option \<Rightarrow> db \<Rightarrow> err + job_row" where
  "claim_select workspace now request d =
     first_row (sort_key jr_created_at (select_where jobs_table (claim_candidate workspace now request) d))"

text \<open>The work item scanned from the selected row, before the update.\<close>

definition item_of_row :: "job_row \<Rightarrow> work_item" where
  "item_of_row r =
     \<lparr>w_job = zero_job\<lparr>
        j_id := jr_id r, j_provider := jr_provider r, j_operation := jr_operation r,
        j_status := jr_status r, j_checkpoint := jr_checkpoint r, j_cursor := jr_cursor r,
        j_total := jr_total r, j_result_chunks := jr_result_chunks r,
        j_fencing_token := jr_fencing_token r, j_artifact_id := jr_artifact_id r,
        j_error_code := jr_error_code r, j_created_at := parse_time_or_zero (jr_created_at r),
        j_updated_at := parse_time_or_zero (jr_updated_at r), j_reference := jr_reference r\<rparr>,
      w_scope = \<lparr>sc_workspace = jr_workspace r, sc_actor = jr_actor r, sc_role = jr_role r,
                 sc_request = []\<rparr>,
      w_object_key = jr_object_key r, w_payload = jr_request_payload r, w_attempts = jr_attempts r\<rparr>"

definition claimed_item :: "bytes \<Rightarrow> job_row \<Rightarrow> work_item" where
  "claimed_item owner r =
     (item_of_row r)\<lparr>w_job := (w_job (item_of_row r))\<lparr>
        j_status := ''running'', j_fencing_token := jr_fencing_token r + 1, j_lease_owner := owner\<rparr>\<rparr>"

definition claim_row :: "bytes \<Rightarrow> instant \<Rightarrow> duration \<Rightarrow> job_row \<Rightarrow> job_row" where
  "claim_row owner now ttl r =
     r\<lparr>jr_status := ''running'', jr_lease_owner := owner,
       jr_lease_expires := format_nano (now + lease_ttl ttl), jr_next_attempt := [],
       jr_fencing_token := jr_fencing_token r + 1, jr_updated_at := format_nano now\<rparr>"

text \<open>The update of a row selected at instant \<open>now\<close>: the number of rows it changed.\<close>

definition claim_update ::
  "bytes \<Rightarrow> bytes \<Rightarrow> duration \<Rightarrow> job_request option \<Rightarrow> instant \<Rightarrow> bytes \<Rightarrow> db \<Rightarrow> err + nat \<times> db" where
  "claim_update workspace owner ttl request now jid =
     update_where jobs_table
       (\<lambda>r. jr_id r = jid \<and> claim_candidate workspace (format_nano now) request r)
       (claim_row owner now ttl)"

definition claim_workspace ::
  "bytes \<Rightarrow> bytes \<Rightarrow> duration \<Rightarrow> job_request option \<Rightarrow> work_item option op" where
  "claim_workspace workspace owner ttl request =
     and_then time_now (\<lambda>now.
     and_then (attempt (query (claim_select workspace (format_nano now) request))) (\<lambda>selected.
     case selected of
       Inl e \<Rightarrow> if e = Err_no_rows then ret None else throw e
     | Inr row \<Rightarrow>
         and_then (statement (claim_update workspace owner ttl request now (jr_id row))) (\<lambda>n.
           if n \<noteq> 1 then ret None else ret (Some (claimed_item owner row)))))"

fun claim_loop :: "bytes \<Rightarrow> duration \<Rightarrow> bytes list \<Rightarrow> work_item option op" where
  "claim_loop owner ttl [] = ret None"
| "claim_loop owner ttl (workspace # workspaces) =
     and_then (claim_workspace workspace owner ttl None) (\<lambda>found.
       case found of Some item \<Rightarrow> ret (Some item) | None \<Rightarrow> claim_loop owner ttl workspaces)"

text \<open>\<open>ORDER BY updated_at, scope_key\<close> over the queue scopes.\<close>

definition queue_workspaces :: "db \<Rightarrow> bytes list" where
  "queue_workspaces d = map qs_key (sort_key qs_updated_at (sort_key qs_key (db_scopes d)))"

text \<open>
  The \<open>rows.Next\<close> loop over them: the code never asks \<open>rows.Err\<close>, so a driver that fails to fetch the
  next row ends the list there, without an error. Only \<open>rows.Close\<close> may still return one.
\<close>

fun fetch_scopes :: "bytes list \<Rightarrow> bytes list op" where
  "fetch_scopes [] = ret []"
| "fetch_scopes (scope # rows) =
     and_then (attempt (query (\<lambda>_. Inr ()))) (\<lambda>fetched.
     case fetched of
       Inl e \<Rightarrow> ret []
     | Inr _ \<Rightarrow> and_then (fetch_scopes rows) (\<lambda>rest. ret (scope # rest)))"

definition claim :: "bytes \<Rightarrow> duration \<Rightarrow> work_item option op" where
  "claim owner ttl =
     and_then (query (\<lambda>d. Inr (queue_workspaces d))) (\<lambda>rows.
     and_then (fetch_scopes rows) (\<lambda>workspaces.
     and_then (query (\<lambda>_. Inr ())) (\<lambda>_.
       claim_loop owner ttl workspaces)))"

text \<open>\<open>JobRequest.Validate\<close> is the SDK's: the parameter \<open>validate_request\<close>.\<close>

definition claim_job ::
  "(job_request \<Rightarrow> err option) \<Rightarrow> job_request \<Rightarrow> bytes \<Rightarrow> duration \<Rightarrow> work_item option op" where
  "claim_job validate_request request owner ttl =
     (case validate_request request of
        Some e \<Rightarrow> throw e
      | None \<Rightarrow> claim_workspace (trim_space (sc_workspace (jq_scope request))) owner ttl (Some request))"

end
