(* ===== verification/WorkerStore.thy ===== *)
theory WorkerStore
  imports Claiming
begin

text \<open>
  What a worker that holds a job does to the store (\<open>Chunks\<close>, \<open>ResultIdentity\<close>,
  \<open>CommitResultPage\<close>, \<open>Progress\<close>, \<open>Complete\<close>, \<open>Fail\<close>, \<open>Heartbeat\<close> of
  \<open>internal/infrastructure/persistence/database/dataexchange/store.go\<close>). Every write is guarded by
  the fence: the job is still running, under this worker's lease, with this worker's token.
\<close>

definition fenced_job :: "work_item \<Rightarrow> job_row \<Rightarrow> bool" where
  "fenced_job x r \<longleftrightarrow>
     jr_id r = j_id (w_job x) \<and> jr_status r = ''running'' \<and>
     jr_lease_owner r = j_lease_owner (w_job x) \<and>
     jr_fencing_token r = j_fencing_token (w_job x)"

definition stale_fence :: "work_item \<Rightarrow> err" where
  "stale_fence x = Err_msg (''Data Exchange job '' @ j_id (w_job x) @ '' fencing token is stale'')"

text \<open>A fenced update outside a transaction: one row or a stale fence.\<close>

definition fenced_update :: "work_item \<Rightarrow> (job_row \<Rightarrow> job_row) \<Rightarrow> err \<Rightarrow> unit op" where
  "fenced_update x f e =
     and_then (statement (update_where jobs_table (fenced_job x) f))
       (\<lambda>updated. if updated \<noteq> 1 then throw e else ret ())"

subsection \<open>Reading chunks\<close>

definition chunk_rows :: "bytes \<Rightarrow> bytes \<Rightarrow> bytes \<Rightarrow> db \<Rightarrow> chunk_row list" where
  "chunk_rows workspace job direction d =
     sort_key ck_sequence (select_where chunks_table
       (\<lambda>c. ck_workspace c = workspace \<and> ck_job c = job \<and> ck_direction c = direction) d)"

text \<open>
  \<open>streamRows\<close>: what the pipe delivers, one write per chunk. Fetching a row may fail in the driver, and
  so may finding that there is none left, which \<open>rows.Err\<close> reports after the loop; a chunk whose digest
  does not match its column ends the stream with an error.
\<close>

fun stream_rows :: "(bytes \<times> bytes) list \<Rightarrow> read_result list op" where
  "stream_rows [] =
     and_then (attempt (query (\<lambda>_. Inr ()))) (\<lambda>ended.
     case ended of Inl e \<Rightarrow> ret [([], Read_error e)] | Inr _ \<Rightarrow> ret [([], Read_eof)])"
| "stream_rows ((content, sha) # rows) =
     and_then (attempt (query (\<lambda>_. Inr ()))) (\<lambda>fetched.
     case fetched of
       Inl e \<Rightarrow> ret [([], Read_error e)]
     | Inr _ \<Rightarrow>
         if \<not> equal_fold (hex_encode (sha256 content)) (trim_space sha)
         then ret [([], Read_error (Err_content_corrupt ''chunk SHA-256 mismatch''))]
         else and_then (stream_rows rows) (\<lambda>rest. ret ((content, Read_ok) # rest)))"

definition chunks :: "bytes \<Rightarrow> bytes \<Rightarrow> bytes \<Rightarrow> read_result list op" where
  "chunks workspace job direction =
     and_then (query (\<lambda>d. Inr (map (\<lambda>c. (ck_content c, ck_sha c)) (chunk_rows workspace job direction d))))
       stream_rows"

text \<open>\<open>io.Copy\<close> from a reader: everything read, and the error that ended it, if any.\<close>

fun read_all :: "read_result list \<Rightarrow> bytes \<times> err option" where
  "read_all [] = ([], None)"
| "read_all ((p, Read_ok) # rs) = (case read_all rs of (q, e) \<Rightarrow> (p @ q, e))"
| "read_all ((p, Read_eof) # rs) = (p, None)"
| "read_all ((p, Read_error e) # rs) = (p, Some e)"

definition result_identity :: "bytes \<Rightarrow> bytes \<Rightarrow> (bytes \<times> int) op" where
  "result_identity workspace job =
     and_then (chunks workspace job ''result'') (\<lambda>reader.
       case read_all reader of
         (content, Some e) \<Rightarrow> throw e
       | (content, None) \<Rightarrow>
           ret (hex_encode (hash_sum (hash_write hash_new content)), int (length content)))"

subsection \<open>Writing\<close>

definition commit_row :: "int \<Rightarrow> bytes \<Rightarrow> int \<Rightarrow> int \<Rightarrow> instant \<Rightarrow> job_row \<Rightarrow> job_row" where
  "commit_row seq next_cursor checkpoint count now r =
     r\<lparr>jr_checkpoint := checkpoint, jr_cursor := next_cursor, jr_total := count,
       jr_result_chunks := seq + 1, jr_updated_at := format_nano now\<rparr>"

definition result_chunk :: "work_item \<Rightarrow> int \<Rightarrow> bytes \<Rightarrow> instant \<Rightarrow> chunk_row" where
  "result_chunk x seq content now =
     \<lparr>ck_workspace = sc_workspace (w_scope x), ck_job = j_id (w_job x), ck_direction = ''result'',
      ck_sequence = seq, ck_content = content, ck_sha = hex_encode (sha256 content),
      ck_created_at = format_nano now\<rparr>"

definition commit_result_page :: "work_item \<Rightarrow> int \<Rightarrow> bytes \<Rightarrow> bytes \<Rightarrow> int \<Rightarrow> int \<Rightarrow> unit op" where
  "commit_result_page x seq content next_cursor checkpoint count =
     with_tx (\<lambda>_.
     and_then time_now (\<lambda>now.
     and_then (statement (insert_into chunks_table (result_chunk x seq content now))) (\<lambda>_.
     and_then time_now (\<lambda>now'.
     and_then (fenced_update x (commit_row seq next_cursor checkpoint count now') (stale_fence x)) (\<lambda>_.
     commit_tx)))))"

definition progress_row :: "int \<Rightarrow> int \<Rightarrow> instant \<Rightarrow> job_row \<Rightarrow> job_row" where
  "progress_row checkpoint count now r =
     r\<lparr>jr_checkpoint := checkpoint, jr_total := count, jr_updated_at := format_nano now\<rparr>"

definition progress :: "work_item \<Rightarrow> int \<Rightarrow> int \<Rightarrow> unit op" where
  "progress x checkpoint count =
     and_then time_now (\<lambda>now.
       fenced_update x (progress_row checkpoint count now) (stale_fence x))"

definition complete_row :: "bytes \<Rightarrow> instant \<Rightarrow> job_row \<Rightarrow> job_row" where
  "complete_row artifact now r =
     r\<lparr>jr_status := ''completed'', jr_artifact_id := artifact, jr_error_code := [],
       jr_next_attempt := [], jr_lease_owner := [], jr_lease_expires := [],
       jr_updated_at := format_nano now\<rparr>"

definition artifact_row_of :: "work_item \<Rightarrow> artifact_record \<Rightarrow> instant \<Rightarrow> artifact_row" where
  "artifact_row_of x a now =
     \<lparr>at_id = ar_id a, at_workspace = sc_workspace (w_scope x), at_job = j_id (w_job x),
      at_filename = ar_filename a, at_content_type = ar_content_type a, at_sha = ar_sha a,
      at_size = ar_size a, at_expires_at = format_nano (ar_expires_at a),
      at_created_at = format_nano now\<rparr>"

definition complete :: "work_item \<Rightarrow> artifact_record option \<Rightarrow> unit op" where
  "complete x artifact =
     with_tx (\<lambda>_.
     and_then
       (case artifact of
          None \<Rightarrow> ret []
        | Some a \<Rightarrow>
            and_then time_now (\<lambda>now.
            and_then (statement (insert_into artifacts_table (artifact_row_of x a now)))
              (\<lambda>_. ret (ar_id a)))) (\<lambda>aid.
     and_then time_now (\<lambda>now.
     and_then (fenced_update x (complete_row aid now)
         (Err_msg (''Data Exchange job '' @ j_id (w_job x) @ '' is no longer running''))) (\<lambda>_.
     commit_tx))))"

definition fail_row :: "failure_plan \<Rightarrow> bytes \<Rightarrow> instant \<Rightarrow> job_row \<Rightarrow> job_row" where
  "fail_row plan next_attempt now r =
     r\<lparr>jr_status := fp_status plan, jr_error_code := fp_code plan, jr_attempts := fp_attempts plan,
       jr_next_attempt := next_attempt, jr_lease_owner := [], jr_lease_expires := [],
       jr_updated_at := format_nano now\<rparr>"

definition fail :: "work_item \<Rightarrow> failure_plan \<Rightarrow> unit op" where
  "fail x plan =
     and_then time_now (\<lambda>now.
     let next_attempt = (if is_zero (fp_next plan) then [] else format_nano (fp_next plan)) in
     fenced_update x (fail_row plan next_attempt now) (stale_fence x))"

definition heartbeat_row :: "duration \<Rightarrow> instant \<Rightarrow> job_row \<Rightarrow> job_row" where
  "heartbeat_row ttl now r =
     r\<lparr>jr_lease_expires := format_nano (now + lease_ttl ttl), jr_updated_at := format_nano now\<rparr>"

definition heartbeat :: "work_item \<Rightarrow> duration \<Rightarrow> unit op" where
  "heartbeat x ttl =
     and_then time_now (\<lambda>now. fenced_update x (heartbeat_row ttl now) (stale_fence x))"

end
