(* ===== verification/JsonRoundtrip.thy ===== *)
theory JsonRoundtrip
  imports Json
begin

text \<open>
  What \<open>json.Marshal\<close> writes for strings, integers, arrays and objects is read back by
  \<open>json.Unmarshal\<close>: valid UTF-8 strings escape and unescape to themselves, and every written value
  ends where it was meant to end, whatever follows it.
\<close>

subsection \<open>Reading back what was written\<close>

lemma hex_value_nibble: "n < 16 \<Longrightarrow> hex_value (hex_nibble n) = Some n"
  by (auto simp: hex_value_def hex_nibble_def Let_def byte_char_of)

lemma unicode_escape_byte:
  assumes "n < 128"
  shows "unicode_escape (CHR ''0'' # CHR ''0'' # hex_nibble (n div 16) # hex_nibble (n mod 16) # t)
    = Some ([char_of n], t)"
proof -
  have z: "hex_value (CHR ''0'') = Some 0" by (simp add: hex_value_def byte_def)
  have nibbles: "hex_value (hex_nibble (n div 16)) = Some (n div 16)"
    "hex_value (hex_nibble (n mod 16)) = Some (n mod 16)"
    using assms by (auto intro!: hex_value_nibble less_mult_imp_div_less)
  have "hex4 (CHR ''0'' # CHR ''0'' # hex_nibble (n div 16) # hex_nibble (n mod 16) # t)
      = Some (((0 * 16 + 0) * 16 + n div 16) * 16 + n mod 16, t)"
    by (simp only: hex4.simps z nibbles prod.case option.case)
  moreover have "((0 * 16 + 0) * 16 + n div 16) * 16 + n mod 16 = n"
    by simp
  ultimately have "hex4 (CHR ''0'' # CHR ''0'' # hex_nibble (n div 16) # hex_nibble (n mod 16) # t)
      = Some (n, t)" by (simp only:)
  moreover have "\<not> 55296 \<le> n" using assms by simp
  ultimately show ?thesis
    using assms by (simp only: unicode_escape_def option.case prod.case simp_thms if_False
        utf8_encode_def if_True)
qed

lemma parse_string_plain:
  "c \<noteq> quote_char \<Longrightarrow> c \<noteq> backslash \<Longrightarrow> 32 \<le> byte c \<Longrightarrow> byte c < 128 \<Longrightarrow>
   parse_string (Suc n) (c # t) = prepend [c] (parse_string n t)"
  by simp

lemma parse_string_ascii:
  assumes "byte c < 128"
  shows "parse_string (Suc n) (escape_ascii c @ t) = prepend [c] (parse_string n t)"
proof -
  consider (same) "c = quote_char \<or> c = backslash"
    | (control) "c \<in> {CHR 0x08, CHR 0x0C, CHR 0x0A, CHR 0x0D, CHR 0x09}"
    | (unicode) "c \<noteq> quote_char" "c \<noteq> backslash" "c \<notin> {CHR 0x08, CHR 0x0C, CHR 0x0A, CHR 0x0D, CHR 0x09}"
        "byte c < 32 \<or> c = CHR ''<'' \<or> c = CHR ''>'' \<or> c = CHR ''&''"
    | (plain) "c \<noteq> quote_char" "c \<noteq> backslash" "c \<notin> {CHR 0x08, CHR 0x0C, CHR 0x0A, CHR 0x0D, CHR 0x09}" "\<not> byte c < 32"
        "\<not> (c = CHR ''<'' \<or> c = CHR ''>'' \<or> c = CHR ''&'')"
    by blast
  then show ?thesis
  proof cases
    case same
    then show ?thesis by (auto simp: escape_ascii_def Let_def simple_escape_def)
  next
    case control
    then show ?thesis by (auto simp: escape_ascii_def Let_def simple_escape_def)
  next
    case unicode
    then have "escape_ascii c =
        backslash # CHR ''u'' # CHR ''0'' # CHR ''0'' # [hex_nibble (byte c div 16), hex_nibble (byte c mod 16)]"
      by (simp add: escape_ascii_def Let_def)
    then show ?thesis using unicode_escape_byte [OF assms] by simp
  next
    case plain
    then have "escape_ascii c = [c]" by (auto simp: escape_ascii_def Let_def)
    with plain assms show ?thesis by simp
  qed
qed

lemma utf8_len_le: "utf8_len s \<le> length s"
  by (cases s) (auto simp: Let_def split: list.splits)

lemma utf8_len_take:
  assumes "utf8_len s = k" "0 < k"
  shows "utf8_len (take k s @ t) = k"
proof -
  obtain a r where s: "s = a # r" using assms by (cases s) auto
  have "k \<in> {1, 2, 3, 4}" using assms unfolding s by (auto simp: Let_def split: list.splits if_splits)
  moreover have "k \<le> length s" using assms(1) utf8_len_le by blast
  ultimately consider
      (one) "k = 1" | (two) b u where "k = 2" "r = b # u" | (three) b c u where "k = 3" "r = b # c # u"
    | (four) b c d u where "k = 4" "r = b # c # d # u"
    unfolding s by (auto simp: Suc_le_length_iff numeral_eq_Suc)
  then show ?thesis
  proof cases
    case one
    have "byte a < 128"
    proof (rule ccontr)
      assume "\<not> byte a < 128"
      with assms(1) one show False unfolding s by (simp add: Let_def split: list.splits if_splits)
    qed
    with one show ?thesis unfolding s by (simp add: Let_def)
  next
    case two
    have "194 \<le> byte a \<and> byte a \<le> 223"
    proof (rule ccontr)
      assume "\<not> ?thesis"
      with assms(1) two show False
        unfolding s by (simp add: Let_def split: list.splits if_splits)
    qed
    moreover have "take k s @ t = a # b # t" using two by (simp add: s numeral_2_eq_2)
    ultimately show ?thesis using assms(1) two unfolding s by (simp add: Let_def split: if_splits)
  next
    case three
    have "224 \<le> byte a \<and> byte a \<le> 239"
    proof (rule ccontr)
      assume "\<not> ?thesis"
      with assms(1) three show False
        unfolding s by (simp add: Let_def split: list.splits if_splits)
    qed
    moreover have "take k s @ t = a # b # c # t" using three by (simp add: s numeral_3_eq_3)
    ultimately show ?thesis using assms(1) three unfolding s by (simp add: Let_def split: if_splits)
  next
    case four
    have "240 \<le> byte a \<and> byte a \<le> 244"
    proof (rule ccontr)
      assume "\<not> ?thesis"
      with assms(1) four show False
        unfolding s by (simp add: Let_def split: list.splits if_splits)
    qed
    moreover have "take k s @ t = a # b # c # d # t" using four by (simp add: s numeral_eq_Suc)
    ultimately show ?thesis using assms(1) four unfolding s by (simp add: Let_def split: if_splits)
  qed
qed

lemma utf8_len_high: "128 \<le> byte c \<Longrightarrow> utf8_len (c # s) \<noteq> 1"
  by (auto simp: Let_def split: list.splits)

lemma parse_string_rune:
  assumes "utf8_len (c # s) = k" "0 < k" "128 \<le> byte c"
  shows "parse_string (Suc n) (take k (c # s) @ t) = prepend (take k (c # s)) (parse_string n t)"
proof -
  obtain j where k: "k = Suc j" using assms(2) by (cases k) auto
  have len: "utf8_len (c # take j s @ t) = k"
    using utf8_len_take [OF assms(1,2), of t] by (simp add: k)
  have js: "j \<le> length s" using utf8_len_le [of "c # s"] assms(1) k by simp
  have "c \<noteq> quote_char" "c \<noteq> backslash" using assms(3) by (auto simp: byte_def)
  then show ?thesis
    using assms(3) js by (simp add: k len [unfolded k] del: utf8_len.simps)
qed

lemma unicode_separator:
  "unicode_escape (CHR ''2'' # CHR ''0'' # CHR ''2'' # CHR ''8'' # t) = Some (line_separator, t)"
  "unicode_escape (CHR ''2'' # CHR ''0'' # CHR ''2'' # CHR ''9'' # t) = Some (paragraph_separator, t)"
  by (simp_all add: unicode_escape_def hex_value_def byte_def line_separator_def paragraph_separator_def)

lemma escape_length: "length s \<le> length (escape s)"
proof (induction s rule: escape.induct)
  case (2 c s)
  show ?case
  proof (cases "byte c < 128")
    case True
    then have "1 \<le> length (escape_ascii c)" by (auto simp: escape_ascii_def Let_def)
    with 2 True show ?thesis by simp
  next
    case False
    have le: "utf8_len (c # s) \<le> 4" "utf8_len (c # s) \<le> length (c # s)"
      using utf8_len_le [of "c # s"] by (auto simp: Let_def split: list.splits)
    show ?thesis
    proof (cases "utf8_len (c # s) = 0")
      case True
      with 2 False show ?thesis by simp
    next
      case nz: False
      then have "length (drop (utf8_len (c # s) - 1) s) \<le> length (escape (drop (utf8_len (c # s) - 1) s))"
        using 2 False by simp
      then show ?thesis using False nz le
        by (auto simp: line_separator_def paragraph_separator_def utf8_encode_def Let_def
            simp del: utf8_len.simps)
    qed
  qed
qed simp

text \<open>A valid string reads back as itself, whatever follows its closing quote.\<close>

lemma parse_string_escape:
  "valid_utf8 s \<Longrightarrow> length s < n \<Longrightarrow>
   parse_string n (escape s @ quote_char # rest) = Some (s, rest)"
proof (induction s arbitrary: n rule: escape.induct)
  case 1
  then show ?case by (cases n) auto
next
  case (2 c s)
  then obtain m where n: "n = Suc m" "length s < m" by (cases n) auto
  let ?k = "utf8_len (c # s)"
  show ?case
  proof (cases "byte c < 128")
    case True
    then have "?k = 1" by (simp add: Let_def)
    with "2.prems" have "valid_utf8 s" by simp
    with 2 True n have "parse_string m (escape s @ quote_char # rest) = Some (s, rest)" by simp
    then show ?thesis
      using True n parse_string_ascii [OF True] by (simp add: prepend_def)
  next
    case False
    have nz: "?k \<noteq> 0" and valid: "valid_utf8 (drop (?k - 1) s)" using "2.prems"(1) by simp_all
    have IH: "parse_string m (escape (drop (?k - 1) s) @ quote_char # rest) = Some (drop (?k - 1) s, rest)"
      using "2.IH"(3) [OF refl False nz valid, of m] n by simp
    have whole: "take ?k (c # s) @ drop (?k - 1) s = c # s"
      using nz by (cases ?k) (simp_all del: utf8_len.simps)
    let ?r = "take ?k (c # s)"
    have esc: "escape (c # s) =
      (if ?r = line_separator then backslash # ''u2028'' else if ?r = paragraph_separator
       then backslash # ''u2029'' else ?r) @ escape (drop (?k - 1) s)"
      using False nz by (simp add: Let_def del: utf8_len.simps)
    have sep: "parse_string (Suc m) (backslash # ''u2028'' @ t) = prepend line_separator (parse_string m t)"
      "parse_string (Suc m) (backslash # ''u2029'' @ t) = prepend paragraph_separator (parse_string m t)" for t
      by (simp_all add: unicode_separator)
    have "parse_string n (escape (c # s) @ quote_char # rest) =
      prepend ?r (parse_string m (escape (drop (?k - 1) s) @ quote_char # rest))"
      unfolding esc n(1)
      using parse_string_rune [OF refl, of c s m] False nz sep
      by (auto simp del: parse_string.simps utf8_len.simps)
    also have "\<dots> = Some (?r @ drop (?k - 1) s, rest)"
      unfolding IH by (simp only: prepend_def option.map prod.case)
    finally show ?thesis unfolding whole .
  qed
qed

lemma read_json_string:
  "valid_utf8 s \<Longrightarrow> read_string (json_string s @ rest) = Some (s, rest)"
  using parse_string_escape [of s "Suc (length (escape s @ quote_char # rest))" rest] escape_length [of s]
  by (simp add: read_string_def json_string_def)

subsection \<open>Values that end where they should\<close>

definition stops :: "bytes \<Rightarrow> bool" where
  "stops rest \<longleftrightarrow> (case rest of [] \<Rightarrow> True | c # _ \<Rightarrow> c \<in> {CHR '','', CHR ''}'', CHR '']''})"

text \<open>A written value: its first byte starts a value, and with its length as fuel it is skipped.\<close>

definition json_text :: "bytes \<Rightarrow> bool" where
  "json_text v \<longleftrightarrow>
     (\<exists>c t. v = c # t \<and> \<not> is_space c \<and> c \<noteq> CHR ''}'' \<and> c \<noteq> CHR '']'') \<and>
     (\<forall>n rest. length v \<le> n \<longrightarrow> stops rest \<longrightarrow> skip_value n (v @ rest) = Some rest)"

lemma json_text_skip:
  "json_text v \<Longrightarrow> length v \<le> n \<Longrightarrow> stops rest \<Longrightarrow> skip_value n (v @ rest) = Some rest"
  by (simp add: json_text_def)

lemma json_text_start:
  "json_text v \<Longrightarrow> skip_space (v @ rest) = v @ rest \<and> expect (CHR ''}'') (v @ rest) = None \<and>
     expect (CHR '']'') (v @ rest) = None"
  by (auto simp: json_text_def skip_space_def expect_def)

lemma stops_delims [simp]:
  "stops []" "stops (CHR '','' # s)" "stops (CHR ''}'' # s)" "stops (CHR '']'' # s)"
  by (simp_all add: stops_def)

lemma raw_text_append [simp]: "raw_text (v @ rest) rest = v"
  by (simp add: raw_text_def)

lemma skip_space_delims [simp]:
  "skip_space (CHR '','' # s) = CHR '','' # s" "skip_space (CHR ''}'' # s) = CHR ''}'' # s"
  "skip_space (CHR '']'' # s) = CHR '']'' # s" "skip_space (CHR '':'' # s) = CHR '':'' # s"
  "skip_space (quote_char # s) = quote_char # s" "skip_space [] = []"
  by (simp_all add: skip_space_def is_space_def byte_def)

lemma expect_delims [simp]:
  "expect c (c # s) = Some s" "c \<noteq> d \<Longrightarrow> expect c (d # s) = None"
  by (simp_all add: expect_def)

lemma json_text_string: "valid_utf8 s \<Longrightarrow> json_text (json_string s)"
proof -
  assume valid: "valid_utf8 s"
  have "skip_value n (json_string s @ rest) = Some rest" if "length (json_string s) \<le> n" for n rest
  proof -
    from that obtain m where "n = Suc m" by (cases n) (auto simp: json_string_def)
    then show ?thesis
      using read_json_string [OF valid, of rest] by (simp add: json_string_def)
  qed
  then show ?thesis by (simp add: json_text_def json_string_def is_space_def byte_def)
qed

lemma nat_decimal_Cons:
  "\<exists>d ds. nat_decimal n = digit_char d # ds \<and> d < 10 \<and> (d = 0 \<longleftrightarrow> n = 0) \<and>
     (\<forall>c \<in> set ds. is_num_digit c) \<and> (n = 0 \<longrightarrow> ds = [])"
proof (induction n rule: nat_decimal.induct)
  case (1 n)
  show ?case
  proof (cases "n < 10")
    case True
    then show ?thesis by (subst nat_decimal.simps) auto
  next
    case False
    then obtain d ds where d: "nat_decimal (n div 10) = digit_char d # ds" "d < 10"
      "d = 0 \<longleftrightarrow> n div 10 = 0" "\<forall>c \<in> set ds. is_num_digit c"
      using 1 by auto
    have "nat_decimal n = digit_char d # ds @ [digit_char (n mod 10)]"
      using False d(1) by (subst nat_decimal.simps) simp
    moreover have "is_num_digit (digit_char (n mod 10))"
      by (simp add: is_num_digit_def digit_value_char)
    moreover have "n div 10 \<noteq> 0" using False by simp
    ultimately show ?thesis using d False by auto
  qed
qed

lemma dropWhile_digits:
  "\<forall>c \<in> set ds. is_num_digit c \<Longrightarrow> stops rest \<Longrightarrow> dropWhile is_num_digit (ds @ rest) = rest"
  by (induction ds)
    (auto simp: stops_def is_num_digit_def digit_value_def split: list.splits)

lemma digit_char_zero: "d < 10 \<Longrightarrow> digit_char d = CHR ''0'' \<longleftrightarrow> d = 0"
proof -
  have "digit_char 0 = CHR ''0''" by code_simp
  then show "d < 10 \<Longrightarrow> digit_char d = CHR ''0'' \<longleftrightarrow> d = 0" using digit_char_eq_iff [of d 0] by simp
qed

lemma skip_digits1_decimal:
  assumes "nat_decimal n = digit_char d # ds" "d < 10" "\<forall>c \<in> set ds. is_num_digit c" "stops rest"
  shows "skip_digits1 (digit_char d # ds @ rest) = Some rest"
  using assms dropWhile_digits by (simp add: skip_digits1_def is_num_digit_def digit_value_char)

lemma digit_char_not:
  assumes "d < 10" "byte c < 48 \<or> 57 < byte c"
  shows "digit_char d \<noteq> c"
proof
  assume "digit_char d = c"
  then have "byte c = 48 + d" using assms(1) by (auto simp: byte_def digit_char_def)
  with assms show False by simp
qed

lemma int_decimal_abs:
  "int_decimal i = (if i < 0 then CHR ''-'' # nat_decimal (nat \<bar>i\<bar>) else nat_decimal (nat \<bar>i\<bar>))"
  by (simp add: int_decimal_def)

lemma skip_number_decimal:
  assumes "stops rest"
  shows "skip_number (int_decimal i @ rest) = Some rest"
proof -
  obtain d ds where d: "nat_decimal (nat \<bar>i\<bar>) = digit_char d # ds" "d < 10"
    "d = 0 \<longleftrightarrow> nat \<bar>i\<bar> = 0" "\<forall>c \<in> set ds. is_num_digit c" "nat \<bar>i\<bar> = 0 \<longrightarrow> ds = []"
    using nat_decimal_Cons [of "nat \<bar>i\<bar>"] by (elim exE conjE) (rule that)
  have ni: "digit_char d \<noteq> CHR ''-''" by (rule digit_char_not) (simp_all add: d byte_def)
  have tail: "(case rest of [] \<Rightarrow> Some rest | c # t \<Rightarrow>
      if c = CHR ''.'' then skip_digits1 t else Some rest) = Some rest"
    using assms by (auto simp: stops_def split: list.splits)
  have tail2: "(case rest of [] \<Rightarrow> Some rest | c # t \<Rightarrow> if c = CHR ''e'' \<or> c = CHR ''E'' then
      skip_digits1 (case t of [] \<Rightarrow> t | x # u \<Rightarrow> if x = CHR ''+'' \<or> x = CHR ''-'' then u else t)
      else Some rest) = Some rest"
    using assms by (auto simp: stops_def split: list.splits)
  have int: "(if digit_char d = CHR ''0'' then Some (ds @ rest)
      else skip_digits1 (digit_char d # ds @ rest)) = Some rest"
    using d digit_char_zero [OF d(2)] skip_digits1_decimal [OF d(1,2,4) assms] by auto
  have "int_decimal i @ rest = (if i < 0 then CHR ''-'' # digit_char d # ds @ rest
      else digit_char d # ds @ rest)"
    unfolding int_decimal_abs d(1) by simp
  then show ?thesis
    using ni
    by (cases "i < 0") (simp_all add: skip_number_def int tail tail2 Let_def split del: if_split)
qed

lemma json_text_int: "json_text (int_decimal i)"
proof -
  obtain c t where ct: "int_decimal i = c # t" "c = CHR ''-'' \<or> (\<exists>d < 10. c = digit_char d)"
  proof -
    obtain d ds where "nat_decimal (nat \<bar>i\<bar>) = digit_char d # ds" "d < 10"
      using nat_decimal_Cons [of "nat \<bar>i\<bar>"] by (elim exE conjE) (rule that)
    then show ?thesis using that by (cases "i < 0") (auto simp: int_decimal_abs)
  qed
  have other: "c \<noteq> x" if "byte x < 45 \<or> 57 < byte x" for x
    using ct(2) that by (auto simp: byte_def digit_char_def)
  have space: "\<not> is_space c"
    using ct(2) by (auto simp: is_space_def byte_def digit_char_def)
  have "skip_value n (int_decimal i @ rest) = Some rest"
    if "length (int_decimal i) \<le> n" "stops rest" for n rest
  proof -
    from that(1) ct(1) obtain m where "n = Suc m" by (cases n) auto
    then show ?thesis
      using skip_number_decimal [OF that(2), of i] ct(1) other [of quote_char] other [of "CHR ''{''"]
        other [of "CHR ''[''"] other [of "CHR ''t''"] other [of "CHR ''f''"] other [of "CHR ''n''"]
      by (simp add: byte_def)
  qed
  then show ?thesis
    using ct(1) space other [of "CHR ''}''"] other [of "CHR '']''"] by (simp add: json_text_def byte_def)
qed

lemma elements_written:
  "vs \<noteq> [] \<Longrightarrow> \<forall>v \<in> set vs. json_text v \<Longrightarrow> length (comma_separated vs) < n \<Longrightarrow>
   elements n (comma_separated vs @ CHR '']'' # rest) = Some (vs, rest)"
proof (induction vs arbitrary: n rule: comma_separated.induct)
  case (2 v)
  then obtain m where "n = Suc m" by (cases n) auto
  with 2 show ?case
    using json_text_skip [of v m "CHR '']'' # rest"] by (simp add: Let_def)
next
  case (3 v v' vs)
  then obtain m where n: "n = Suc m" by (cases n) auto
  have "json_text v'" using "3.prems"(2) by simp
  then have "json_text (comma_separated (v' # vs)) \<or> skip_space (comma_separated (v' # vs) @ x)
      = comma_separated (v' # vs) @ x" for x
    using json_text_start [of v'] by (cases vs) auto
  then have sp: "skip_space (comma_separated (v' # vs) @ x) = comma_separated (v' # vs) @ x" for x
    using json_text_start by blast
  have IH: "elements m (comma_separated (v' # vs) @ CHR '']'' # rest) = Some (v' # vs, rest)"
    using "3.IH" "3.prems" n by simp
  have "skip_value m (v @ CHR '','' # comma_separated (v' # vs) @ CHR '']'' # rest)
      = Some (CHR '','' # comma_separated (v' # vs) @ CHR '']'' # rest)"
    using "3.prems" n by (intro json_text_skip) simp_all
  then show ?case using IH sp by (simp add: n Let_def)
qed simp

definition member_text :: "bytes \<times> bytes \<Rightarrow> bytes" where
  "member_text kv = json_string (fst kv) @ CHR '':'' # snd kv"

definition member_ok :: "bytes \<times> bytes \<Rightarrow> bool" where
  "member_ok kv \<longleftrightarrow> valid_utf8 (fst kv) \<and> json_text (snd kv)"

lemma member_step:
  assumes "member_ok kv" "length (member_text kv) \<le> Suc m" "stops rest"
  shows "members (Suc m) (member_text kv @ rest) =
    (case expect (CHR '','') (skip_space rest) of
       Some s4 \<Rightarrow> map_option (\<lambda>(ms, r). (kv # ms, r)) (members m (skip_space s4))
     | None \<Rightarrow> map_option (\<lambda>r. ([kv], r)) (expect (CHR ''}'') (skip_space rest)))"
proof -
  obtain k v where kv: "kv = (k, v)" by (cases kv)
  have "read_string (json_string k @ CHR '':'' # v @ rest) = Some (k, CHR '':'' # v @ rest)"
    using assms(1) by (intro read_json_string) (simp add: member_ok_def kv)
  moreover have "skip_value m (v @ rest) = Some rest"
    using assms by (intro json_text_skip) (simp_all add: member_ok_def member_text_def kv json_string_def)
  moreover have "skip_space (v @ rest) = v @ rest"
    using assms(1) json_text_start by (simp add: member_ok_def kv)
  ultimately show ?thesis unfolding kv by (simp add: member_text_def Let_def)
qed

lemma members_written:
  "ms \<noteq> [] \<Longrightarrow> \<forall>kv \<in> set ms. member_ok kv \<Longrightarrow> length (comma_separated (map member_text ms)) < n \<Longrightarrow>
   members n (comma_separated (map member_text ms) @ CHR ''}'' # rest) = Some (ms, rest)"
proof (induction ms arbitrary: n)
  case (Cons kv ms)
  obtain m where n: "n = Suc m" using Cons.prems(3) by (cases n) auto
  show ?case
  proof (cases ms)
    case Nil
    with Cons.prems n show ?thesis by (simp add: member_step del: members.simps)
  next
    case (Cons kv' ms')
    have comma: "comma_separated (member_text kv # map member_text ms) =
        member_text kv @ CHR '','' # comma_separated (map member_text ms)"
      by (simp add: Cons)
    have sp: "skip_space (comma_separated (map member_text ms) @ x) = comma_separated (map member_text ms) @ x" for x
      by (cases ms') (simp_all add: Cons member_text_def json_string_def)
    have "members m (comma_separated (map member_text ms) @ CHR ''}'' # rest) = Some (ms, rest)"
      using Cons Cons.IH Cons.prems n by (simp add: comma)
    then show ?thesis
      using Cons.prems n by (simp add: comma member_step sp del: members.simps)
  qed
qed simp

lemma json_object_alt:
  "json_object fields = CHR ''{'' # comma_separated (map member_text fields) @ ''}''"
proof -
  have "(\<lambda>(k, v). json_string k @ CHR '':'' # v) = member_text"
    by (auto simp: member_text_def)
  then show ?thesis by (simp add: json_object_def)
qed

lemma members_start:
  assumes "ms \<noteq> []"
  shows "skip_space (comma_separated (map member_text ms) @ x) = comma_separated (map member_text ms) @ x"
    and "expect (CHR ''}'') (comma_separated (map member_text ms) @ x) = None"
proof -
  obtain kv ms' where "ms = kv # ms'" using assms by (cases ms) auto
  then have "\<exists>t. comma_separated (map member_text ms) = quote_char # t"
    by (cases ms') (simp_all add: member_text_def json_string_def)
  then show "skip_space (comma_separated (map member_text ms) @ x) = comma_separated (map member_text ms) @ x"
    and "expect (CHR ''}'') (comma_separated (map member_text ms) @ x) = None"
    by auto
qed

lemma elements_start:
  assumes "vs \<noteq> []" "\<forall>v \<in> set vs. json_text v"
  shows "skip_space (comma_separated vs @ x) = comma_separated vs @ x"
    and "expect (CHR '']'') (comma_separated vs @ x) = None"
proof -
  obtain v vs' where vs: "vs = v # vs'" using assms by (cases vs) auto
  have v: "json_text v" using assms(2) vs by simp
  obtain y where "comma_separated vs @ x = v @ y" by (cases vs') (auto simp: vs)
  then show "skip_space (comma_separated vs @ x) = comma_separated vs @ x"
    and "expect (CHR '']'') (comma_separated vs @ x) = None"
    using json_text_start [OF v, of y] by simp_all
qed

lemma json_text_object:
  assumes "\<forall>kv \<in> set ms. member_ok kv"
  shows "json_text (json_object ms)"
proof -
  have "skip_value n (json_object ms @ rest) = Some rest" if "length (json_object ms) \<le> n" for n rest
  proof -
    from that obtain m where n: "n = Suc m" by (cases n) (auto simp: json_object_def)
    show ?thesis
    proof (cases "ms = []")
      case True
      then show ?thesis by (simp add: json_object_alt n)
    next
      case False
      then have "members m (comma_separated (map member_text ms) @ CHR ''}'' # rest) = Some (ms, rest)"
        using assms that n by (intro members_written) (simp_all add: json_object_alt)
      then show ?thesis using members_start [OF False] by (simp add: json_object_alt n)
    qed
  qed
  then show ?thesis by (simp add: json_text_def json_object_alt is_space_def byte_def)
qed

lemma json_text_array:
  assumes "\<forall>v \<in> set vs. json_text v"
  shows "json_text (json_array vs)"
proof -
  have "skip_value n (json_array vs @ rest) = Some rest" if "length (json_array vs) \<le> n" for n rest
  proof -
    from that obtain m where n: "n = Suc m" by (cases n) (auto simp: json_array_def)
    show ?thesis
    proof (cases "vs = []")
      case True
      then show ?thesis by (simp add: json_array_def n)
    next
      case False
      then have "elements m (comma_separated vs @ CHR '']'' # rest) = Some (vs, rest)"
        using assms that n by (intro elements_written) (simp_all add: json_array_def)
      then show ?thesis using elements_start [OF False assms] by (simp add: json_array_def n)
    qed
  qed
  then show ?thesis by (simp add: json_text_def json_array_def is_space_def byte_def)
qed

lemma object_members_written:
  assumes "\<forall>kv \<in> set ms. member_ok kv"
  shows "object_members (json_object ms) = Some ms"
proof (cases "ms = []")
  case True
  then show ?thesis by (simp add: object_members_def json_object_alt)
next
  case False
  have "members (length (json_object ms)) (comma_separated (map member_text ms) @ CHR ''}'' # [])
      = Some (ms, [])"
    using False assms by (intro members_written) (simp_all add: json_object_alt)
  then show ?thesis
    using members_start [OF False] by (simp add: object_members_def json_object_alt)
qed

lemma array_elements_written:
  assumes "\<forall>v \<in> set vs. json_text v"
  shows "array_elements (json_array vs) = Some vs"
proof (cases "vs = []")
  case True
  then show ?thesis by (simp add: array_elements_def json_array_def)
next
  case False
  have "elements (length (json_array vs)) (comma_separated vs @ CHR '']'' # []) = Some (vs, [])"
    using False assms by (intro elements_written) (simp_all add: json_array_def)
  then show ?thesis
    using elements_start [OF False assms] by (simp add: array_elements_def json_array_def)
qed

lemma document_written:
  assumes "json_text v"
  shows "document v = Some v"
proof -
  have "skip_value (Suc (length v)) (v @ []) = Some []"
    using assms by (intro json_text_skip) simp_all
  moreover have "skip_space v = v" using json_text_start [OF assms, of "[]"] by simp
  ultimately show ?thesis using raw_text_append [of v "[]"] by (simp add: document_def)
qed

subsection \<open>Fields\<close>

lemma json_string_not_null [simp]: "json_string s \<noteq> ''null''"
  by (simp add: json_string_def)

lemma json_object_not_null [simp]: "json_object ms \<noteq> ''null''"
  by (simp add: json_object_def)

lemma json_array_not_null [simp]: "json_array vs \<noteq> ''null''"
  by (simp add: json_array_def)

lemma set_string_written: "valid_utf8 s \<Longrightarrow> set_string put (json_string s) r = Some (put s r)"
  using read_json_string [of s "[]"] by (simp add: set_string_def)

lemma parse_int64_decimal: "int64 i \<Longrightarrow> parse_int64 (int_decimal i) = Some i"
proof -
  assume i: "int64 i"
  obtain d ds where d: "nat_decimal (nat \<bar>i\<bar>) = digit_char d # ds" "d < 10"
    using nat_decimal_Cons [of "nat \<bar>i\<bar>"] by (elim exE conjE) (rule that)
  have "digit_char d \<noteq> CHR ''-''" "digit_char d \<noteq> CHR ''+''"
    by (rule digit_char_not; simp add: d byte_def)+
  moreover have "parse_digits 0 (digit_char d # ds) = Some (nat \<bar>i\<bar>)"
    using parse_nat_decimal [of "nat \<bar>i\<bar>"] by (simp only: d(1))
  ultimately show ?thesis
    using i unfolding parse_int64_def int_decimal_abs d(1)
    by (cases "i < 0") (simp_all add: Let_def del: parse_digits.simps)
qed

lemma int_decimal_not_null: "int_decimal i \<noteq> ''null''"
proof -
  obtain d ds where d: "nat_decimal (nat \<bar>i\<bar>) = digit_char d # ds" "d < 10"
    using nat_decimal_Cons [of "nat \<bar>i\<bar>"] by (elim exE conjE) (rule that)
  have "digit_char d \<noteq> CHR ''n''" by (rule digit_char_not) (simp_all add: d byte_def)
  then show ?thesis unfolding int_decimal_abs d(1) by simp
qed

lemma set_int_written: "int64 i \<Longrightarrow> set_int put (int_decimal i) r = Some (put i r)"
  using skip_number_decimal [of "[]" i]
  by (simp add: set_int_def parse_int64_decimal int_decimal_not_null)

lemma set_each_written:
  "(\<And>e. e \<in> set es \<Longrightarrow> f (text e) zero = Some e) \<Longrightarrow> set_each f zero (map text es) = Some es"
  by (induction es) auto

end
