(* ===== verification/SubjectErasure.thy ===== *)
theory SubjectErasure
  imports Submission JsonRoundtrip
begin

text \<open>
  Account erasure in the store
  (\<open>internal/infrastructure/persistence/database/dataexchange/subject_erasure.go\<close>): the preview of
  a subject's jobs, the preparation that fences the subject and freezes the plan, and the execution
  that deletes the content and redacts the jobs. \<open>PrepareSubjectErasure\<close> and \<open>ErasePreparedSubject\<close> ask for
  \<open>LevelSerializable\<close>, which with the row locks (\<open>FOR UPDATE\<close>) lets each of them be one step of the
  model; they are the only transactions of the store that do.
\<close>

record subject_job_plan =
  sj_id :: bytes
  sj_chunks :: int
  sj_artifacts :: int

record erasure_plan =
  ep_workspace :: bytes
  ep_subject :: bytes
  ep_request :: bytes
  ep_jobs :: "subject_job_plan list"

record erasure_request =
  er_workspace :: bytes
  er_subject :: bytes
  er_request :: bytes
  er_legal_holds :: bytes

definition zero_job_plan :: subject_job_plan where
  "zero_job_plan = \<lparr>sj_id = [], sj_chunks = 0, sj_artifacts = 0\<rparr>"

definition zero_plan :: erasure_plan where
  "zero_plan = \<lparr>ep_workspace = [], ep_subject = [], ep_request = [], ep_jobs = []\<rparr>"

definition marshal_job_plan :: "subject_job_plan \<Rightarrow> bytes" where
  "marshal_job_plan j =
     json_object [(''id'', json_string (sj_id j)), (''chunks'', int_decimal (sj_chunks j)),
                  (''artifacts'', int_decimal (sj_artifacts j))]"

definition marshal_plan :: "erasure_plan \<Rightarrow> bytes" where
  "marshal_plan p =
     json_object [(''workspace_id'', json_string (ep_workspace p)),
                  (''subject_id'', json_string (ep_subject p)),
                  (''request_id'', json_string (ep_request p)),
                  (''jobs'', json_array (map marshal_job_plan (ep_jobs p)))]"

definition job_plan_fields :: "(bytes \<times> subject_job_plan setter) list" where
  "job_plan_fields =
     [(''id'', set_string (\<lambda>s j. j\<lparr>sj_id := s\<rparr>)),
      (''chunks'', set_int (\<lambda>i j. j\<lparr>sj_chunks := i\<rparr>)),
      (''artifacts'', set_int (\<lambda>i j. j\<lparr>sj_artifacts := i\<rparr>))]"

definition plan_fields :: "(bytes \<times> erasure_plan setter) list" where
  "plan_fields =
     [(''workspace_id'', set_string (\<lambda>s p. p\<lparr>ep_workspace := s\<rparr>)),
      (''subject_id'', set_string (\<lambda>s p. p\<lparr>ep_subject := s\<rparr>)),
      (''request_id'', set_string (\<lambda>s p. p\<lparr>ep_request := s\<rparr>)),
      (''jobs'', set_slice (set_struct job_plan_fields) zero_job_plan (\<lambda>js p. p\<lparr>ep_jobs := js\<rparr>))]"

definition unmarshal_plan :: "bytes \<Rightarrow> erasure_plan option" where
  "unmarshal_plan = unmarshal (set_struct plan_fields) zero_plan"

subsection \<open>PreviewSubject\<close>

definition subject_rows :: "bytes \<Rightarrow> bytes \<Rightarrow> db \<Rightarrow> job_row list" where
  "subject_rows workspace subject d =
     sort_key jr_id (select_where jobs_table
       (\<lambda>r. jr_workspace r = workspace \<and> jr_actor r = subject) d)"

definition marshal_preview_item :: "job_row \<Rightarrow> bytes" where
  "marshal_preview_item r =
     json_object [(''id'', json_string (jr_id r)), (''operation'', json_string (jr_operation r)),
                  (''provider'', json_string (jr_provider r)), (''status'', json_string (jr_status r))]"

definition store_preview_subject :: "bytes \<Rightarrow> bytes \<Rightarrow> bytes op" where
  "store_preview_subject workspace subject =
     query (\<lambda>d. Inr (json_object
       [(''jobs'', json_array (map marshal_preview_item (subject_rows workspace subject d)))]))"

subsection \<open>PrepareSubjectErasure\<close>

definition erasure_receipt :: "erasure_request \<Rightarrow> (bytes \<times> bytes) op" where
  "erasure_receipt q =
     query (\<lambda>d.
       case first_row (select_where receipts_table
              (\<lambda>r. rc_workspace r = er_workspace q \<and> rc_request r = er_request q) d) of
         Inl e \<Rightarrow> Inl e
       | Inr r \<Rightarrow>
           if rc_subject r \<noteq> er_subject q
           then Inl (Err_msg ''Data Exchange erasure request subject mismatch'')
           else Inr (rc_plan r, rc_result r))"

definition erasure_pending_row :: "job_row \<Rightarrow> job_row" where
  "erasure_pending_row r =
     r\<lparr>jr_status := ''cancelled'', jr_error_code := ''subject_erasure_pending'',
       jr_next_attempt := [], jr_fencing_token := jr_fencing_token r + 1\<rparr>"

text \<open>One job of the plan: its inventory is counted and, when queued, it is cancelled.\<close>

definition prepare_job :: "erasure_request \<Rightarrow> bytes \<Rightarrow> subject_job_plan op" where
  "prepare_job q jid =
     and_then (query (\<lambda>d. Inr (int (length (select_where chunks_table
         (\<lambda>c. ck_workspace c = er_workspace q \<and> ck_job c = jid) d))))) (\<lambda>chunk_count.
     and_then (query (\<lambda>d. Inr (int (length (select_where artifacts_table
         (\<lambda>a. at_workspace a = er_workspace q \<and> at_job a = jid) d))))) (\<lambda>artifact_count.
     and_then (statement (update_where jobs_table
         (\<lambda>r. jr_workspace r = er_workspace q \<and> jr_id r = jid \<and> jr_actor r = er_subject q \<and>
              jr_status r = ''queued'')
         erasure_pending_row)) (\<lambda>_.
     ret \<lparr>sj_id = jid, sj_chunks = chunk_count, sj_artifacts = artifact_count\<rparr>)))"

fun prepare_jobs :: "erasure_request \<Rightarrow> bytes list \<Rightarrow> subject_job_plan list op" where
  "prepare_jobs q [] = ret []"
| "prepare_jobs q (jid # jids) =
     and_then (prepare_job q jid) (\<lambda>plan.
     and_then (prepare_jobs q jids) (\<lambda>plans. ret (plan # plans)))"

definition store_prepare_erasure :: "erasure_request \<Rightarrow> bytes op" where
  "store_prepare_erasure q =
     with_tx (\<lambda>_.
     and_then (lock_subject_scope (er_workspace q) (er_subject q)) (\<lambda>_.
     and_then (attempt (erasure_receipt q)) (\<lambda>found.
     case found of
       Inr (saved, _) \<Rightarrow> and_then commit_tx (\<lambda>_. ret saved)
     | Inl e \<Rightarrow>
       if e \<noteq> Err_no_rows then throw e
       else
         and_then (query (\<lambda>d. Inr (subject_rows (er_workspace q) (er_subject q) d))) (\<lambda>rows.
         if \<exists>r \<in> set rows. jr_status r = ''running''
         then throw (Err_msg ''Data Exchange erasure blocked by executing job'')
         else
           and_then (prepare_jobs q (map jr_id rows)) (\<lambda>plans.
           let raw = marshal_plan \<lparr>ep_workspace = er_workspace q, ep_subject = er_subject q,
                                   ep_request = er_request q, ep_jobs = plans\<rparr> in
           and_then (statement (update_where fences_table
               (\<lambda>f. fe_workspace f = er_workspace q \<and> fe_subject f = er_subject q \<and> fe_request f = [])
               (\<lambda>f. f\<lparr>fe_request := er_request q\<rparr>))) (\<lambda>_.
           and_then (statement (insert_into receipts_table
               \<lparr>rc_workspace = er_workspace q, rc_request = er_request q, rc_subject = er_subject q,
                rc_plan = raw, rc_result = []\<rparr>)) (\<lambda>_.
           and_then commit_tx (\<lambda>_. ret raw))))))))"

subsection \<open>ErasePreparedSubject\<close>

definition redacted_row :: "job_row \<Rightarrow> job_row" where
  "redacted_row r =
     r\<lparr>jr_status := ''cancelled'', jr_error_code := ''subject_erased'', jr_request_payload := [],
       jr_idempotency_key := ''erased:'' @ fingerprint [jr_id r], jr_request_sha := [],
       jr_source_sha := [], jr_source_bytes := 0, jr_source_chunks := 0, jr_result_chunks := 0,
       jr_checkpoint := 0, jr_cursor := [], jr_total := 0, jr_artifact_id := [], jr_reference := [],
       jr_role := [], jr_lease_owner := [], jr_lease_expires := [], jr_next_attempt := [],
       jr_fencing_token := jr_fencing_token r + 1\<rparr>"

definition erase_job :: "erasure_request \<Rightarrow> subject_job_plan \<Rightarrow> unit op" where
  "erase_job q j =
     and_then (statement (delete_where artifacts_table
         (\<lambda>a. at_workspace a = er_workspace q \<and> at_job a = sj_id j))) (\<lambda>_.
     and_then (statement (delete_where chunks_table
         (\<lambda>c. ck_workspace c = er_workspace q \<and> ck_job c = sj_id j))) (\<lambda>_.
     and_then (statement (update_where jobs_table
         (\<lambda>r. jr_workspace r = er_workspace q \<and> jr_id r = sj_id j \<and> jr_actor r = er_subject q \<and>
              jr_status r \<noteq> ''running'')
         redacted_row)) (\<lambda>affected.
     if affected \<noteq> 1
     then throw (Err_msg ''Data Exchange erasure job ownership or execution changed'')
     else ret ())))"

fun erase_jobs :: "erasure_request \<Rightarrow> subject_job_plan list \<Rightarrow> unit op" where
  "erase_jobs q [] = ret ()"
| "erase_jobs q (j # js) = and_then (erase_job q j) (\<lambda>_. erase_jobs q js)"

definition outcome_text :: "erasure_request \<Rightarrow> subject_job_plan list \<Rightarrow> bytes" where
  "outcome_text q js =
     json_object [(''artifacts_deleted'', int_decimal (sum_list (map sj_artifacts js))),
                  (''chunks_deleted'', int_decimal (sum_list (map sj_chunks js))),
                  (''jobs_redacted'', int_decimal (int (length js))),
                  (''request_id'', json_string (er_request q))]"

definition store_erase_prepared :: "erasure_request \<Rightarrow> bytes \<Rightarrow> bytes op" where
  "store_erase_prepared q raw =
     (case unmarshal_plan raw of
        None \<Rightarrow> throw (Err_msg ''Data Exchange erasure plan scope mismatch'')
      | Some plan \<Rightarrow>
        if ep_workspace plan \<noteq> er_workspace q \<or> ep_subject plan \<noteq> er_subject q \<or>
           ep_request plan \<noteq> er_request q
        then throw (Err_msg ''Data Exchange erasure plan scope mismatch'')
        else with_tx (\<lambda>_.
          and_then (lock_subject_scope (er_workspace q) (er_subject q)) (\<lambda>fence.
          if fence = [] then throw (Err_msg ''Data Exchange erasure fence missing'')
          else
          and_then (erasure_receipt q) (\<lambda>(saved, result).
          if trim_space raw \<noteq> saved
          then throw (Err_msg ''Data Exchange erasure plan differs from durable plan'')
          else if result \<noteq> [] then and_then commit_tx (\<lambda>_. ret result)
          else
            and_then (erase_jobs q (ep_jobs plan)) (\<lambda>_.
            let outcome = outcome_text q (ep_jobs plan) in
            and_then (statement (update_where receipts_table
                (\<lambda>r. rc_workspace r = er_workspace q \<and> rc_request r = er_request q \<and>
                     rc_subject r = er_subject q)
                (\<lambda>r. r\<lparr>rc_result := outcome\<rparr>))) (\<lambda>_.
            and_then commit_tx (\<lambda>_. ret outcome)))))))"

subsection \<open>The plan is read back as it was written\<close>

definition plan_valid :: "erasure_plan \<Rightarrow> bool" where
  "plan_valid p \<longleftrightarrow>
     valid_utf8 (ep_workspace p) \<and> valid_utf8 (ep_subject p) \<and> valid_utf8 (ep_request p) \<and>
     (\<forall>j \<in> set (ep_jobs p). valid_utf8 (sj_id j) \<and> int64 (sj_chunks j) \<and> int64 (sj_artifacts j))"

lemma ascii_valid [simp]: "(\<forall>c \<in> set s. byte c < 128) \<Longrightarrow> valid_utf8 s"
proof (induction s)
  case (Cons c s)
  then have "utf8_len (c # s) = 1" by (simp add: Let_def)
  with Cons show ?case by (simp del: utf8_len.simps)
qed simp

lemma job_plan_text: "valid_utf8 (sj_id j) \<Longrightarrow> json_text (marshal_job_plan j)"
  unfolding marshal_job_plan_def
  by (rule json_text_object)
    (auto simp: member_ok_def json_text_string json_text_int byte_def simp del: valid_utf8.simps)

lemma read_job_plan:
  assumes "valid_utf8 (sj_id j)" "int64 (sj_chunks j)" "int64 (sj_artifacts j)"
  shows "set_struct job_plan_fields (marshal_job_plan j) zero_job_plan = Some j"
proof -
  have "object_members (marshal_job_plan j) =
    Some [(''id'', json_string (sj_id j)), (''chunks'', int_decimal (sj_chunks j)),
          (''artifacts'', int_decimal (sj_artifacts j))]"
    unfolding marshal_job_plan_def using assms
    by (intro object_members_written)
      (auto simp: member_ok_def json_text_string json_text_int byte_def simp del: valid_utf8.simps)
  then show ?thesis
    using assms
    by (simp add: set_struct_def marshal_job_plan_def job_plan_fields_def field_setter_def
        set_string_written set_int_written zero_job_plan_def)
qed

lemma read_plan:
  assumes "plan_valid p"
  shows "unmarshal_plan (marshal_plan p) = Some p"
proof -
  have texts: "\<forall>v \<in> set (map marshal_job_plan (ep_jobs p)). json_text v"
    using assms by (auto simp: plan_valid_def job_plan_text)
  have ok: "\<forall>kv \<in> set [(''workspace_id'', json_string (ep_workspace p)),
      (''subject_id'', json_string (ep_subject p)), (''request_id'', json_string (ep_request p)),
      (''jobs'', json_array (map marshal_job_plan (ep_jobs p)))]. member_ok kv"
    using assms json_text_array [OF texts]
    by (auto simp: plan_valid_def member_ok_def json_text_string byte_def simp del: valid_utf8.simps)
  have doc: "document (marshal_plan p) = Some (marshal_plan p)"
    unfolding marshal_plan_def by (rule document_written [OF json_text_object [OF ok]])
  have each: "set_each (set_struct job_plan_fields) zero_job_plan (map marshal_job_plan (ep_jobs p))
      = Some (ep_jobs p)"
    using assms by (intro set_each_written) (simp add: plan_valid_def read_job_plan)
  show ?thesis
    using assms
    by (simp add: unmarshal_plan_def unmarshal_def doc)
      (simp add: marshal_plan_def set_struct_def object_members_written [OF ok] plan_fields_def
        field_setter_def set_string_written plan_valid_def set_slice_def
        array_elements_written [OF texts] each zero_plan_def)
qed

end
