(* ===== verification/Invariant.thy ===== *)
theory Invariant
  imports Tables JobAccess WorkerStore SubjectErasure
begin

text \<open>
  The well-formedness of the database and the proof that every operation of the store keeps it, on
  every path and whatever statement the driver fails: primary keys are unique, a job has one of the
  five statuses, a running job carries a lease and a positive fencing token, a job that is not
  running and was not cancelled carries none, and the digest column of every chunk is the SHA-256
  of its content.
\<close>

definition job_row_ok :: "job_row \<Rightarrow> bool" where
  "job_row_ok r \<longleftrightarrow>
     jr_status r \<in> status_values \<and> jr_operation r \<in> {''import'', ''export''} \<and>
     0 \<le> jr_fencing_token r \<and>
     (jr_status r = ''running'' \<longrightarrow>
        jr_lease_expires r \<noteq> [] \<and> 0 < jr_fencing_token r \<and> jr_next_attempt r = []) \<and>
     (jr_status r \<in> {''queued'', ''completed'', ''failed''} \<longrightarrow>
        jr_lease_owner r = [] \<and> jr_lease_expires r = [])"

definition chunk_row_ok :: "chunk_row \<Rightarrow> bool" where
  "chunk_row_ok c \<longleftrightarrow>
     ck_direction c \<in> {''source'', ''result''} \<and> ck_sha c = hex_encode (sha256 (ck_content c))"

definition good_db :: "db \<Rightarrow> bool" where
  "good_db d \<longleftrightarrow>
     keyed jobs_table d \<and> keyed chunks_table d \<and> keyed artifacts_table d \<and>
     keyed scopes_table d \<and> keyed fences_table d \<and> keyed receipts_table d \<and>
     all_rows jobs_table job_row_ok d \<and> all_rows chunks_table chunk_row_ok d"

lemma good_empty: "good_db empty_db"
  by (simp add: good_db_def keyed_def all_rows_def empty_db_def)

text \<open>A statement changes one table; every table of the schema keeps the invariant on its own terms.\<close>

interpretation good_jobs: kept_table jobs_table good_db job_row_ok
  by unfold_locales (auto simp: good_db_def keyed_def all_rows_def row_simps)

interpretation good_chunks: kept_table chunks_table good_db chunk_row_ok
  by unfold_locales (auto simp: good_db_def keyed_def all_rows_def row_simps)

interpretation good_artifacts: kept_table artifacts_table good_db "\<lambda>_. True"
  by unfold_locales (auto simp: good_db_def keyed_def all_rows_def row_simps)

interpretation good_scopes: kept_table scopes_table good_db "\<lambda>_. True"
  by unfold_locales (auto simp: good_db_def keyed_def all_rows_def row_simps)

interpretation good_fences: kept_table fences_table good_db "\<lambda>_. True"
  by unfold_locales (auto simp: good_db_def keyed_def all_rows_def row_simps)

interpretation good_receipts: kept_table receipts_table good_db "\<lambda>_. True"
  by unfold_locales (auto simp: good_db_def keyed_def all_rows_def row_simps)

lemmas statements_kept =
  good_jobs.insert_kept good_jobs.update_kept good_chunks.insert_kept good_chunks.rekey_kept
  good_chunks.delete_kept good_artifacts.insert_kept good_artifacts.delete_kept
  good_scopes.upsert_kept good_fences.upsert_kept good_fences.update_kept
  good_receipts.insert_kept good_receipts.update_kept

subsection \<open>Submitting\<close>

lemma keeps_lock [keeps_rules]: "keeps good_db (lock_subject_scope workspace subject)"
  unfolding lock_subject_scope_def
  by (intro keeps_rules statements_kept) (simp_all add: row_simps)

lemma keeps_check [keeps_rules]: "keeps good_db (check_subject_submission scope)"
  unfolding check_subject_submission_def by (intro keeps_rules)

lemma keeps_register [keeps_rules]: "keeps good_db (register_scope workspace)"
  unfolding register_scope_def by (intro keeps_rules statements_kept) (simp_all add: row_simps)

lemma keeps_lookup [keeps_rules]: "keeps I (lookup_idempotent scope provider operation key k)"
  unfolding lookup_idempotent_def by (intro keeps_rules)

lemma keeps_request_hash [keeps_rules]: "keeps I (request_hash jid)"
  unfolding request_hash_def by (rule keeps_rules)

lemma keeps_import_lookup [keeps_rules]: "keeps I (import_lookup r)"
  unfolding import_lookup_def by (rule keeps_rules)

lemma keeps_store_source [keeps_rules]:
  "keeps good_db (store_source limit workspace staging size_read n h reads)"
proof (induction limit workspace staging size_read n h reads rule: store_source.induct)
  case (2 limit workspace staging size_read n h part status reads)
  then show ?case
    unfolding store_source.simps
    by (intro keeps_rules statements_kept) (auto simp: chunk_row_ok_def)
qed (simp add: keeps_rules)

lemma import_row_ok: "job_row_ok (import_job_row r hash payload source_hash size_read n now)"
  by (simp add: job_row_ok_def import_job_row_def default_job_row_def status_values_def)

lemma export_row_ok: "job_row_ok (export_job_row r now)"
  by (simp add: job_row_ok_def export_job_row_def default_job_row_def status_values_def)

lemma keeps_insert_import [keeps_rules]:
  "good_db snapshot \<Longrightarrow>
   keeps good_db (insert_import snapshot r staging hash payload source_hash size_read n)"
  unfolding insert_import_def
  by (intro keeps_rules statements_kept import_row_ok) (auto simp: chunk_row_ok_def)

lemma keeps_submit_import: "keeps good_db (submit_import r)"
  unfolding submit_import_def by (intro keeps_rules)

lemma keeps_submit_export: "keeps good_db (submit_export r)"
  unfolding submit_export_def by (intro keeps_rules statements_kept export_row_ok)

subsection \<open>Reading and cancelling\<close>

lemma keeps_found [keeps_rules]: "keeps I (found_or_not_found found)"
  unfolding found_or_not_found_def by (intro keeps_rules)

lemma store_job_reads: "reads_only (store_job r access)"
  unfolding store_job_def by (intro reads_onlyI keeps_rules)

lemma store_jobs_reads: "reads_only (store_jobs r access)"
  unfolding store_jobs_def by (intro reads_onlyI keeps_rules)

lemma cancel_row_ok: "job_row_ok r \<Longrightarrow> job_row_ok (cancel_row now r)"
  by (simp add: job_row_ok_def cancel_row_def status_values_def)

lemma keeps_cancel: "keeps good_db (store_cancel r access)"
  unfolding store_cancel_def
  by (intro keeps_rules statements_kept) (auto simp: cancel_row_ok, (simp add: cancel_row_def row_simps)+)

subsection \<open>Claiming\<close>

lemma claim_row_ok: "job_row_ok r \<Longrightarrow> job_row_ok (claim_row owner now ttl r)"
  by (simp add: job_row_ok_def claim_row_def status_values_def)

lemma keeps_claim_update [keeps_rules]:
  "keeps good_db (statement (claim_update workspace owner ttl request now jid))"
  unfolding claim_update_def
  by (intro statements_kept) (auto simp: claim_row_ok, simp add: claim_row_def row_simps)

lemma keeps_claim_workspace [keeps_rules]:
  "keeps good_db (claim_workspace workspace owner ttl request)"
  unfolding claim_workspace_def by (intro keeps_rules)

lemma keeps_claim_loop [keeps_rules]: "keeps good_db (claim_loop owner ttl workspaces)"
  by (induction owner ttl workspaces rule: claim_loop.induct)
    (simp_all only: claim_loop.simps, (intro keeps_rules; assumption)+)

lemma fetch_scopes_reads [keeps_rules]: "keeps I (fetch_scopes rows)"
  by (induction rows rule: fetch_scopes.induct)
    (simp_all only: fetch_scopes.simps, (intro keeps_rules; assumption)+)

lemma keeps_claim: "keeps good_db (claim owner ttl)"
  unfolding claim_def by (intro keeps_rules)

lemma keeps_claim_job: "keeps good_db (claim_job validate_request r owner ttl)"
  unfolding claim_job_def by (intro keeps_rules)

subsection \<open>Working\<close>

lemma keeps_fenced_update:
  assumes "\<And>r. fenced_job x r \<Longrightarrow> job_row_ok r \<Longrightarrow> job_row_ok (f r)" "\<And>r. jr_id (f r) = jr_id r"
  shows "keeps good_db (fenced_update x f e)"
  unfolding fenced_update_def
  by (intro keeps_rules statements_kept) (simp_all add: assms row_simps)

lemma keeps_commit_page: "keeps good_db (commit_result_page x seq content next_cursor checkpoint count)"
  unfolding commit_result_page_def
  by (intro keeps_rules statements_kept keeps_fenced_update)
    (simp_all add: result_chunk_def chunk_row_ok_def commit_row_def job_row_ok_def)

lemma keeps_progress: "keeps good_db (progress x checkpoint count)"
  unfolding progress_def
  by (intro keeps_rules keeps_fenced_update) (simp_all add: progress_row_def job_row_ok_def)

lemma keeps_complete: "keeps good_db (complete x artifact)"
  unfolding complete_def
  by (intro keeps_rules statements_kept keeps_fenced_update)
    (simp_all add: complete_row_def job_row_ok_def status_values_def)

lemma keeps_fail: "fp_status plan \<in> {''queued'', ''failed''} \<Longrightarrow> keeps good_db (fail x plan)"
  unfolding fail_def
  by (intro keeps_rules keeps_fenced_update) (auto simp: fail_row_def job_row_ok_def status_values_def)

lemma keeps_heartbeat: "keeps good_db (heartbeat x ttl)"
  unfolding heartbeat_def
  by (intro keeps_rules keeps_fenced_update)
    (auto simp: heartbeat_row_def job_row_ok_def fenced_job_def status_values_def)

lemma stream_rows_reads [keeps_rules]: "keeps I (stream_rows rows)"
  by (induction rows rule: stream_rows.induct)
    (simp_all only: stream_rows.simps, (intro keeps_rules; (assumption)?)+)

lemma chunks_reads: "reads_only (chunks workspace job direction)"
  unfolding chunks_def by (intro reads_onlyI keeps_rules)

lemma result_identity_reads: "reads_only (result_identity workspace job)"
  unfolding result_identity_def chunks_def by (intro reads_onlyI keeps_rules)

subsection \<open>Erasing\<close>

lemma keeps_receipt [keeps_rules]: "keeps I (erasure_receipt q)"
  unfolding erasure_receipt_def by (rule keeps_rules)

lemma preview_reads: "reads_only (store_preview_subject workspace subject)"
  unfolding store_preview_subject_def by (intro reads_onlyI keeps_rules)

lemma erasure_pending_ok: "job_row_ok r \<Longrightarrow> job_row_ok (erasure_pending_row r)"
  by (simp add: job_row_ok_def erasure_pending_row_def status_values_def)

lemma redacted_ok: "job_row_ok r \<Longrightarrow> job_row_ok (redacted_row r)"
  by (simp add: job_row_ok_def redacted_row_def status_values_def)

lemma keeps_prepare_job [keeps_rules]: "keeps good_db (prepare_job q jid)"
  unfolding prepare_job_def
  by (intro keeps_rules statements_kept)
    (auto simp: erasure_pending_ok, simp add: erasure_pending_row_def row_simps)

lemma keeps_prepare_jobs [keeps_rules]: "keeps good_db (prepare_jobs q jids)"
  by (induction q jids rule: prepare_jobs.induct)
    (simp_all only: prepare_jobs.simps, (intro keeps_rules; assumption)+)

lemma keeps_prepare: "keeps good_db (store_prepare_erasure q)"
  unfolding store_prepare_erasure_def
  by (intro keeps_rules statements_kept) (simp_all add: row_simps)

lemma keeps_erase_job [keeps_rules]: "keeps good_db (erase_job q j)"
  unfolding erase_job_def
  by (intro keeps_rules statements_kept) (auto simp: redacted_ok, simp add: redacted_row_def row_simps)

lemma keeps_erase_jobs [keeps_rules]: "keeps good_db (erase_jobs q js)"
  by (induction q js rule: erase_jobs.induct)
    (simp_all only: erase_jobs.simps, (intro keeps_rules; assumption)+)

lemma keeps_erase: "keeps good_db (store_erase_prepared q raw)"
  unfolding store_erase_prepared_def
  by (intro keeps_rules statements_kept) (simp_all add: row_simps)

end
