(* ===== verification/Validation.thy ===== *)
theory Validation
  imports Model
begin

text \<open>
  \<open>internal/domain/dataexchange/service/request_validation.go\<close>: the completeness checks of import
  and export requests, and the retry transition. \<open>Scope.Validate\<close> belongs to the SDK and is the
  parameter \<open>validate_scope\<close> (\<open>None\<close> is a nil error).
\<close>

definition max_processing_attempts :: int where
  "max_processing_attempts = 3"

definition retry_initial_delay :: duration where
  "retry_initial_delay = second"

definition validate_import_request :: "(scope \<Rightarrow> err option) \<Rightarrow> import_request \<Rightarrow> err option" where
  "validate_import_request validate_scope r =
     (case validate_scope (im_scope r) of
        Some e \<Rightarrow> Some e
      | None \<Rightarrow>
          if im_source r = None \<or> trim_space (im_provider r) = [] \<or>
             trim_space (im_object_key r) = [] \<or> trim_space (im_idempotency_key r) = []
          then Some (Err_msg ''Data Exchange import request is incomplete'') else None)"

definition validate_export_request :: "(scope \<Rightarrow> err option) \<Rightarrow> export_request \<Rightarrow> err option" where
  "validate_export_request validate_scope r =
     (case validate_scope (ex_scope r) of
        Some e \<Rightarrow> Some e
      | None \<Rightarrow>
          if trim_space (ex_provider r) = [] \<or> trim_space (ex_object_key r) = [] \<or>
             trim_space (ex_idempotency_key r) = []
          then Some (Err_msg ''Data Exchange export request is incomplete'') else None)"

definition plan_processing_failure :: "int \<Rightarrow> bytes \<Rightarrow> instant \<Rightarrow> failure_plan" where
  "plan_processing_failure previous code now =
     (let previous = (if previous < 0 then 0 else previous);
          attempts = wrap64 (previous + 1);
          code = (if trim_space code = [] then ''processing_failed'' else trim_space code)
      in if attempts < max_processing_attempts
         then \<lparr>fp_status = ''queued'', fp_code = code, fp_attempts = attempts,
               fp_next = now + wrap64 (retry_initial_delay * shift_one previous)\<rparr>
         else \<lparr>fp_status = ''failed'', fp_code = code, fp_attempts = attempts,
               fp_next = zero_time\<rparr>)"

lemma wrap64_small: "0 \<le> x \<Longrightarrow> x < 2 ^ 63 \<Longrightarrow> wrap64 x = x"
  by (rule wrap64_id) (simp add: int64_def)

text \<open>
  C16: for every attempt count a 64-bit integer holds below its maximum, the plan retries exactly
  while fewer than three attempts have been made, after one second and then two, and gives the job
  up otherwise with no next attempt; the attempt count grows by one and the code is never empty.
\<close>

theorem plan_processing_failure_spec:
  assumes "previous < 2 ^ 63 - 1"
  shows "plan_processing_failure previous code now =
     \<lparr>fp_status = (if previous < 2 then ''queued'' else ''failed''),
      fp_code = (if trim_space code = [] then ''processing_failed'' else trim_space code),
      fp_attempts = max 0 previous + 1,
      fp_next = (if previous \<le> 0 then now + second
                 else if previous = 1 then now + 2 * second else zero_time)\<rparr>"
proof -
  have att: "wrap64 ((if previous < 0 then 0 else previous) + 1) = max 0 previous + 1"
    using assms by (subst wrap64_small) auto
  have s0: "shift_one 0 = 1" and s1: "shift_one 1 = 2"
    by (simp_all add: shift_one_def wrap64_small)
  have d1: "wrap64 second = second" and d2: "wrap64 (second * 2) = 2 * second"
    by (simp_all add: wrap64_small second_def)
  show ?thesis
  proof (cases "previous < 2")
    case True
    then consider "previous \<le> 0" | "previous = 1" by linarith
    then show ?thesis
      using att by cases
        (auto simp: plan_processing_failure_def Let_def s0 s1 d1 d2 max_processing_attempts_def
          retry_initial_delay_def)
  next
    case False
    then show ?thesis using att
      by (simp add: plan_processing_failure_def Let_def max_processing_attempts_def)
  qed
qed

theorem plan_processing_failure_spec_witness:
  "fp_status (plan_processing_failure 1 ''processing_failed'' 0) = ''queued'' \<and>
   fp_next (plan_processing_failure 1 ''processing_failed'' 0) = 2 * second \<and>
   fp_status (plan_processing_failure 2 '' '' 0) = ''failed''"
  using plan_processing_failure_spec [of 1 "''processing_failed''" 0]
    plan_processing_failure_spec [of 2 "'' ''" 0]
  by simp

lemma plan_attempts: "0 \<le> a \<Longrightarrow> a < 3 \<Longrightarrow> fp_attempts (plan_processing_failure a code now) = a + 1"
  and plan_queued_iff:
    "0 \<le> a \<Longrightarrow> a < 3 \<Longrightarrow> fp_status (plan_processing_failure a code now) = (if a < 2 then ''queued'' else ''failed'')"
  by (auto simp: plan_processing_failure_def Let_def wrap64_small max_processing_attempts_def)

lemma plan_next:
  assumes "0 \<le> a" "a < 2"
  shows "fp_next (plan_processing_failure a code now) \<in> {now + second, now + 2 * second}"
proof -
  have "a = 0 \<or> a = 1" using assms by linarith
  then show ?thesis
    by (auto simp: plan_processing_failure_def Let_def wrap64_small max_processing_attempts_def
        retry_initial_delay_def shift_one_def second_def)
qed

end
