(* ===== verification/StoreCalls.thy ===== *)
theory StoreCalls
  imports Invariant Validation
begin

text \<open>
  The store as a whole: its operations as one type of calls, and what holds of any sequence of them
  by any clients. A worker reports a failure with the plan the domain service makes of it
  (\<open>PlanProcessingFailure\<close>), as \<open>processClaimed\<close> of
  \<open>internal/application/dataexchange/service.go\<close> does.
\<close>

datatype store_call =
    Submit_import import_request
  | Submit_export export_request
  | Get_job job_request job_access
  | List_jobs job_list_request job_access
  | Cancel_job job_request job_access
  | Claim_any bytes duration
  | Claim_one job_request bytes duration
  | Read_chunks bytes bytes bytes
  | Read_identity bytes bytes
  | Commit_page work_item int bytes bytes int int
  | Report_progress work_item int int
  | Complete_job work_item "artifact_record option"
  | Fail_job work_item bytes instant
  | Renew_lease work_item duration
  | Preview_subject bytes bytes
  | Prepare_erasure erasure_request
  | Erase_prepared erasure_request bytes

definition outcome :: "'a op \<Rightarrow> world \<Rightarrow> err option \<times> world" where
  "outcome m w = (case m w of (Inl e, w') \<Rightarrow> (Some e, w') | (Inr _, w') \<Rightarrow> (None, w'))"

fun run_call :: "(job_request \<Rightarrow> err option) \<Rightarrow> store_call \<Rightarrow> world \<Rightarrow> err option \<times> world" where
  "run_call check (Submit_import r) = outcome (submit_import r)"
| "run_call check (Submit_export r) = outcome (submit_export r)"
| "run_call check (Get_job r access) = outcome (store_job r access)"
| "run_call check (List_jobs r access) = outcome (store_jobs r access)"
| "run_call check (Cancel_job r access) = outcome (store_cancel r access)"
| "run_call check (Claim_any owner ttl) = outcome (claim owner ttl)"
| "run_call check (Claim_one r owner ttl) = outcome (claim_job check r owner ttl)"
| "run_call check (Read_chunks workspace job direction) = outcome (chunks workspace job direction)"
| "run_call check (Read_identity workspace job) = outcome (result_identity workspace job)"
| "run_call check (Commit_page x seq content cursor checkpoint count) =
     outcome (commit_result_page x seq content cursor checkpoint count)"
| "run_call check (Report_progress x checkpoint count) = outcome (progress x checkpoint count)"
| "run_call check (Complete_job x artifact) = outcome (complete x artifact)"
| "run_call check (Fail_job x code now) =
     outcome (fail x (plan_processing_failure (w_attempts x) code now))"
| "run_call check (Renew_lease x ttl) = outcome (heartbeat x ttl)"
| "run_call check (Preview_subject workspace subject) =
     outcome (store_preview_subject workspace subject)"
| "run_call check (Prepare_erasure q) = outcome (store_prepare_erasure q)"
| "run_call check (Erase_prepared q raw) = outcome (store_erase_prepared q raw)"

fun run_calls :: "(job_request \<Rightarrow> err option) \<Rightarrow> store_call list \<Rightarrow> world \<Rightarrow> world" where
  "run_calls check [] w = w"
| "run_calls check (c # cs) w = run_calls check cs (snd (run_call check c w))"

subsection \<open>The invariant is kept by every call\<close>

lemma plan_status: "fp_status (plan_processing_failure attempts code now) \<in> {''queued'', ''failed''}"
  by (simp add: plan_processing_failure_def Let_def)

lemma outcome_keeps: "keeps I m \<Longrightarrow> I (w_db w) \<Longrightarrow> I (w_db (snd (outcome m w)))"
  by (auto simp: outcome_def dest: keepsD split: prod.splits sum.splits)

lemma outcome_reads: "reads_only m \<Longrightarrow> w_db (snd (outcome m w)) = w_db w"
  by (auto simp: outcome_def dest: reads_onlyD split: prod.splits sum.splits)

lemmas calls_read_only = store_job_reads store_jobs_reads chunks_reads result_identity_reads
  preview_reads

lemma call_keeps_good: "good_db (w_db w) \<Longrightarrow> good_db (w_db (snd (run_call check c w)))"
  by (cases c)
    (simp_all add: outcome_keeps outcome_reads calls_read_only keeps_submit_import keeps_submit_export
      keeps_cancel keeps_claim keeps_claim_job keeps_commit_page keeps_progress keeps_complete
      keeps_fail [OF plan_status] keeps_heartbeat keeps_prepare keeps_erase)

lemma calls_keep_good: "good_db (w_db w) \<Longrightarrow> good_db (w_db (run_calls check cs w))"
  by (induction check cs w rule: run_calls.induct) (simp_all add: call_keeps_good)

subsection \<open>A call that fails changes nothing\<close>

lemma good_jobs_keyed: "good_db d \<Longrightarrow> distinct (map jr_id (db_jobs d))"
  by (simp add: good_db_def keyed_def row_simps)

lemma fenced_count:
  assumes "good_db d"
  shows "length (filter (fenced_job x) (db_jobs d)) =
    (if \<exists>r \<in> set (db_jobs d). fenced_job x r then 1 else 0)"
proof (cases "\<exists>r \<in> set (db_jobs d). fenced_job x r")
  case True
  then obtain r where r: "r \<in> set (db_jobs d)" "fenced_job x r" by blast
  have "filter (fenced_job x) (db_jobs d) = [r]"
  proof (rule unique_row)
    show "distinct (map jr_id (db_jobs d))" by (rule good_jobs_keyed [OF assms])
  qed (use r in \<open>auto simp: fenced_job_def\<close>)
  then show ?thesis using True by simp
qed (simp add: filter_empty_conv)

lemma fenced_update_wp:
  assumes "good_db (w_db w)"
  shows "wp (fenced_update x f e) Q R w =
    (if w_fault w (w_statements w) then R (Err_sql ''driver'') (after_statement w)
     else if \<exists>r \<in> set (db_jobs (w_db w)). fenced_job x r
     then Q () (w\<lparr>w_statements := Suc (w_statements w),
                  w_db := (w_db w)\<lparr>db_jobs := update_rows (fenced_job x) f (db_jobs (w_db w))\<rparr>\<rparr>)
     else R e (after_statement w))"
proof -
  let ?d = "w_db w"
  have put: "t_put jobs_table rs ?d = ?d\<lparr>db_jobs := rs\<rparr>" for rs by (simp add: row_simps)
  show ?thesis
  proof (cases "\<exists>r \<in> set (db_jobs ?d). fenced_job x r")
    case True
    then show ?thesis
      unfolding fenced_update_def
      by (simp add: op_simps update_where_def fenced_count [OF assms] put)
  next
    case False
    then have "update_rows (fenced_job x) f (db_jobs ?d) = db_jobs ?d"
      by (intro update_rows_none) blast
    with False show ?thesis
      unfolding fenced_update_def
      by (simp add: op_simps update_where_def fenced_count [OF assms] put)
  qed
qed

lemma outcome_error:
  assumes "outcome m w = (Some e, w')" "wp m (\<lambda>_ _. True) (\<lambda>_ w'. w_db w' = w_db w) w"
  shows "w_db w' = w_db w"
  using assms by (auto simp: outcome_def wp_def split: prod.splits sum.splits)

lemma all_or_nothing_wp: "all_or_nothing m \<Longrightarrow> wp m (\<lambda>_ _. True) (\<lambda>_ w'. w_db w' = w_db w) w"
  by (rule wpI) (auto dest: all_or_nothingD)

lemma reads_only_wp: "reads_only m \<Longrightarrow> wp m (\<lambda>_ _. True) (\<lambda>_ w'. w_db w' = w_db w) w"
  by (rule wpI) (auto dest: reads_onlyD)

lemma time_now_reads: "reads_only time_now"
  by (intro reads_onlyI keeps_rules)

lemma transactions_all_or_nothing:
  "all_or_nothing (submit_import r)" "all_or_nothing (submit_export s)"
  "all_or_nothing (store_cancel q access)"
  "all_or_nothing (commit_result_page x seq content cursor checkpoint count)"
  "all_or_nothing (complete x artifact)"
  "all_or_nothing (store_prepare_erasure request)"
  "all_or_nothing (store_erase_prepared request raw)"
  unfolding submit_import_def submit_export_def store_cancel_def commit_result_page_def complete_def
    store_prepare_erasure_def store_erase_prepared_def Let_def
  by (auto intro!: all_or_nothing_after time_now_reads with_tx_all_or_nothing split: option.splits)
    (auto simp: all_or_nothing_def throw_def)

lemma fenced_all_or_nothing:
  assumes "good_db (w_db w)"
  shows "wp (and_then time_now (\<lambda>now. fenced_update x (f now) e)) (\<lambda>_ _. True)
    (\<lambda>_ w'. w_db w' = w_db w) w"
  using assms by (simp add: op_simps fenced_update_wp)

end
