(* ===== verification/ClaimCorrect.thy ===== *)
theory ClaimCorrect
  imports StoreCalls
begin

text \<open>
  What a claim takes: the oldest claimable job of a workspace, under a token no one held before, and
  nothing else changes; no claimable job is overlooked. The times of a claim are compared as texts:
  how far a lease or a back-off can be off in time (\<open>TimeOrder\<close> says exactly when it is).
\<close>

subsection \<open>One row is claimed\<close>

lemma first_sorted:
  assumes "first_row (sort_key key rs) = Inr r"
  shows "r \<in> set rs" "\<And>x. x \<in> set rs \<Longrightarrow> key r \<le> key x"
proof -
  obtain rest where rest: "sort_key key rs = r # rest"
    using assms by (auto simp: first_row_def split: list.splits)
  then have "r \<in> set (sort_key key rs)" by simp
  then show "r \<in> set rs" by simp
  have "sorted (map key (r # rest))" by (metis rest sorted_sort_key)
  moreover fix x assume "x \<in> set rs"
  then have "x \<in> set (r # rest)" by (metis rest set_sort)
  ultimately show "key r \<le> key x" by auto
qed

lemma sort_key_Nil: "sort_key key xs = [] \<longleftrightarrow> xs = []"
  by (metis length_0_conv length_sort)

lemma first_row_none [simp]: "first_row rs = Inl e \<longleftrightarrow> rs = [] \<and> e = Err_no_rows"
  by (auto simp: first_row_def split: list.splits)

lemma claim_selectD:
  assumes "claim_select workspace now request d = Inr r"
  shows "r \<in> set (db_jobs d)" "claim_candidate workspace now request r"
    "\<And>x. x \<in> set (db_jobs d) \<Longrightarrow> claim_candidate workspace now request x \<Longrightarrow>
      jr_created_at r \<le> jr_created_at x"
  using first_sorted [OF assms [unfolded claim_select_def]] by (auto simp: select_where_def)

lemma claim_select_none:
  "claim_select workspace now request d = Inl e \<longleftrightarrow>
     e = Err_no_rows \<and> (\<forall>r \<in> set (db_jobs d). \<not> claim_candidate workspace now request r)"
  by (auto simp: claim_select_def select_where_def filter_empty_conv sort_key_Nil)

lemma claim_update_one:
  assumes "good_db d" "r \<in> set (db_jobs d)" "claim_candidate workspace (format_nano now) request r"
  shows "claim_update workspace owner ttl request now (jr_id r) d =
    Inr (1, d\<lparr>db_jobs := update_rows (\<lambda>x. jr_id x = jr_id r) (claim_row owner now ttl) (db_jobs d)\<rparr>)"
proof -
  let ?p = "\<lambda>x. jr_id x = jr_id r \<and> claim_candidate workspace (format_nano now) request x"
  have only: "x = r" if "x \<in> set (db_jobs d)" "jr_id x = jr_id r" for x
    using good_jobs_keyed [OF assms(1)] assms(2) that by (auto simp: distinct_map inj_on_def)
  then have "update_rows ?p f (db_jobs d) = update_rows (\<lambda>x. jr_id x = jr_id r) f (db_jobs d)" for f
    using assms(3) by (auto simp: update_rows_def)
  moreover have "update_where jobs_table ?p f d =
      Inr (1, t_put jobs_table (update_rows ?p f (t_get jobs_table d)) d)" for f
  proof (rule jobs.update_one)
    show "keyed jobs_table d" using assms(1) by (simp add: good_db_def)
    show "r \<in> set (t_get jobs_table d)" using assms(2) by simp
  qed (use assms(3) in \<open>auto simp: row_simps\<close>)
  ultimately show ?thesis by (simp add: claim_update_def row_simps)
qed


text \<open>
  What a successful claim is: the oldest candidate \<open>r\<close> of the workspace, handed out with the next
  token, and in the database only the row of \<open>r\<close> changed.
\<close>

definition takes ::
  "bytes \<Rightarrow> bytes \<Rightarrow> duration \<Rightarrow> job_request option \<Rightarrow> instant \<Rightarrow> db \<Rightarrow> work_item \<Rightarrow> db \<Rightarrow> bool" where
  "takes workspace owner ttl request now d item d' \<longleftrightarrow>
     (\<exists>r \<in> set (db_jobs d).
        claim_candidate workspace (format_nano now) request r \<and>
        (\<forall>x \<in> set (db_jobs d). claim_candidate workspace (format_nano now) request x \<longrightarrow>
           jr_created_at r \<le> jr_created_at x) \<and>
        item = claimed_item owner r \<and>
        d' = d\<lparr>db_jobs := update_rows (\<lambda>x. jr_id x = jr_id r) (claim_row owner now ttl) (db_jobs d)\<rparr>)"

definition same_environment :: "world \<Rightarrow> world \<Rightarrow> bool" where
  "same_environment w w' \<longleftrightarrow> w_fault w' = w_fault w \<and> w_clock w' = w_clock w"

lemma claim_workspace_wp:
  assumes "good_db (w_db w)"
  shows "wp (claim_workspace workspace owner ttl request)
    (\<lambda>found w'. same_environment w w' \<and>
       (case found of
          None \<Rightarrow> w_db w' = w_db w \<and>
            (\<forall>r \<in> set (db_jobs (w_db w)).
               \<not> claim_candidate workspace (format_nano (w_clock w (w_readings w))) request r)
        | Some item \<Rightarrow>
            takes workspace owner ttl request (w_clock w (w_readings w)) (w_db w) item (w_db w')))
    (\<lambda>e w'. w_db w' = w_db w \<and> (\<exists>n. w_fault w n)) w"
proof (cases "claim_select workspace (format_nano (w_clock w (w_readings w))) request (w_db w)")
  case (Inl e)
  then have none: "e = Err_no_rows" "\<forall>r \<in> set (db_jobs (w_db w)).
      \<not> claim_candidate workspace (format_nano (w_clock w (w_readings w))) request r"
    by (simp_all add: claim_select_none)
  show ?thesis
    by (auto simp: claim_workspace_def op_simps Inl same_environment_def none)
next
  case (Inr r)
  note r = claim_selectD [OF this]
  show ?thesis
    using claim_update_one [OF assms r(1,2)] r
    by (auto simp: claim_workspace_def op_simps Inr same_environment_def takes_def)
qed

lemma claim_loop_wp:
  assumes "good_db (w_db w)"
  shows "wp (claim_loop owner ttl workspaces)
    (\<lambda>found w'.
       case found of
         None \<Rightarrow> w_db w' = w_db w \<and>
           (\<forall>workspace \<in> set workspaces. \<exists>n. \<forall>r \<in> set (db_jobs (w_db w)).
              \<not> claim_candidate workspace (format_nano (w_clock w n)) None r)
       | Some item \<Rightarrow> \<exists>workspace n. workspace \<in> set workspaces \<and>
           takes workspace owner ttl None (w_clock w n) (w_db w) item (w_db w'))
    (\<lambda>e w'. w_db w' = w_db w \<and> (\<exists>n. w_fault w n)) w"
  using assms
proof (induction workspaces arbitrary: w)
  case (Cons workspace workspaces)
  show ?case
    unfolding claim_loop.simps wp_and_then
  proof (rule wp_mono [OF claim_workspace_wp [OF Cons.prems]], goal_cases)
    case (1 found w')
    show ?case
    proof (cases found)
      case None
      with 1 have w': "w_db w' = w_db w" "w_fault w' = w_fault w" "w_clock w' = w_clock w"
        by (auto simp: same_environment_def)
      then have "good_db (w_db w')" using Cons.prems by simp
      from Cons.IH [OF this] show ?thesis
        unfolding None option.case
        by (rule wp_mono) (use 1 None w' in \<open>auto split: option.splits\<close>)
    next
      case (Some item)
      then show ?thesis using 1 by (auto simp: op_simps)
    qed
  qed blast
qed (simp add: op_simps)

lemma fetch_scopes_wp:
  "wp (fetch_scopes rows)
    (\<lambda>workspaces w'. same_environment w w' \<and> w_db w' = w_db w \<and> set workspaces \<subseteq> set rows \<and>
       (workspaces = rows \<or> (\<exists>n. w_fault w n)))
    (\<lambda>_ _. False) w"
proof (induction rows arbitrary: w)
  case (Cons scope rows)
  show ?case
    by (simp add: op_simps same_environment_def, intro impI conjI)
      (auto intro!: wp_mono [OF Cons.IH] simp: op_simps same_environment_def)
qed (simp add: op_simps same_environment_def)

lemma claim_wp:
  assumes "good_db (w_db w)"
  shows "wp (claim owner ttl)
    (\<lambda>found w'.
       case found of
         None \<Rightarrow> w_db w' = w_db w \<and>
           ((\<exists>n. w_fault w n) \<or>
            (\<forall>q \<in> set (db_scopes (w_db w)). \<exists>n. \<forall>r \<in> set (db_jobs (w_db w)).
              \<not> claim_candidate (qs_key q) (format_nano (w_clock w n)) None r))
       | Some item \<Rightarrow> \<exists>q n. q \<in> set (db_scopes (w_db w)) \<and>
           takes (qs_key q) owner ttl None (w_clock w n) (w_db w) item (w_db w'))
    (\<lambda>e w'. w_db w' = w_db w \<and> (\<exists>n. w_fault w n)) w" (is "wp _ ?Q ?R w")
proof -
  let ?rows = "queue_workspaces (w_db w)"
  have loop: "wp (claim_loop owner ttl workspaces) ?Q ?R v"
    if "same_environment w v" "w_db v = w_db w" "set workspaces \<subseteq> set ?rows"
      "workspaces = ?rows \<or> (\<exists>n. w_fault w n)" for workspaces v
  proof -
    have "good_db (w_db v)" using assms that(2) by simp
    from claim_loop_wp [OF this] show ?thesis
    proof (rule wp_mono, goal_cases)
      case (1 found w')
      show ?case
      proof (cases found)
        case None
        with 1 that show ?thesis by (auto simp: queue_workspaces_def same_environment_def)
      next
        case (Some item)
        then obtain workspace n where "workspace \<in> set workspaces"
          "takes workspace owner ttl None (w_clock v n) (w_db v) item (w_db w')" using 1 by auto
        moreover from this(1) that(3) obtain q where
          "q \<in> set (db_scopes (w_db w))" "workspace = qs_key q" by (auto simp: queue_workspaces_def)
        ultimately show ?thesis using Some that(1,2) by (auto simp: same_environment_def)
      qed
    qed (use that in \<open>auto simp: same_environment_def\<close>)
  qed
  have "wp (and_then (fetch_scopes ?rows)
      (\<lambda>workspaces. and_then (query (\<lambda>_. Inr ())) (\<lambda>_. claim_loop owner ttl workspaces))) ?Q ?R (after_statement w)"
    unfolding wp_and_then
    by (rule wp_mono [OF fetch_scopes_wp])
      (auto simp: op_simps same_environment_def intro!: loop)
  then show ?thesis by (auto simp: claim_def op_simps)
qed


subsection \<open>Texts and instants\<close>

lemma second_later: "t + second \<le> u \<Longrightarrow> unix_seconds t < unix_seconds u"
proof -
  assume "t + second \<le> u"
  then have "(t + second) div second \<le> u div second"
    by (intro zdiv_mono1) (simp_all add: second_def)
  moreover have "(t + second) div second = t div second + 1" by (simp add: second_def)
  ultimately show ?thesis by (simp add: unix_seconds_def)
qed

definition due_at :: "instant \<Rightarrow> job_row \<Rightarrow> bool" where
  "due_at t r \<longleftrightarrow>
     jr_status r = ''queued'' \<and> jr_next_attempt r = format_nano t \<or>
     jr_status r = ''running'' \<and> jr_lease_expires r = format_nano t"

lemma claimable_bounds:
  assumes "due_at t r" "four_digit t" "four_digit now"
  shows "(t + second \<le> now \<longrightarrow> claimable (format_nano now) r) \<and>
    (claimable (format_nano now) r \<longrightarrow> t < now + second)"
proof -
  have "claimable (format_nano now) r \<longleftrightarrow> format_nano t < format_nano now"
    using assms(1) unfolding due_at_def by (elim disjE conjE) (simp_all add: claimable_def)
  then show ?thesis
    using format_nano_less [OF second_later assms(2,3)] format_nano_lessD [OF _ assms(2,3)]
      seconds_le_imp by blast
qed

text \<open>
  C14: A job that waits for an instant \<open>t\<close> (the end of its back-off, or of the lease of its worker)
  is claimable from one second after \<open>t\<close> on, and never a whole second before \<open>t\<close>. Within the
  second of \<open>t\<close> the order of the texts decides, which is not the order of the instants.
\<close>

theorem claimable_within_a_second:
  assumes "due_at t r" "four_digit t" "four_digit now"
  shows "(t + second \<le> now \<longrightarrow> claimable (format_nano now) r) \<and>
    (claimable (format_nano now) r \<longrightarrow> t < now + second)"
  by (rule claimable_bounds [OF assms])

definition backed_off_job :: "instant \<Rightarrow> job_row" where
  "backed_off_job t =
     default_job_row\<lparr>jr_id := ''j'', jr_workspace := ''w'', jr_operation := ''export'',
       jr_status := ''queued'', jr_next_attempt := format_nano t\<rparr>"

definition leased_job :: "instant \<Rightarrow> job_row" where
  "leased_job t =
     default_job_row\<lparr>jr_id := ''j'', jr_workspace := ''w'', jr_operation := ''export'',
       jr_status := ''running'', jr_lease_owner := ''o'', jr_fencing_token := 1,
       jr_lease_expires := format_nano t\<rparr>"

lemma four_digit_epoch: "four_digit 2000000000" "four_digit 5000000000"
  by code_simp+

theorem claimable_within_a_second_witness:
  "claimable (format_nano 5000000000) (leased_job 2000000000) \<and>
   \<not> claimable (format_nano 2000000000) (backed_off_job 5000000000)"
proof -
  have "due_at 2000000000 (leased_job 2000000000)" "due_at 5000000000 (backed_off_job 5000000000)"
    by (simp_all add: due_at_def leased_job_def backed_off_job_def default_job_row_def)
  from claimable_within_a_second [OF this(1) four_digit_epoch(1,2)]
    claimable_within_a_second [OF this(2) four_digit_epoch(2,1)]
  show ?thesis by (simp add: second_def)
qed

end
