(* ===== verification/TimeOrder.thy ===== *)
theory TimeOrder
  imports ClaimCorrect
begin

text \<open>
  The order of the texts the store compares against the order of the instants they stand for: where
  two fractions of a second first differ, what dropping their trailing zeros does to that digit, and
  from it exactly which leases and back-offs end too early or too late for a claim.
\<close>

subsection \<open>Digits\<close>

lemma pad_decimal_split:
  "pad_decimal (v + k) n = pad_decimal v (n div 10 ^ k) @ pad_decimal k n"
proof (induction k arbitrary: n)
  case (Suc k)
  have "n div 10 div 10 ^ k = n div 10 ^ Suc k" by (simp add: div_mult2_eq)
  with Suc.IH [of "n div 10"] show ?case by simp
qed simp

lemma zero_digit: "digit_char 0 = CHR ''0''"
  by code_simp

lemma pad_decimal_all_zeros: "(\<forall>c \<in> set (pad_decimal k n). c = CHR ''0'') \<longleftrightarrow> 10 ^ k dvd n"
proof (induction k arbitrary: n)
  case (Suc k)
  have zero: "digit_char (n mod 10) = CHR ''0'' \<longleftrightarrow> n mod 10 = 0"
    using digit_char_eq_iff [of "n mod 10" 0] zero_digit by simp
  have "10 ^ Suc k dvd n \<longleftrightarrow> n mod 10 = 0 \<and> 10 ^ k dvd n div 10"
  proof (cases "n mod 10 = 0")
    case True
    then obtain m where "n = 10 * m" by blast
    then show ?thesis by simp
  next
    case False
    then have "\<not> 10 dvd n" by presburger
    then show ?thesis using False dvd_mult_left [of 10 "10 ^ k" n] by auto
  qed
  with Suc.IH [of "n div 10"] zero show ?case by auto
qed simp

lemma drop_trailing_zeros_zeros: "\<forall>c \<in> set t. c = CHR ''0'' \<Longrightarrow> drop_trailing_zeros (s @ t) = drop_trailing_zeros s"
  unfolding drop_trailing_zeros_def rev_append by (subst dropWhile_append2) auto

lemma drop_trailing_zeros_keep:
  assumes "\<exists>x \<in> set (c # t). x \<noteq> CHR ''0''"
  shows "drop_trailing_zeros (s @ c # t) = s @ c # drop_trailing_zeros t"
proof (cases "\<exists>x \<in> set t. x \<noteq> CHR ''0''")
  case True
  then obtain x where "x \<in> set (rev t)" "x \<noteq> CHR ''0''" by auto
  then show ?thesis by (simp add: drop_trailing_zeros_def dropWhile_append1)
next
  case False
  with assms have c: "c \<noteq> CHR ''0''" by auto
  from False have "dropWhile (\<lambda>c. c = CHR ''0'') (rev t @ r) = dropWhile (\<lambda>c. c = CHR ''0'') r" for r
    by (intro dropWhile_append2) auto
  from this [of "c # rev s"] this [of "[]"] c show ?thesis
    by (simp add: drop_trailing_zeros_def)
qed

lemma first_difference:
  fixes f g :: nat
  assumes "f < g" "g < 10 ^ w"
  obtains k where "k < w" "f div 10 ^ Suc k = g div 10 ^ Suc k"
    "f div 10 ^ k mod 10 < g div 10 ^ k mod 10"
proof -
  let ?P = "\<lambda>k. f div 10 ^ k = g div 10 ^ k"
  have "?P w" using assms by simp
  define k where "k = (LEAST k. ?P k)"
  have k: "?P k" "k \<le> w"
    unfolding k_def by (rule LeastI [of ?P, OF \<open>?P w\<close>], rule Least_le [of ?P, OF \<open>?P w\<close>])
  have "k \<noteq> 0" using k(1) assms(1) by (cases k) auto
  then obtain j where j: "k = Suc j" by (cases k) auto
  have ne: "\<not> ?P j" using not_less_Least [of j ?P] by (simp add: k_def [symmetric] j)
  have less: "f div 10 ^ j < g div 10 ^ j"
    using ne div_le_mono [of f g "10 ^ j"] assms(1) by simp
  have "n div 10 ^ Suc j = n div 10 ^ j div 10" for n :: nat
    by (metis div_mult2_eq mult.commute power_Suc)
  with k(1) j have "f div 10 ^ j div 10 = g div 10 ^ j div 10" by simp
  with less have "f div 10 ^ j mod 10 < g div 10 ^ j mod 10"
    by (metis div_mult_mod_eq nat_add_left_cancel_less)
  with k j that [of j] show thesis by simp
qed

lemma same_prefix_zeros:
  fixes f g :: nat
  assumes "f < g" "f div 10 ^ Suc k = g div 10 ^ Suc k" "f div 10 ^ k \<noteq> g div 10 ^ k" "k < w"
  shows "10 ^ Suc k dvd f \<longleftrightarrow> (\<exists>i \<le> w. 10 ^ i dvd f \<and> g < f + 10 ^ i)"
proof
  assume dvd: "10 ^ Suc k dvd f"
  then obtain m where "f = m * 10 ^ Suc k" by (metis dvd_def mult.commute)
  then have "g < f + 10 ^ Suc k"
    using assms(2) dividend_less_div_times [of "10 ^ Suc k" g] by simp
  then show "\<exists>i \<le> w. 10 ^ i dvd f \<and> g < f + 10 ^ i" using dvd assms(4) by (intro exI [of _ "Suc k"]) simp
next
  assume "\<exists>i \<le> w. 10 ^ i dvd f \<and> g < f + 10 ^ i"
  then obtain i m where i: "f = 10 ^ i * m" "g < f + 10 ^ i" by (auto elim!: dvdE)
  have "g div 10 ^ i = m"
    using i assms(1) by (intro div_nat_eqI) (simp_all add: algebra_simps)
  then have same: "f div 10 ^ i = g div 10 ^ i" using i(1) by simp
  have "\<not> i \<le> k"
  proof
    assume "i \<le> k"
    then have "n div 10 ^ k = n div 10 ^ i div 10 ^ (k - i)" for n :: nat
      by (metis div_mult2_eq le_add_diff_inverse power_add)
    with same assms(3) show False by simp
  qed
  then have "(10::nat) ^ Suc k dvd 10 ^ i" by (intro le_imp_power_dvd) simp
  then show "10 ^ Suc k dvd f" using i(1) by (metis dvd_mult2)
qed

text \<open>The text of a fraction and its zone: at which digit two of them differ decides their order.\<close>

definition fraction_text :: "nat \<Rightarrow> nat \<Rightarrow> bytes" where
  "fraction_text w n = drop_trailing_zeros (pad_decimal w n) @ ''Z''"

lemma fraction_text_order:
  assumes "f < g" "g < 10 ^ w"
  shows "(fraction_text w g < fraction_text w f \<longleftrightarrow> (\<exists>i \<le> w. 10 ^ i dvd f \<and> g < f + 10 ^ i)) \<and>
    fraction_text w f \<noteq> fraction_text w g"
proof -
  from first_difference [OF assms] obtain k where k: "k < w"
    "f div 10 ^ Suc k = g div 10 ^ Suc k" "f div 10 ^ k mod 10 < g div 10 ^ k mod 10" .
  define u where "u = pad_decimal (w - Suc k) (f div 10 ^ Suc k)"
  define c where "c = digit_char (f div 10 ^ k mod 10)"
  define d where "d = digit_char (g div 10 ^ k mod 10)"
  have cd: "c < d" using k(3) by (simp add: c_def d_def digit_char_less_iff)
  have d: "CHR ''0'' < d" "d < CHR ''Z''"
  proof -
    show "CHR ''0'' < d"
      using k(3) by (simp add: d_def digit_char_less_iff flip: zero_digit)
    have "g div 10 ^ k mod 10 < 10" by simp
    then show "d < CHR ''Z''" unfolding d_def digit_char_def less_char_def by simp
  qed
  have lead: "pad_decimal (Suc k) n = digit_char (n div 10 ^ k mod 10) # pad_decimal k n" for n
    using pad_decimal_split [of 1 k n] by simp
  have w: "w = (w - Suc k) + Suc k" using k(1) by simp
  have split: "pad_decimal w n = pad_decimal (w - Suc k) (n div 10 ^ Suc k) @ pad_decimal (Suc k) n" for n
    by (metis pad_decimal_split w)
  have f: "pad_decimal w f = u @ c # pad_decimal k f" unfolding split u_def c_def lead ..
  have g: "pad_decimal w g = u @ d # pad_decimal k g" unfolding split u_def d_def lead k(2) ..
  have g_text: "fraction_text w g = u @ d # drop_trailing_zeros (pad_decimal k g) @ ''Z''"
    using d unfolding fraction_text_def g by (subst drop_trailing_zeros_keep) auto
  have zeros: "10 ^ Suc k dvd f \<longleftrightarrow> (\<exists>i \<le> w. 10 ^ i dvd f \<and> g < f + 10 ^ i)"
    by (rule same_prefix_zeros [OF assms(1) k(2) _ k(1)]) (use k(3) in auto)
  show ?thesis
  proof (cases "10 ^ Suc k dvd f")
    case True
    then have "\<forall>x \<in> set (c # pad_decimal k f). x = CHR ''0''"
      using pad_decimal_all_zeros [of "Suc k" f] unfolding lead c_def by simp
    then have f_text: "fraction_text w f = drop_trailing_zeros u @ ''Z''"
      unfolding fraction_text_def f by (simp add: drop_trailing_zeros_zeros)
    obtain j where j: "u = drop_trailing_zeros u @ replicate j (CHR ''0'')"
      using drop_trailing_zeros_split by blast
    have "fraction_text w g < fraction_text w f"
    proof (cases j)
      case 0
      with j have "u = drop_trailing_zeros u" by simp
      with d(2) show ?thesis unfolding f_text g_text by (simp add: append_less_same_length)
    next
      case (Suc n)
      have "fraction_text w g = drop_trailing_zeros u @ CHR ''0'' #
          (replicate n (CHR ''0'') @ d # drop_trailing_zeros (pad_decimal k g) @ ''Z'')"
        unfolding g_text by (subst j) (simp add: Suc)
      moreover have "CHR ''0'' < CHR ''Z''" by (simp add: less_char_def)
      ultimately show ?thesis unfolding f_text by (simp add: append_less_same_length)
    qed
    with True zeros show ?thesis by auto
  next
    case False
    then have "\<exists>x \<in> set (c # pad_decimal k f). x \<noteq> CHR ''0''"
      using pad_decimal_all_zeros [of "Suc k" f] unfolding lead c_def by simp
    then have "fraction_text w f = u @ c # drop_trailing_zeros (pad_decimal k f) @ ''Z''"
      unfolding fraction_text_def f by (subst drop_trailing_zeros_keep) auto
    with cd have "fraction_text w f < fraction_text w g"
      unfolding g_text by (simp add: append_less_same_length)
    with False zeros show ?thesis by (metis order_less_asym order_less_irrefl)
  qed
qed

subsection \<open>Instants\<close>

text \<open>
  The earlier instant \<open>t\<close> prints no digit from the first one on in which the later \<open>u\<close> differs: \<open>t\<close> is
  on a grid of 1, 10, ..., 1000000000 nanoseconds, and \<open>u\<close> lies before the next point of it.
\<close>

definition prints_later :: "instant \<Rightarrow> instant \<Rightarrow> bool" where
  "prints_later t u \<longleftrightarrow> list_ex (\<lambda>k. 10 ^ k dvd t \<and> u < t + 10 ^ k) [0..<10]"

lemma prints_later_same_second:
  assumes "t < u" "unix_seconds t = unix_seconds u"
  shows "prints_later t u \<longleftrightarrow>
    (\<exists>i \<le> 9. 10 ^ i dvd nanos_of t \<and> nanos_of u < nanos_of t + 10 ^ i)"
proof -
  let ?q = "second * unix_seconds t"
  have "x = second * unix_seconds x + int (nanos_of x)" for x
    by (simp add: unix_seconds_def nanos_of_def second_def)
  from this [of t] this [of u] assms(2)
  have t: "t = ?q + int (nanos_of t)" and u: "u = ?q + int (nanos_of u)" by simp_all
  have "10 ^ i dvd t \<and> u < t + 10 ^ i \<longleftrightarrow> 10 ^ i dvd nanos_of t \<and> nanos_of u < nanos_of t + 10 ^ i"
    if "i \<le> 9" for i
  proof -
    have "(10::int) ^ i dvd 10 ^ 9" using that by (rule le_imp_power_dvd)
    then have "(10::int) ^ i dvd ?q" by (simp add: second_def)
    then have "10 ^ i dvd t \<longleftrightarrow> (10::int) ^ i dvd int (nanos_of t)"
      by (subst t) (simp add: dvd_add_right_iff)
    also have "\<dots> \<longleftrightarrow> 10 ^ i dvd nanos_of t"
      by (metis of_nat_dvd_iff of_nat_numeral of_nat_power)
    finally have dvd: "10 ^ i dvd t \<longleftrightarrow> 10 ^ i dvd nanos_of t" .
    have "u < t + 10 ^ i \<longleftrightarrow> int (nanos_of u) < int (nanos_of t + 10 ^ i)"
      by (subst t, subst u) simp
    with dvd show ?thesis by (simp only: of_nat_less_iff)
  qed
  moreover have "prints_later t u \<longleftrightarrow> (\<exists>i \<le> 9. 10 ^ i dvd t \<and> u < t + 10 ^ i)"
  proof -
    have "set [0..<10] = {i. i \<le> 9}" by auto
    then show ?thesis by (simp add: prints_later_def list_ex_iff)
  qed
  ultimately show ?thesis by blast
qed

lemma format_nano_order:
  assumes "t < u" "four_digit t" "four_digit u"
  shows "(format_nano u < format_nano t \<longleftrightarrow> prints_later t u) \<and> format_nano t \<noteq> format_nano u"
proof (cases "unix_seconds t = unix_seconds u")
  case False
  with assms(1) have less: "unix_seconds t < unix_seconds u"
    by (simp add: unix_seconds_def second_def zdiv_mono1 order_less_le)
  have "\<not> prints_later t u"
  proof
    assume "prints_later t u"
    then obtain k where k: "k < 10" "10 ^ k dvd t" "u < t + 10 ^ k"
      by (auto simp: prints_later_def list_ex_iff)
    define p :: int where "p = 10 ^ k"
    have "(10::int) ^ k dvd 10 ^ 9" using k(1) by (intro le_imp_power_dvd) simp
    then obtain m where m: "second = p * m" by (auto simp: second_def p_def elim: dvdE)
    obtain n where n: "t = p * n" using k(2) by (auto simp: p_def elim: dvdE)
    have p: "0 < p" by (simp add: p_def)
    then have "u div p = n"
      using k(3) assms(1) unfolding n p_def [symmetric]
      by (intro int_div_pos_eq [of _ _ _ "u - p * n"]) simp_all
    then have "t div p = u div p" using p by (simp add: n)
    then have "t div p div m = u div p div m" by simp
    moreover have "x div p div m = x div second" for x
    proof -
      have "0 \<le> m" using m p by (simp add: second_def) (metis mult_le_0_iff not_le order_less_le zero_less_numeral)
      then show ?thesis unfolding m by (simp add: zdiv_zmult2_eq)
    qed
    ultimately show False using False by (simp add: unix_seconds_def)
  qed
  moreover have "format_nano t < format_nano u" by (rule format_nano_less [OF less assms(2,3)])
  ultimately show ?thesis by (metis order_less_asym order_less_irrefl)
next
  case True
  have parts: "format_nano x = format_seconds (unix_seconds x) @
      (if nanos_of x = 0 then ''Z'' else CHR ''.'' # fraction_text 9 (nanos_of x))" for x
    by (simp add: format_nano_def format_fraction_def fraction_text_def)
  have nanos: "nanos_of t < nanos_of u" "nanos_of u < 10 ^ 9"
  proof -
    have "x = second * unix_seconds x + x mod second" for x by (simp add: unix_seconds_def)
    from this [of t] this [of u, folded True] assms(1) have "t mod second < u mod second" by linarith
    moreover have "0 \<le> t mod second" "u mod second < second" by (simp_all add: second_def)
    ultimately show "nanos_of t < nanos_of u" "nanos_of u < 10 ^ 9"
      by (simp_all add: nanos_of_def second_def nat_less_iff)
  qed
  show ?thesis
  proof (cases "nanos_of t = 0")
    case zero: True
    have "CHR ''.'' < CHR ''Z''" by (simp add: less_char_def)
    then have "format_nano u < format_nano t"
      using zero nanos True by (simp add: parts append_less_same_length)
    moreover have "prints_later t u"
      using zero nanos prints_later_same_second [OF assms(1) True] by (auto intro!: exI [of _ 9])
    ultimately show ?thesis by auto
  next
    case False
    with fraction_text_order [OF nanos] nanos True show ?thesis
      by (simp add: parts append_less_same_length prints_later_same_second [OF assms(1)])
  qed
qed

subsection \<open>Leases\<close>

text \<open>
  C15: Exactly where the order of the texts is not that of the instants: of two instants the
  earlier \<open>t\<close> is the later text when it lies on a grid of 1, 10, ..., 1000000000 nanoseconds and \<open>u\<close> is
  before the next point of the grid. A lease (or a back-off) that ends at such a \<open>u\<close> is claimable by
  another worker at \<open>t\<close> already, while it is still held, and one that ends at \<open>t\<close> is not
  claimable at \<open>u\<close> yet; for all other pairs the database decides as the clock does. In particular
  a lease that ends in the middle of a second can be taken over at the start of that second.
\<close>

theorem lease_order_is_not_time_order:
  assumes "t < u" "four_digit t" "four_digit u"
  shows "(due_at u r \<longrightarrow> (claimable (format_nano t) r \<longleftrightarrow> prints_later t u)) \<and>
    (due_at t r \<longrightarrow> (claimable (format_nano u) r \<longleftrightarrow> \<not> prints_later t u))"
proof -
  have claimable: "claimable (format_nano now) r \<longleftrightarrow> format_nano due < format_nano now"
    if "due_at due r" for due now
    using that unfolding due_at_def by (elim disjE conjE) (simp_all add: claimable_def)
  show ?thesis using format_nano_order [OF assms] by (auto simp: claimable)
qed

lemma four_digit_halves: "four_digit 5500000000" "four_digit 5570000000"
  by code_simp+

text \<open>Second 5, and its halves: 5.5 is on the grid of tenths, 5.57 is before 5.6.\<close>

theorem lease_order_is_not_time_order_witness:
  "claimable (format_nano 5000000000) (leased_job 5500000000) \<and>
   \<not> claimable (format_nano 5570000000) (leased_job 5500000000)"
proof -
  have "due_at t (leased_job t)" for t
    by (simp add: due_at_def leased_job_def default_job_row_def)
  moreover have "prints_later 5000000000 5500000000" "prints_later 5500000000 5570000000"
    by code_simp+
  ultimately show ?thesis
    using lease_order_is_not_time_order [OF _ four_digit_epoch(2) four_digit_halves(1)]
      lease_order_is_not_time_order [OF _ four_digit_halves]
    by simp
qed

end
