(* ===== verification/StoreProperties.thy ===== *)
theory StoreProperties
  imports ClaimCorrect
begin

text \<open>
  Properties of every history of store calls: well-formedness, atomicity of a call that fails, and
  that no job is invisible to the workers: the workspace of every job is registered with the queue.
\<close>

subsection \<open>Every job's workspace is registered\<close>

definition registered_but :: "bytes set \<Rightarrow> db \<Rightarrow> bool" where
  "registered_but W d \<longleftrightarrow> jr_workspace ` set (db_jobs d) \<subseteq> qs_key ` set (db_scopes d) \<union> W"

abbreviation registered :: "db \<Rightarrow> bool" where
  "registered \<equiv> registered_but {}"

lemma registered_jobs:
  "(\<And>r. jr_workspace (f r) = jr_workspace r) \<Longrightarrow>
   keeps (registered_but W) (statement (update_where jobs_table p f))"
  by (rule keeps_statement)
    (auto simp: registered_but_def update_where_def row_simps set_update_rows image_subset_iff)

lemma registered_insert_job:
  "jr_workspace r \<in> W \<Longrightarrow> keeps (registered_but W) (statement (insert_into jobs_table r))"
  by (rule keeps_statement)
    (auto simp: registered_but_def insert_into_def row_simps image_subset_iff split: if_split_asm)

lemma registered_scopes:
  "(\<And>r. qs_key (f r) = qs_key r) \<Longrightarrow>
   keeps (registered_but W) (statement (upsert_into scopes_table r f))"
proof (rule keeps_statement)
  fix d u d' assume same: "\<And>r. qs_key (f r) = qs_key r" and reg: "registered_but W d"
    and run: "upsert_into scopes_table r f d = Inr (u, d')"
  have "map qs_key (update_rows p f rs) = map qs_key rs" for p rs
    by (rule update_rows_keys) (rule same)
  then have "qs_key ` set (update_rows p f rs) = qs_key ` set rs" for p rs
    by (metis list.set_map)
  then have "qs_key ` set (db_scopes d) \<subseteq> qs_key ` set (db_scopes d')" "db_jobs d' = db_jobs d"
    using run by (auto simp: upsert_into_def row_simps split: if_split_asm)
  with reg show "registered_but W d'" by (auto simp: registered_but_def)
qed

lemma registered_other:
  "keeps (registered_but W) (statement (insert_into chunks_table c))"
  "keeps (registered_but W) (statement (rekey_where chunks_table pc fc))"
  "keeps (registered_but W) (statement (delete_where chunks_table pc))"
  "keeps (registered_but W) (statement (insert_into artifacts_table a))"
  "keeps (registered_but W) (statement (delete_where artifacts_table pa))"
  "keeps (registered_but W) (statement (upsert_into fences_table fe ff))"
  "keeps (registered_but W) (statement (update_where fences_table pf ff))"
  "keeps (registered_but W) (statement (insert_into receipts_table rc))"
  "keeps (registered_but W) (statement (update_where receipts_table pr fr))"
  by (rule keeps_statement;
      auto simp: registered_but_def insert_into_def update_where_def rekey_where_def delete_where_def
        upsert_into_def row_simps image_subset_iff split: if_split_asm)+

lemmas registered_statements = registered_jobs registered_insert_job registered_scopes
  registered_other


lemma registered_cancel: "keeps registered (store_cancel r access)"
  unfolding store_cancel_def
  by (intro keeps_rules registered_statements) (simp_all add: cancel_row_def)

lemma registered_claim_update [keeps_rules]:
  "keeps registered (statement (claim_update workspace owner ttl request now jid))"
  unfolding claim_update_def by (rule registered_jobs) (simp add: claim_row_def)

lemma registered_claim_workspace [keeps_rules]:
  "keeps registered (claim_workspace workspace owner ttl request)"
  unfolding claim_workspace_def by (intro keeps_rules)

lemma registered_claim_loop [keeps_rules]: "keeps registered (claim_loop owner ttl workspaces)"
  by (induction owner ttl workspaces rule: claim_loop.induct)
    (simp_all only: claim_loop.simps, (intro keeps_rules; assumption)+)

lemma registered_claim: "keeps registered (claim owner ttl)"
  unfolding claim_def by (intro keeps_rules)

lemma registered_claim_job: "keeps registered (claim_job validate_request r owner ttl)"
  unfolding claim_job_def by (intro keeps_rules)

lemma registered_fenced:
  "(\<And>r. jr_workspace (f r) = jr_workspace r) \<Longrightarrow> keeps registered (fenced_update x f e)"
  unfolding fenced_update_def by (intro keeps_rules registered_jobs) simp

lemma registered_worker:
  "keeps registered (commit_result_page x seq content next_cursor checkpoint count)"
  "keeps registered (progress x checkpoint count)" "keeps registered (complete x artifact)"
  "keeps registered (fail x plan)" "keeps registered (heartbeat x ttl)"
  unfolding commit_result_page_def progress_def complete_def fail_def heartbeat_def Let_def
  by (intro keeps_rules registered_fenced registered_other;
      simp add: commit_row_def progress_row_def complete_row_def fail_row_def heartbeat_row_def)+

lemma registered_lock [keeps_rules]: "keeps (registered_but W) (lock_subject_scope workspace subject)"
  unfolding lock_subject_scope_def by (intro keeps_rules registered_other)

lemma registered_prepare_jobs [keeps_rules]: "keeps registered (prepare_jobs q jids)"
proof (induction q jids rule: prepare_jobs.induct)
  case (2 q jid jids)
  then show ?case
    unfolding prepare_jobs.simps prepare_job_def
    by (intro keeps_rules registered_jobs) (simp_all add: erasure_pending_row_def)
qed (simp add: keeps_rules)

lemma registered_erase_jobs [keeps_rules]: "keeps registered (erase_jobs q js)"
proof (induction q js rule: erase_jobs.induct)
  case (2 q j js)
  then show ?case
    unfolding erase_jobs.simps erase_job_def
    by (intro keeps_rules registered_jobs registered_other) (simp_all add: redacted_row_def)
qed (simp add: keeps_rules)

lemma registered_erasure:
  "keeps registered (store_prepare_erasure q)" "keeps registered (store_erase_prepared q raw)"
  unfolding store_prepare_erasure_def store_erase_prepared_def
  by (intro keeps_rules registered_other)+

text \<open>A submission registers the workspace of the job it inserts in the same transaction.\<close>

lemma register_leads:
  "leads (registered_but {workspace}) (register_scope workspace) (\<lambda>_. registered)"
  unfolding register_scope_def
proof (intro leads_and_then [OF leads_keeps [OF keeps_time_now]] leads_statement)
  fix now d u d'
  assume but: "registered_but {workspace} d"
    and run: "upsert_into scopes_table \<lparr>qs_key = workspace, qs_updated_at = format_nano now\<rparr>
      (\<lambda>r. r\<lparr>qs_updated_at := format_nano now\<rparr>) d = Inr (u, d')"
  have jobs: "db_jobs d' = db_jobs d"
    using run by (auto simp: upsert_into_def row_simps split: if_split_asm)
  have "qs_key ` set (db_scopes d') = insert workspace (qs_key ` set (db_scopes d))"
  proof (cases "workspace \<in> qs_key ` set (db_scopes d)")
    case True
    have "map qs_key (update_rows p (\<lambda>r. r\<lparr>qs_updated_at := t\<rparr>) rs) = map qs_key rs" for p t rs
      by (rule update_rows_keys) simp
    then have keys: "qs_key ` set (update_rows p (\<lambda>r. r\<lparr>qs_updated_at := t\<rparr>) rs) = qs_key ` set rs"
      for p t rs by (metis list.set_map)
    have "db_scopes d' = update_rows (\<lambda>x. qs_key x = workspace)
        (\<lambda>r. r\<lparr>qs_updated_at := format_nano now\<rparr>) (db_scopes d)"
      using run True by (auto simp: upsert_into_def row_simps)
    then show ?thesis by (simp only: keys insert_absorb [OF True])
  next
    case False
    then show ?thesis using run by (auto simp: upsert_into_def row_simps)
  qed
  with but jobs show "registered d'" by (auto simp: registered_but_def)
qed

lemma registered_check [keeps_rules]: "keeps (registered_but W) (check_subject_submission scope)"
  unfolding check_subject_submission_def by (intro keeps_rules)

lemma insert_job_leads:
  "leads registered (attempt (statement (insert_into jobs_table r)))
     (\<lambda>inserted. case inserted of Inl _ \<Rightarrow> registered | Inr _ \<Rightarrow> registered_but {jr_workspace r})"
  by (auto simp: leads_def op_simps insert_into_def registered_but_def row_simps)

lemma registered_submit_export: "keeps registered (submit_export r)"
  unfolding submit_export_def
  apply (intro keeps_and_then [OF keeps_time_now] leads_with_tx
      leads_and_then [OF leads_keeps [OF registered_check]] leads_and_then [OF insert_job_leads])
  apply (rule leads_case_sum; simp only: sum.case)
  subgoal by (intro leads_keeps keeps_rules)
  subgoal by (simp add: export_job_row_def)
      (intro leads_and_then [OF register_leads] leads_keeps keeps_rules)
  done

lemma registered_store_source [keeps_rules]:
  "keeps (registered_but W) (store_source limit workspace staging size_read n h reads)"
proof (induction limit workspace staging size_read n h reads rule: store_source.induct)
  case (2 limit workspace staging size_read n h part status reads)
  then show ?case
    unfolding store_source.simps by (intro keeps_rules registered_other) auto
qed (simp add: keeps_rules)

lemma insert_import_leads:
  assumes "registered snapshot"
  shows "leads registered (insert_import snapshot r staging hash payload source_hash size_read n)
    (\<lambda>_. registered)"
  unfolding insert_import_def
  apply (intro leads_and_then [OF leads_keeps [OF keeps_time_now]] leads_let
      leads_and_then [OF insert_job_leads])
  apply (rule leads_case_sum; simp only: sum.case)
  subgoal using assms by (intro leads_keeps keeps_rules)
  subgoal by (simp add: import_job_row_def)
      (intro leads_and_then [OF leads_keeps [OF registered_other(2)]] leads_and_then [OF register_leads]
        leads_keeps keeps_rules)
  done

lemma registered_submit_import: "keeps registered (submit_import r)"
  unfolding submit_import_def Let_def
  apply (intro keeps_and_then [OF keeps_time_now] leads_with_tx
      leads_and_then [OF leads_keeps [OF registered_check]] leads_case_option)
  subgoal by (rule leads_throw)
  apply (intro leads_and_then [OF leads_keeps [OF registered_store_source]] leads_case_prod
      leads_case_option leads_and_then [OF leads_keeps [OF keeps_attempt [OF keeps_query]]])
  subgoal by (rule leads_throw)
  apply (rule leads_case_sum)
  subgoal by (intro leads_if leads_throw insert_import_leads)
  subgoal by (intro leads_keeps keeps_rules)
  done

lemma call_keeps_registered:
  "registered (w_db w) \<Longrightarrow> registered (w_db (snd (run_call check c w)))"
  by (cases c)
    (simp_all add: outcome_keeps outcome_reads calls_read_only registered_submit_import
      registered_submit_export registered_cancel registered_claim registered_claim_job
      registered_worker registered_erasure)

lemma calls_keep_registered: "registered (w_db w) \<Longrightarrow> registered (w_db (run_calls check cs w))"
  by (induction check cs w rule: run_calls.induct) (simp_all add: call_keeps_registered)


subsection \<open>A call that fails\<close>

lemma outcome_fenced:
  assumes "good_db (w_db w)"
    "outcome (and_then time_now (\<lambda>now. fenced_update x (f now) e)) w = (Some err, w')"
  shows "w_db w' = w_db w"
  using outcome_error [OF assms(2) fenced_all_or_nothing [OF assms(1)]] .

lemma claim_errors_wp:
  assumes "good_db (w_db w)"
  shows "wp (claim owner ttl) (\<lambda>_ _. True) (\<lambda>_ w'. w_db w' = w_db w) w"
    "wp (claim_job check r owner ttl) (\<lambda>_ _. True) (\<lambda>_ w'. w_db w' = w_db w) w"
proof -
  show "wp (claim owner ttl) (\<lambda>_ _. True) (\<lambda>_ w'. w_db w' = w_db w) w"
    by (rule wp_mono [OF claim_wp [OF assms]]) simp_all
  have "wp (claim_workspace workspace owner ttl request) (\<lambda>_ _. True) (\<lambda>_ w'. w_db w' = w_db w) w"
    for workspace request
    by (rule wp_mono [OF claim_workspace_wp [OF assms]]) simp_all
  then show "wp (claim_job check r owner ttl) (\<lambda>_ _. True) (\<lambda>_ w'. w_db w' = w_db w) w"
    by (simp add: claim_job_def op_simps split: option.splits)
qed

subsection \<open>The properties\<close>

text \<open>The world in which no statement fails and the clock stands still.\<close>

definition calm :: "db \<Rightarrow> instant \<Rightarrow> world" where
  "calm d now =
     \<lparr>w_db = d, w_fault = (\<lambda>_. False), w_statements = 0, w_clock = (\<lambda>_. now), w_readings = 0,
      w_trace = []\<rparr>"

text \<open>
  C1: Whatever calls clients, workers and the subject lifecycle make to the store, in whatever
  order, whichever statements the driver fails and whatever the clock returns, the database stays
  well formed: unique keys, known statuses, a lease and a positive token on every running job and
  none on a queued, completed or failed one, chunk digests that match; and the workspace of every
  job stays registered with the queue.
\<close>

theorem store_history_well_formed:
  assumes "w_db w = empty_db"
  shows "good_db (w_db (run_calls check cs w)) \<and> registered (w_db (run_calls check cs w))"
  using calls_keep_good [of w check cs] calls_keep_registered [of w check cs] assms good_empty
  by (simp add: registered_but_def empty_db_def)

definition sample_scope :: scope where
  "sample_scope = \<lparr>sc_workspace = ''w'', sc_actor = ''a'', sc_role = ''r'', sc_request = []\<rparr>"

definition sample_export :: export_request where
  "sample_export =
     \<lparr>ex_scope = sample_scope, ex_provider = ''p'', ex_object_key = ''o'', ex_idempotency_key = ''k'',
      ex_reference = [], ex_options = None\<rparr>"

theorem store_history_well_formed_witness:
  "good_db (w_db (run_calls (\<lambda>_. None) [Submit_export sample_export, Claim_any ''worker'' 0]
     (calm empty_db 0)))"
  using store_history_well_formed [of "calm empty_db 0"] by (simp add: calm_def del: run_calls.simps)

text \<open>
  C9: A call to the store that returns an error has changed nothing in the database, wherever it
  failed: in the driver, at the fence, or on a condition of the request.
\<close>

theorem failed_call_changes_nothing:
  assumes "good_db (w_db w)" "run_call check c w = (Some e, w')"
  shows "w_db w' = w_db w"
proof (cases c)
  case (Fail_job x code now)
  then show ?thesis
    using assms outcome_fenced [of w x] by (auto simp: fail_def)
next
  case (Report_progress x checkpoint count)
  then show ?thesis
    using assms outcome_fenced [of w x] by (auto simp: progress_def)
next
  case (Renew_lease x ttl)
  then show ?thesis
    using assms outcome_fenced [of w x] by (auto simp: heartbeat_def)
qed (use assms in \<open>auto elim!: outcome_error
    intro: all_or_nothing_wp transactions_all_or_nothing reads_only_wp calls_read_only claim_errors_wp\<close>)

definition sample_item :: "int \<Rightarrow> work_item" where
  "sample_item token =
     \<lparr>w_job = zero_job\<lparr>j_id := ''j'', j_status := ''running'', j_lease_owner := ''o'',
        j_fencing_token := token\<rparr>,
      w_scope = sample_scope, w_object_key = ''o'', w_payload = [], w_attempts = 0\<rparr>"

definition leased_db :: db where
  "leased_db = empty_db\<lparr>db_jobs := [leased_job 0]\<rparr>"

lemma leased_db_good: "good_db leased_db"
  by (simp add: leased_db_def good_db_def keyed_def all_rows_def row_simps empty_db_def job_row_ok_def
      leased_job_def default_job_row_def status_values_def)

theorem failed_call_changes_nothing_witness:
  "w_db (snd (run_call (\<lambda>_. None) (Report_progress (sample_item 0) 3 9) (calm leased_db 0))) = leased_db"
proof -
  have run: "run_call (\<lambda>_. None) (Report_progress (sample_item 0) 3 9) (calm leased_db 0) =
      (Some (stale_fence (sample_item 0)),
       (calm leased_db 0)\<lparr>w_readings := 1, w_statements := 1\<rparr>)"
    by (simp add: outcome_def progress_def and_then_def time_now_def fenced_update_def calm_def
        statement_def update_where_def throw_def update_rows_def leased_db_def leased_job_def
        fenced_job_def sample_item_def default_job_row_def zero_job_def row_simps empty_db_def)
  have "good_db (w_db (calm leased_db 0))" using leased_db_good by (simp add: calm_def)
  from failed_call_changes_nothing [OF this run] show ?thesis
    unfolding run snd_conv by (simp add: calm_def)
qed

text \<open>
  C12: No job is overlooked: when a job of any workspace is claimable at every instant the call
  reads, and no statement fails, a claim hands out a job, and it is a claimable one.
\<close>

theorem claim_finds_work:
  assumes "good_db (w_db w)" "registered (w_db w)" "\<And>n. \<not> w_fault w n"
    "r \<in> set (db_jobs (w_db w))" "\<And>n. claimable (format_nano (w_clock w n)) r"
  shows "\<exists>item w'. claim owner ttl w = (Inr (Some item), w') \<and>
    (\<exists>r' \<in> set (db_jobs (w_db w)). \<exists>n. claimable (format_nano (w_clock w n)) r' \<and>
       item = claimed_item owner r')"
proof -
  obtain q where q: "q \<in> set (db_scopes (w_db w))" "qs_key q = jr_workspace r"
    using assms(2,4) by (auto simp: registered_but_def)
  have cand: "claim_candidate (qs_key q) (format_nano (w_clock w n)) None r" for n
    using assms(5) q(2) by (simp add: claim_candidate_def requested_def)
  obtain res w' where run: "claim owner ttl w = (res, w')" by fastforce
  show ?thesis
  proof (cases res)
    case (Inl e)
    then show ?thesis using wp_errorD [OF claim_wp [OF assms(1)]] run assms(3) by blast
  next
    case (Inr found)
    note claimed = wp_valueD [OF claim_wp [OF assms(1)], OF run [unfolded Inr]]
    then show ?thesis
      using cand q(1) assms(3,4) run Inr
      by (cases found) (fastforce simp: takes_def claim_candidate_def)+
  qed
qed

definition queued_db :: db where
  "queued_db = empty_db\<lparr>db_jobs := [default_job_row\<lparr>jr_id := ''j'', jr_workspace := ''w'',
     jr_operation := ''export'', jr_status := ''queued''\<rparr>],
     db_scopes := [\<lparr>qs_key = ''w'', qs_updated_at = []\<rparr>]\<rparr>"

theorem claim_finds_work_witness:
  "\<exists>item w'. claim ''o'' 0 (calm queued_db 0) = (Inr (Some item), w')"
proof -
  let ?r = "default_job_row\<lparr>jr_id := ''j'', jr_workspace := ''w'', jr_operation := ''export'',
     jr_status := ''queued''\<rparr>"
  have "good_db (w_db (calm queued_db 0))"
    by (simp add: calm_def queued_db_def good_db_def keyed_def all_rows_def row_simps empty_db_def
        job_row_ok_def default_job_row_def status_values_def)
  from claim_finds_work [OF this, of ?r "''o''" 0] show ?thesis
    by (auto simp: calm_def queued_db_def registered_but_def empty_db_def claimable_def
        default_job_row_def)
qed

end
