(* ===== verification/Lifecycle.thy ===== *)
theory Lifecycle
  imports StoreProperties
begin

text \<open>
  The life of a job. The abstract specification is a state machine on single job rows: how a job
  starts, and the steps it may take. The store implements it: whatever calls are made, the rows of
  the jobs table only ever take these steps, and new rows start at the beginning. What the rows keep
  for ever, that fencing tokens never decrease, and that a finished job stays finished are then
  facts about the state machine alone. The locales say what a predicate or a relation on databases
  has to allow in order to survive the operations: growing tables, the steps of clients and of the
  subject lifecycle, those of workers that report no failure, and all of them.
\<close>

subsection \<open>The state machine\<close>

definition initial_job :: "job_row \<Rightarrow> bool" where
  "initial_job r \<longleftrightarrow>
     jr_status r = ''queued'' \<and> jr_fencing_token r = 0 \<and> jr_attempts r = 0 \<and>
     jr_checkpoint r = 0 \<and> jr_result_chunks r = 0 \<and> jr_lease_owner r = [] \<and> jr_next_attempt r = []"

inductive job_step :: "job_row \<Rightarrow> job_row \<Rightarrow> bool" where
  cancelled: "jr_status r \<in> {''queued'', ''running''} \<Longrightarrow> job_step r (cancel_row now r)"
| claimed: "jr_status r \<in> {''queued'', ''running''} \<Longrightarrow> job_step r (claim_row owner now ttl r)"
| committed: "jr_status r = ''running'' \<Longrightarrow> job_step r (commit_row seq cursor checkpoint count now r)"
| progressed: "jr_status r = ''running'' \<Longrightarrow> job_step r (progress_row checkpoint count now r)"
| completed: "jr_status r = ''running'' \<Longrightarrow> job_step r (complete_row artifact now r)"
| failed: "jr_status r = ''running'' \<Longrightarrow> fp_status plan \<in> {''queued'', ''failed''} \<Longrightarrow>
    job_step r (fail_row plan next_attempt now r)"
| renewed: "jr_status r = ''running'' \<Longrightarrow> job_step r (heartbeat_row ttl now r)"
| fenced: "jr_status r = ''queued'' \<Longrightarrow> job_step r (erasure_pending_row r)"
| erased: "jr_status r \<noteq> ''running'' \<Longrightarrow> job_step r (redacted_row r)"

inductive_cases job_stepE: "job_step r r'"

abbreviation life :: "job_row \<Rightarrow> job_row \<Rightarrow> bool" where
  "life \<equiv> job_step\<^sup>*\<^sup>*"

lemmas row_updates = cancel_row_def claim_row_def commit_row_def progress_row_def complete_row_def
  fail_row_def heartbeat_row_def erasure_pending_row_def redacted_row_def

text \<open>What a job is never changes.\<close>

definition identity_of :: "job_row \<Rightarrow> bytes \<times> bytes \<times> bytes \<times> bytes \<times> bytes \<times> bytes \<times> bytes" where
  "identity_of r = (jr_id r, jr_workspace r, jr_actor r, jr_provider r, jr_operation r,
     jr_object_key r, jr_created_at r)"

lemma step_identity: "job_step r r' \<Longrightarrow> identity_of r' = identity_of r"
  by (erule job_stepE) (simp_all add: identity_of_def row_updates)

lemma step_token: "job_step r r' \<Longrightarrow> jr_fencing_token r \<le> jr_fencing_token r'"
  by (erule job_stepE) (simp_all add: row_updates)

lemma step_terminal:
  "job_step r r' \<Longrightarrow> terminal (jr_status r) \<Longrightarrow> r' = redacted_row r"
  by (erule job_stepE) (auto simp: terminal_def)

lemma life_identity: "life r r' \<Longrightarrow> identity_of r' = identity_of r"
  by (induction rule: rtranclp_induct) (auto dest: step_identity)

lemma life_token: "life r r' \<Longrightarrow> jr_fencing_token r \<le> jr_fencing_token r'"
  by (induction rule: rtranclp_induct) (auto dest!: step_token)

lemma redacted_terminal: "terminal (jr_status (redacted_row r))"
  by (simp add: redacted_row_def terminal_def)

lemma life_terminal:
  "life r r' \<Longrightarrow> terminal (jr_status r) \<Longrightarrow>
   terminal (jr_status r') \<and> (r' = r \<or> jr_error_code r' = ''subject_erased'')"
proof (induction rule: rtranclp_induct)
  case (step y z)
  then have "z = redacted_row y" by (blast intro: step_terminal)
  then show ?case by (simp add: redacted_terminal) (simp add: redacted_row_def)
qed simp

subsection \<open>Steps that neither hand out a job nor give it back\<close>

text \<open>
  All the steps but a claim and a reported failure: the attempts stay as they are, and a job that is
  queued or running afterwards was so before, under the same token, owner and back-off.
\<close>

definition quiet_step :: "job_row \<Rightarrow> job_row \<Rightarrow> bool" where
  "quiet_step r r' \<longleftrightarrow>
     job_step r r' \<and> jr_attempts r' = jr_attempts r \<and>
     (jr_status r' \<in> {''queued'', ''running''} \<longrightarrow>
        jr_status r' = jr_status r \<and> jr_fencing_token r' = jr_fencing_token r \<and>
        jr_lease_owner r' = jr_lease_owner r \<and> jr_next_attempt r' = jr_next_attempt r)"

text \<open>What clients and the subject lifecycle do to a job: it ends up cancelled.\<close>

definition client_step :: "job_row \<Rightarrow> job_row \<Rightarrow> bool" where
  "client_step r r' \<longleftrightarrow> job_step r r' \<and> jr_attempts r' = jr_attempts r \<and> jr_status r' = ''cancelled''"

lemma client_quiet: "client_step r r' \<Longrightarrow> quiet_step r r'"
  by (simp add: client_step_def quiet_step_def)

lemma quiet_job_step: "quiet_step r r' \<Longrightarrow> job_step r r'"
  by (simp add: quiet_step_def)

lemma client_steps:
  "jr_status r \<in> {''queued'', ''running''} \<Longrightarrow> client_step r (cancel_row now r)"
  "jr_status r = ''queued'' \<Longrightarrow> client_step r (erasure_pending_row r)"
  "jr_status r \<noteq> ''running'' \<Longrightarrow> client_step r (redacted_row r)"
  unfolding client_step_def
  by (intro conjI job_step.intros; simp add: row_updates)+

lemma quiet_steps:
  "jr_status r = ''running'' \<Longrightarrow> quiet_step r (commit_row seq cursor checkpoint count now r)"
  "jr_status r = ''running'' \<Longrightarrow> quiet_step r (progress_row checkpoint count now r)"
  "jr_status r = ''running'' \<Longrightarrow> quiet_step r (complete_row artifact now r)"
  "jr_status r = ''running'' \<Longrightarrow> quiet_step r (heartbeat_row ttl now r)"
  unfolding quiet_step_def
  by (intro conjI job_step.intros; simp add: row_updates)+

fun quiet_call :: "store_call \<Rightarrow> bool" where
  "quiet_call (Claim_any owner ttl) = False"
| "quiet_call (Claim_one r owner ttl) = False"
| "quiet_call (Fail_job x code now) = False"
| "quiet_call c = True"

subsection \<open>Predicates that follow the state machine\<close>

text \<open>A predicate of the jobs table alone that new queued jobs keep is kept by every submission.\<close>

locale growing_jobs =
  fixes I :: "db \<Rightarrow> bool"
  assumes only_jobs: "db_jobs d' = db_jobs d \<Longrightarrow> I d \<Longrightarrow> I d'"
    and new_job: "I d \<Longrightarrow> initial_job r \<Longrightarrow> jr_id r \<notin> jr_id ` set (db_jobs d) \<Longrightarrow>
      I (d\<lparr>db_jobs := db_jobs d @ [r]\<rparr>)"
begin

lemma new_kept: "initial_job r \<Longrightarrow> keeps I (statement (insert_into jobs_table r))"
  by (rule keeps_statement) (auto simp: insert_into_def row_simps intro!: new_job split: if_split_asm)

lemma other_kept:
  assumes "\<And>d x d'. f d = Inr (x, d') \<Longrightarrow> db_jobs d' = db_jobs d"
  shows "keeps I (statement f)"
  by (rule keeps_statement) (blast intro: only_jobs dest: assms)

lemma tables_kept:
  "keeps I (statement (insert_into chunks_table c))"
  "keeps I (statement (rekey_where chunks_table pc fc))"
  "keeps I (statement (delete_where chunks_table pc))"
  "keeps I (statement (insert_into artifacts_table a))"
  "keeps I (statement (delete_where artifacts_table pa))"
  "keeps I (statement (upsert_into scopes_table q fq))"
  "keeps I (statement (upsert_into fences_table fe ff))"
  "keeps I (statement (update_where fences_table pf ff))"
  "keeps I (statement (insert_into receipts_table rc))"
  "keeps I (statement (update_where receipts_table pr fr))"
  by (rule other_kept; auto simp: insert_into_def update_where_def rekey_where_def delete_where_def
        upsert_into_def row_simps split: if_split_asm)+

lemma lock_kept: "keeps I (check_subject_submission scope)" "keeps I (lock_subject_scope ws subject)"
  unfolding check_subject_submission_def lock_subject_scope_def
  by (intro keeps_rules tables_kept)+

lemma register_kept: "keeps I (register_scope workspace)"
  unfolding register_scope_def by (intro keeps_rules tables_kept)

lemma store_source_kept: "keeps I (store_source limit workspace staging size_read n h reads)"
proof (induction limit workspace staging size_read n h reads rule: store_source.induct)
  case (2 limit workspace staging size_read n h part status reads)
  then show ?case unfolding store_source.simps by (intro keeps_rules tables_kept) auto
qed (simp add: keeps_rules)

lemma submit_kept: "keeps I (submit_import r)" "keeps I (submit_export s)"
proof -
  have "initial_job (import_job_row r hash payload source_hash size_read n now)"
    for hash payload source_hash size_read n now
    by (simp add: initial_job_def import_job_row_def default_job_row_def)
  then show "keeps I (submit_import r)"
    unfolding submit_import_def insert_import_def
    by (intro keeps_rules new_kept tables_kept lock_kept register_kept store_source_kept) simp_all
  have "initial_job (export_job_row s now)" for now
    by (simp add: initial_job_def export_job_row_def default_job_row_def)
  then show "keeps I (submit_export s)"
    unfolding submit_export_def
    by (intro keeps_rules new_kept lock_kept register_kept) simp_all
qed

end

text \<open>
  With the steps of clients it is kept by every operation of clients and of the subject lifecycle.
\<close>

locale client_history = growing_jobs +
  assumes client_jobs: "I d \<Longrightarrow> (\<And>r. r \<in> set (db_jobs d) \<Longrightarrow> p r \<Longrightarrow> client_step r (f r)) \<Longrightarrow>
    I (d\<lparr>db_jobs := update_rows p f (db_jobs d)\<rparr>)"
begin

lemma client_kept:
  "(\<And>r. p r \<Longrightarrow> client_step r (f r)) \<Longrightarrow> keeps I (statement (update_where jobs_table p f))"
  by (rule keeps_statement) (auto simp: update_where_def row_simps intro!: client_jobs)

lemma cancel_kept: "keeps I (store_cancel r access)"
  unfolding store_cancel_def by (intro keeps_rules client_kept client_steps) simp_all

lemma prepare_jobs_kept: "keeps I (prepare_jobs q jids)"
proof (induction q jids rule: prepare_jobs.induct)
  case (2 q jid jids)
  then show ?case
    unfolding prepare_jobs.simps prepare_job_def
    by (intro keeps_rules client_kept client_steps) simp
qed (simp add: keeps_rules)

lemma erase_jobs_kept: "keeps I (erase_jobs q js)"
proof (induction q js rule: erase_jobs.induct)
  case (2 q j js)
  then show ?case
    unfolding erase_jobs.simps erase_job_def
    by (intro keeps_rules client_kept tables_kept client_steps) simp
qed (simp add: keeps_rules)

lemma erasure_kept: "keeps I (store_prepare_erasure q)" "keeps I (store_erase_prepared q raw)"
  unfolding store_prepare_erasure_def store_erase_prepared_def
  by (intro keeps_rules tables_kept lock_kept prepare_jobs_kept erase_jobs_kept)+

end

text \<open>And when it is kept by what workers do with the jobs they hold, the workers may work, too.\<close>

locale quiet_history = client_history +
  assumes quiet_jobs: "I d \<Longrightarrow> (\<And>r. r \<in> set (db_jobs d) \<Longrightarrow> p r \<Longrightarrow> quiet_step r (f r)) \<Longrightarrow>
    I (d\<lparr>db_jobs := update_rows p f (db_jobs d)\<rparr>)"
begin

lemma quiet_kept:
  "(\<And>r. p r \<Longrightarrow> quiet_step r (f r)) \<Longrightarrow> keeps I (statement (update_where jobs_table p f))"
  by (rule keeps_statement) (auto simp: update_where_def row_simps intro!: quiet_jobs)

lemma quiet_fenced_kept:
  "(\<And>r. jr_status r = ''running'' \<Longrightarrow> quiet_step r (f r)) \<Longrightarrow> keeps I (fenced_update x f e)"
  unfolding fenced_update_def by (intro keeps_rules quiet_kept) (auto simp: fenced_job_def)

lemma worker_kept:
  "keeps I (commit_result_page x seq content next_cursor checkpoint count)"
  "keeps I (progress x checkpoint count)" "keeps I (complete x artifact)"
  "keeps I (heartbeat x ttl)"
  unfolding commit_result_page_def progress_def complete_def heartbeat_def
  by (intro keeps_rules quiet_fenced_kept tables_kept quiet_steps; assumption)+

lemma quiet_call_kept: "quiet_call c \<Longrightarrow> I (w_db w) \<Longrightarrow> I (w_db (snd (run_call check c w)))"
  by (cases c)
    (simp_all add: outcome_keeps outcome_reads calls_read_only submit_kept cancel_kept worker_kept
      erasure_kept)

end

text \<open>A predicate that all steps of the machine keep is kept by all the operations.\<close>

locale job_history = quiet_history +
  assumes jobs_step: "I d \<Longrightarrow> (\<And>r. r \<in> set (db_jobs d) \<Longrightarrow> p r \<Longrightarrow> job_step r (f r)) \<Longrightarrow>
    I (d\<lparr>db_jobs := update_rows p f (db_jobs d)\<rparr>)"
begin

lemma step_kept:
  "(\<And>r. p r \<Longrightarrow> job_step r (f r)) \<Longrightarrow> keeps I (statement (update_where jobs_table p f))"
  by (rule keeps_statement) (auto simp: update_where_def row_simps intro!: jobs_step)

lemma claim_update_kept: "keeps I (statement (claim_update workspace owner ttl request now jid))"
  unfolding claim_update_def
  by (intro step_kept job_step.claimed) (auto simp: claim_candidate_def claimable_def)

lemma claim_workspace_kept: "keeps I (claim_workspace workspace owner ttl request)"
  unfolding claim_workspace_def by (intro keeps_rules claim_update_kept)

lemma claim_kept: "keeps I (claim owner ttl)" "keeps I (claim_job check r owner ttl)"
proof -
  have "keeps I (claim_loop owner ttl workspaces)" for workspaces
    by (induction owner ttl workspaces rule: claim_loop.induct)
      (simp_all only: claim_loop.simps,
       (intro keeps_rules claim_workspace_kept; assumption)+)
  then show "keeps I (claim owner ttl)"
    unfolding claim_def by (intro keeps_rules)
  show "keeps I (claim_job check r owner ttl)"
    unfolding claim_job_def by (intro keeps_rules claim_workspace_kept)
qed

lemma fail_kept: "fp_status plan \<in> {''queued'', ''failed''} \<Longrightarrow> keeps I (fail x plan)"
  unfolding fail_def fenced_update_def
  by (intro keeps_rules step_kept job_step.failed) (auto simp: fenced_job_def)

lemma call_kept: "I (w_db w) \<Longrightarrow> I (w_db (snd (run_call check c w)))"
  by (cases c)
    (simp_all add: outcome_keeps outcome_reads calls_read_only submit_kept cancel_kept claim_kept
      worker_kept fail_kept [OF plan_status] erasure_kept)

lemma calls_kept: "I (w_db w) \<Longrightarrow> I (w_db (run_calls check cs w))"
  by (induction check cs w rule: run_calls.induct) (simp_all add: call_kept)

end

subsection \<open>The store implements the state machine\<close>

definition evolves_by :: "(job_row \<Rightarrow> job_row \<Rightarrow> bool) \<Rightarrow> db \<Rightarrow> db \<Rightarrow> bool" where
  "evolves_by S d d' \<longleftrightarrow>
     (\<exists>news. list_all initial_job news \<and> list_all2 S\<^sup>*\<^sup>* (db_jobs d @ news) (db_jobs d'))"

abbreviation evolves :: "db \<Rightarrow> db \<Rightarrow> bool" where
  "evolves \<equiv> evolves_by job_step"

lemma list_all2_update:
  assumes "list_all2 S\<^sup>*\<^sup>* rs rs'" "\<And>r. r \<in> set rs' \<Longrightarrow> p r \<Longrightarrow> S r (f r)"
  shows "list_all2 S\<^sup>*\<^sup>* rs (update_rows p f rs')"
  using assms
proof (induction rule: list_all2_induct)
  case (Cons r rs r' rs')
  have "S\<^sup>*\<^sup>* r (if p r' then f r' else r')"
    using Cons.hyps(1) Cons.prems by (auto intro: rtranclp.rtrancl_into_rtrancl)
  then show ?case using Cons by (simp add: update_rows_def)
qed (simp add: update_rows_def)

lemma evolves_only_jobs: "db_jobs d'' = db_jobs d' \<Longrightarrow> evolves_by S d d' \<Longrightarrow> evolves_by S d d''"
  by (simp add: evolves_by_def)

lemma evolves_new_job:
  assumes "evolves_by S d d'" "initial_job r"
  shows "evolves_by S d (d'\<lparr>db_jobs := db_jobs d' @ [r]\<rparr>)"
proof -
  obtain news where "list_all initial_job news" "list_all2 S\<^sup>*\<^sup>* (db_jobs d @ news) (db_jobs d')"
    using assms(1) by (auto simp: evolves_by_def)
  with assms(2) have "list_all initial_job (news @ [r])"
    "list_all2 S\<^sup>*\<^sup>* (db_jobs d @ news @ [r]) (db_jobs d' @ [r])"
    by (simp_all add: list_all2_appendI flip: append_assoc)
  then show ?thesis unfolding evolves_by_def by (intro exI [of _ "news @ [r]"]) simp
qed

lemma evolves_jobs_step:
  "evolves_by S d d' \<Longrightarrow> (\<And>r. r \<in> set (db_jobs d') \<Longrightarrow> p r \<Longrightarrow> S r (f r)) \<Longrightarrow>
   evolves_by S d (d'\<lparr>db_jobs := update_rows p f (db_jobs d')\<rparr>)"
  by (auto simp: evolves_by_def intro!: list_all2_update)

interpretation evolution: job_history "evolves d" for d
  by unfold_locales
    (blast intro: evolves_only_jobs evolves_new_job evolves_jobs_step client_quiet quiet_job_step)+

interpretation quiet_evolution: quiet_history "evolves_by quiet_step d" for d
  by unfold_locales
    (blast intro: evolves_only_jobs evolves_new_job evolves_jobs_step client_quiet)+

lemma evolves_refl: "evolves_by S d d"
  by (auto simp: evolves_by_def intro!: exI [of _ "[]"] list_all2_refl)

text \<open>Every old job is still there, and a job that is there is an old or a new one.\<close>

lemma evolves_row:
  assumes "evolves_by S d d'" "r \<in> set (db_jobs d)"
  obtains r' where "r' \<in> set (db_jobs d')" "S\<^sup>*\<^sup>* r r'"
proof -
  obtain news where "list_all2 S\<^sup>*\<^sup>* (db_jobs d @ news) (db_jobs d')"
    using assms(1) by (auto simp: evolves_by_def)
  moreover obtain i where "i < length (db_jobs d)" "r = db_jobs d ! i"
    using assms(2) by (auto simp: in_set_conv_nth)
  ultimately have "S\<^sup>*\<^sup>* r (db_jobs d' ! i)" "db_jobs d' ! i \<in> set (db_jobs d')"
    by (auto simp: list_all2_conv_all_nth nth_append dest: spec [of _ i])
  then show thesis using that by blast
qed

lemma evolves_origin:
  assumes "evolves_by S d d'" "r' \<in> set (db_jobs d')"
  obtains r where "r \<in> set (db_jobs d) \<or> initial_job r" "S\<^sup>*\<^sup>* r r'"
proof -
  obtain news where news: "list_all initial_job news"
    "list_all2 S\<^sup>*\<^sup>* (db_jobs d @ news) (db_jobs d')"
    using assms(1) by (auto simp: evolves_by_def)
  obtain r where "r \<in> set (db_jobs d @ news)" "S\<^sup>*\<^sup>* r r'"
    using list_all2_iff [of "S\<^sup>*\<^sup>*"] news(2) assms(2) by (metis in_set_zipE list_all2_lengthD in_set_impl_in_set_zip2 case_prodD)
  then show thesis using that news(1) by (auto simp: list_all_iff)
qed

text \<open>
  C3: The store refines the life of single jobs: after any calls by anyone, with any failures and
  any clock, the jobs are those of before, in place, each having taken steps of the state machine
  only, followed by new jobs that started queued with token 0.
\<close>

theorem store_refines_lifecycle:
  "\<exists>news. list_all initial_job news \<and>
     list_all2 life (db_jobs (w_db w) @ news) (db_jobs (w_db (run_calls check cs w)))"
  using evolution.calls_kept [OF evolves_refl] unfolding evolves_by_def .

text \<open>
  C13: Through any history of calls a job keeps its identity (id, workspace, actor, provider,
  operation, object and creation time), its fencing token never decreases, and once it is completed,
  failed or cancelled it never changes again, unless its subject is erased.
\<close>

theorem job_history:
  assumes "r \<in> set (db_jobs (w_db w))"
  shows "\<exists>r' \<in> set (db_jobs (w_db (run_calls check cs w))).
    identity_of r' = identity_of r \<and> jr_fencing_token r \<le> jr_fencing_token r' \<and>
    (terminal (jr_status r) \<longrightarrow>
       terminal (jr_status r') \<and> (r' = r \<or> jr_error_code r' = ''subject_erased''))"
  using evolves_row [OF evolution.calls_kept [OF evolves_refl] assms]
    life_identity life_token life_terminal by metis

definition done_db :: db where
  "done_db = empty_db\<lparr>db_jobs := [default_job_row\<lparr>jr_id := ''j'', jr_operation := ''export'',
     jr_status := ''completed''\<rparr>]\<rparr>"

theorem job_history_witness:
  "\<exists>r' \<in> set (db_jobs (w_db (run_calls (\<lambda>_. None) [Claim_any ''o'' 0] (calm done_db 0)))).
     jr_id r' = ''j'' \<and> terminal (jr_status r')"
proof -
  let ?r = "default_job_row\<lparr>jr_id := ''j'', jr_operation := ''export'', jr_status := ''completed''\<rparr>"
  have "?r \<in> set (db_jobs (w_db (calm done_db 0)))" by (simp add: calm_def done_db_def)
  from job_history [OF this, of "\<lambda>_. None" "[Claim_any ''o'' 0]"] show ?thesis
    by (auto simp: identity_of_def terminal_def simp del: run_calls.simps)
qed

end
