(* ===== verification/WorkerCorrect.thy ===== *)
theory WorkerCorrect
  imports Lifecycle
begin

text \<open>
  The writes of a worker, exactly: a worker the fence lets through changes its own row and adds the
  one page or artifact; a worker it does not let through changes nothing and is told so.
\<close>

subsection \<open>A stale worker\<close>

definition passes_fence :: "work_item \<Rightarrow> db \<Rightarrow> bool" where
  "passes_fence x d \<longleftrightarrow> (\<exists>r \<in> set (db_jobs d). fenced_job x r)"

fun writer :: "store_call \<Rightarrow> work_item option" where
  "writer (Commit_page x seq content cursor checkpoint count) = Some x"
| "writer (Report_progress x checkpoint count) = Some x"
| "writer (Complete_job x artifact) = Some x"
| "writer (Fail_job x code now) = Some x"
| "writer (Renew_lease x ttl) = Some x"
| "writer c = None"

lemma stale_update_wp:
  assumes "\<not> passes_fence x (w_db w)"
  shows "wp (fenced_update x f e) Q R w =
    (if w_fault w (w_statements w) then R (Err_sql ''driver'') (after_statement w)
     else R e (after_statement w))"
proof -
  have none: "\<And>r. r \<in> set (t_get jobs_table (w_db w)) \<Longrightarrow> \<not> fenced_job x r"
    using assms by (auto simp: passes_fence_def)
  have "update_where jobs_table (fenced_job x) f (w_db w) = Inr (0, w_db w)"
    by (rule jobs.update_none) (rule none)
  then show ?thesis by (simp add: fenced_update_def op_simps)
qed

lemma insert_other_passes:
  "insert_into chunks_table c d = Inr (u, d') \<Longrightarrow> passes_fence x d' = passes_fence x d"
  "insert_into artifacts_table a d = Inr (u, d') \<Longrightarrow> passes_fence x d' = passes_fence x d"
  by (auto simp: insert_into_def row_simps passes_fence_def split: if_split_asm)

lemma insert_intoD: "insert_into T r d = Inr (u, d') \<Longrightarrow> d' = t_put T (t_get T d @ [r]) d"
  by (simp add: insert_into_def split: if_split_asm)

lemma stale_transaction:
  assumes "\<not> passes_fence x (w_db w)"
  shows "wp (commit_result_page x seq content cursor checkpoint count) (\<lambda>_ _. False) (\<lambda>_ _. True) w"
    "wp (complete x artifact) (\<lambda>_ _. False) (\<lambda>_ _. True) w"
proof -
  have stale: "wp (and_then (fenced_update x f e) (\<lambda>_. m)) (\<lambda>_ _. False) (\<lambda>_ _. True) v"
    if "\<not> passes_fence x (w_db v)" for f e and m :: "unit op" and v
    using that by (simp add: op_simps stale_update_wp)
  show "wp (commit_result_page x seq content cursor checkpoint count) (\<lambda>_ _. False) (\<lambda>_ _. True) w"
    unfolding commit_result_page_def
    using assms by (auto simp: op_simps stale_update_wp insert_other_passes split: sum.splits)
  show "wp (complete x artifact) (\<lambda>_ _. False) (\<lambda>_ _. True) w"
    unfolding complete_def
    using assms by (auto simp: op_simps stale_update_wp insert_other_passes split: sum.splits option.splits)
qed

lemma stale_fenced:
  assumes "\<not> passes_fence x (w_db w)"
  shows "wp (and_then time_now (\<lambda>now. fenced_update x (f now) e)) (\<lambda>_ _. False)
    (\<lambda>_ w'. w_db w' = w_db w) w"
  using assms by (simp add: op_simps stale_update_wp)

lemma outcome_wp:
  "wp m (\<lambda>_ _. False) (\<lambda>_ w'. P w') w \<Longrightarrow> \<exists>e w'. outcome m w = (Some e, w') \<and> P w'"
  by (auto simp: wp_def outcome_def split: prod.splits sum.splits)

lemma wp_all_or_nothing:
  "all_or_nothing m \<Longrightarrow> wp m (\<lambda>_ _. False) (\<lambda>_ _. True) w \<Longrightarrow>
   wp m (\<lambda>_ _. False) (\<lambda>_ w'. w_db w' = w_db w) w"
  by (auto simp: wp_def dest: all_or_nothingD split: prod.splits sum.splits)

lemma stale_write:
  assumes "writer c = Some x" "\<not> passes_fence x (w_db w)"
  shows "\<exists>e w'. run_call check c w = (Some e, w') \<and> w_db w' = w_db w"
proof (cases c)
  case (Commit_page y seq content cursor checkpoint count)
  then show ?thesis
    using assms stale_transaction(1) wp_all_or_nothing [OF transactions_all_or_nothing(4)]
    by (auto intro!: outcome_wp)
next
  case (Complete_job y artifact)
  then show ?thesis
    using assms stale_transaction(2) wp_all_or_nothing [OF transactions_all_or_nothing(5)]
    by (auto intro!: outcome_wp)
next
  case (Report_progress y checkpoint count)
  then show ?thesis
    using assms by (auto simp: progress_def intro!: outcome_wp stale_fenced)
next
  case (Fail_job y code now)
  then show ?thesis
    using assms by (auto simp: fail_def intro!: outcome_wp stale_fenced)
next
  case (Renew_lease y ttl)
  then show ?thesis
    using assms by (auto simp: heartbeat_def intro!: outcome_wp stale_fenced)
qed (use assms in simp_all)


subsection \<open>A worker that passes the fence\<close>

lemma good_insert_chunk:
  assumes "good_db d" "insert_into chunks_table c d = Inr (u, d')" "chunk_row_ok c"
  shows "good_db d'"
  using keepsD [OF good_chunks.insert_kept [OF assms(3)], of "calm d 0"] assms(1,2)
  by (fastforce simp: calm_def statement_def)

definition page_key_free :: "work_item \<Rightarrow> int \<Rightarrow> db \<Rightarrow> bool" where
  "page_key_free x seq d \<longleftrightarrow>
     \<not> (\<exists>c \<in> set (db_chunks d). ck_workspace c = sc_workspace (w_scope x) \<and>
          ck_job c = j_id (w_job x) \<and> ck_direction c = ''result'' \<and> ck_sequence c = seq)"

lemma insert_page:
  "insert_into chunks_table (result_chunk x seq content now) d =
     (if page_key_free x seq d
      then Inr ((), d\<lparr>db_chunks := db_chunks d @ [result_chunk x seq content now]\<rparr>)
      else Inl (Err_sql ''duplicate primary key''))"
  by (auto simp: insert_into_def row_simps page_key_free_def result_chunk_def image_iff)

lemma page_ok: "chunk_row_ok (result_chunk x seq content now)"
  by (simp add: chunk_row_ok_def result_chunk_def)

lemma commit_page_wp:
  assumes "good_db (w_db w)"
  shows "wp (commit_result_page x seq content cursor checkpoint count)
    (\<lambda>_ w'. passes_fence x (w_db w) \<and> page_key_free x seq (w_db w) \<and>
       (\<exists>now now'. w_db w' = (w_db w)\<lparr>
          db_chunks := db_chunks (w_db w) @ [result_chunk x seq content now],
          db_jobs := update_rows (fenced_job x) (commit_row seq cursor checkpoint count now')
            (db_jobs (w_db w))\<rparr>))
    (\<lambda>_ w'. w_db w' = w_db w \<and>
       ((\<exists>n. w_fault w n) \<or> \<not> passes_fence x (w_db w) \<or> \<not> page_key_free x seq (w_db w))) w"
proof (cases "page_key_free x seq (w_db w)")
  case True
  have good: "good_db ((w_db w)\<lparr>db_chunks := db_chunks (w_db w) @ [result_chunk x seq content now]\<rparr>)"
    for now
    by (rule good_insert_chunk [OF assms _ page_ok [of x seq content now]]) (simp add: insert_page True)
  show ?thesis
    unfolding commit_result_page_def
    using True by (auto simp: op_simps insert_page fenced_update_wp good passes_fence_def)
next
  case False
  then show ?thesis
    unfolding commit_result_page_def by (auto simp: op_simps insert_page)
qed

lemma fenced_write_wp:
  assumes "good_db (w_db w)" "\<And>r now. fenced_job x r \<Longrightarrow> job_row_ok r \<Longrightarrow> job_row_ok (f now r)"
    "\<And>r now. jr_id (f now r) = jr_id r"
  shows "wp (and_then time_now (\<lambda>now. fenced_update x (f now) e))
    (\<lambda>_ w'. good_db (w_db w') \<and> passes_fence x (w_db w) \<and>
       (\<exists>now. w_db w' = (w_db w)\<lparr>db_jobs := update_rows (fenced_job x) (f now) (db_jobs (w_db w))\<rparr>))
    (\<lambda>_ w'. w_db w' = w_db w) w"
proof -
  let ?m = "and_then time_now (\<lambda>now. fenced_update x (f now) e)"
  have "keeps good_db ?m"
    by (intro keeps_rules keeps_fenced_update) (simp_all add: assms)
  then have "wp ?m (\<lambda>_ w'. good_db (w_db w')) (\<lambda>_ w'. good_db (w_db w')) w"
    by (rule keeps_wp) (rule assms(1))
  moreover have "wp ?m (\<lambda>_ w'. passes_fence x (w_db w) \<and>
       (\<exists>now. w_db w' = (w_db w)\<lparr>db_jobs := update_rows (fenced_job x) (f now) (db_jobs (w_db w))\<rparr>))
    (\<lambda>_ w'. w_db w' = w_db w) w"
    using assms(1) by (auto simp: op_simps fenced_update_wp passes_fence_def)
  ultimately show ?thesis by (auto simp: wp_def split: prod.splits sum.splits)
qed

lemma progress_wp:
  assumes "good_db (w_db w)"
  shows "wp (progress x checkpoint count)
    (\<lambda>_ w'. good_db (w_db w') \<and> passes_fence x (w_db w) \<and>
       (\<exists>now. w_db w' = (w_db w)\<lparr>db_jobs :=
          update_rows (fenced_job x) (progress_row checkpoint count now) (db_jobs (w_db w))\<rparr>))
    (\<lambda>_ w'. w_db w' = w_db w) w"
  unfolding progress_def
  by (rule fenced_write_wp [OF assms]) (simp_all add: progress_row_def job_row_ok_def)

lemma fail_wp:
  assumes "good_db (w_db w)" "fp_status plan \<in> {''queued'', ''failed''}"
  shows "wp (fail x plan)
    (\<lambda>_ w'. good_db (w_db w') \<and> passes_fence x (w_db w) \<and>
       (\<exists>next_attempt now. w_db w' = (w_db w)\<lparr>db_jobs :=
          update_rows (fenced_job x) (fail_row plan next_attempt now) (db_jobs (w_db w))\<rparr>))
    (\<lambda>_ w'. w_db w' = w_db w) w"
  unfolding fail_def Let_def
  by (rule wp_mono [OF fenced_write_wp [OF assms(1)]])
    (use assms(2) in \<open>auto simp: fail_row_def job_row_ok_def status_values_def\<close>)

text \<open>What completing a job adds to the artifacts.\<close>

fun artifact_added :: "work_item \<Rightarrow> artifact_record option \<Rightarrow> artifact_row list \<Rightarrow> bool" where
  "artifact_added x None rows = (rows = [])"
| "artifact_added x (Some a) rows = (\<exists>now. rows = [artifact_row_of x a now])"

definition record_id :: "artifact_record option \<Rightarrow> bytes" where
  "record_id art = (case art of None \<Rightarrow> [] | Some a \<Rightarrow> ar_id a)"

lemma some_artifact [simp]:
  "(\<exists>rows. (\<exists>now. rows = [artifact_row_of x a now]) \<and> P rows) \<longleftrightarrow> (\<exists>now. P [artifact_row_of x a now])"
  by blast

lemma good_insert_artifact:
  assumes "good_db d" "insert_into artifacts_table a d = Inr (u, d')"
  shows "good_db d' \<and> d' = d\<lparr>db_artifacts := db_artifacts d @ [a]\<rparr>"
  using keepsD [OF good_artifacts.insert_kept [OF TrueI], of "calm d 0" a] assms
  by (fastforce simp: calm_def statement_def insert_into_def row_simps split: if_splits)

lemma complete_wp:
  assumes "good_db (w_db w)"
  shows "wp (complete x art)
    (\<lambda>_ w'. passes_fence x (w_db w) \<and>
       (\<exists>rows now. artifact_added x art rows \<and> w_db w' = (w_db w)\<lparr>
          db_artifacts := db_artifacts (w_db w) @ rows,
          db_jobs := update_rows (fenced_job x) (complete_row (record_id art) now)
            (db_jobs (w_db w))\<rparr>))
    (\<lambda>_ w'. w_db w' = w_db w) w"
proof (cases art)
  case None
  then show ?thesis
    unfolding complete_def
    using assms by (auto simp: op_simps fenced_update_wp passes_fence_def record_id_def)
next
  case (Some a)
  show ?thesis
    unfolding complete_def Some option.case
    using assms
    by (auto simp: op_simps fenced_update_wp passes_fence_def record_id_def
        dest!: good_insert_artifact [OF assms]
        split: sum.splits) blast
qed

text \<open>
  C4: A page is committed exactly: when \<open>CommitResultPage\<close> returns no error, the worker held the
  fence, the page's number was free, and the database has gained that page and, in the row of the
  job and nowhere else, the checkpoint, the cursor, the total and the page count; when it returns an
  error nothing has changed, and without driver failures the only reasons are a lost fence and a
  page number already in use.
\<close>

theorem commit_page_exact:
  assumes "good_db (w_db w)"
  shows "wp (commit_result_page x seq content cursor checkpoint count)
    (\<lambda>_ w'. passes_fence x (w_db w) \<and> page_key_free x seq (w_db w) \<and>
       (\<exists>now now'. w_db w' = (w_db w)\<lparr>
          db_chunks := db_chunks (w_db w) @ [result_chunk x seq content now],
          db_jobs := update_rows (fenced_job x) (commit_row seq cursor checkpoint count now')
            (db_jobs (w_db w))\<rparr>))
    (\<lambda>_ w'. w_db w' = w_db w \<and>
       ((\<exists>n. w_fault w n) \<or> \<not> passes_fence x (w_db w) \<or> \<not> page_key_free x seq (w_db w))) w"
  by (rule commit_page_wp [OF assms])

text \<open>The item of the worker that holds the lease of \<^const>\<open>leased_db\<close>.\<close>

theorem commit_page_exact_witness:
  "\<exists>w' now now'.
     commit_result_page (sample_item 1) 0 ''id'' ''next'' 1 2 (calm leased_db 0) = (Inr (), w') \<and>
     w_db w' = leased_db\<lparr>
       db_chunks := [result_chunk (sample_item 1) 0 ''id'' now],
       db_jobs := update_rows (fenced_job (sample_item 1)) (commit_row 0 ''next'' 1 2 now')
         (db_jobs leased_db)\<rparr>"
proof -
  let ?w = "calm leased_db 0"
  have good: "good_db (w_db ?w)" using leased_db_good by (simp add: calm_def)
  have "passes_fence (sample_item 1) (w_db ?w)" "page_key_free (sample_item 1) 0 (w_db ?w)"
    by (simp_all add: passes_fence_def page_key_free_def calm_def leased_db_def leased_job_def
        fenced_job_def sample_item_def zero_job_def default_job_row_def empty_db_def)
  moreover obtain r w' where run:
      "commit_result_page (sample_item 1) 0 ''id'' ''next'' 1 2 ?w = (r, w')" by fastforce
  ultimately show ?thesis
    using commit_page_exact [OF good, of "sample_item 1" 0 "''id''" "''next''" 1 2]
    by (cases r) (auto simp: wp_def calm_def leased_db_def empty_db_def)
qed

text \<open>
  C5: A worker whose fence is gone, because its job was cancelled, finished, reclaimed by another
  worker or erased, cannot write: every commit, progress report, completion, failure report and lease
  renewal returns an error and leaves the database as it was.
\<close>

theorem stale_worker_cannot_write:
  assumes "writer c = Some x" "\<not> passes_fence x (w_db w)"
  shows "\<exists>e w'. run_call check c w = (Some e, w') \<and> w_db w' = w_db w"
  using stale_write [OF assms] .

theorem stale_worker_cannot_write_witness:
  "\<exists>e w'. run_call (\<lambda>_. None) (Complete_job (sample_item 0) None) (calm leased_db 0) = (Some e, w') \<and>
     w_db w' = leased_db"
proof -
  have "\<not> passes_fence (sample_item 0) (w_db (calm leased_db 0))"
    by (simp add: passes_fence_def calm_def leased_db_def leased_job_def fenced_job_def sample_item_def
        zero_job_def default_job_row_def empty_db_def)
  from stale_worker_cannot_write [OF _ this, of "Complete_job (sample_item 0) None" "\<lambda>_. None"]
  show ?thesis by (simp add: calm_def del: run_call.simps)
qed

end
