(* ===== verification/Fleet.thy ===== *)
theory Fleet
  imports WorkerCorrect
begin

text \<open>
  Many workers at once. A claim is two statements (\<open>claimWorkspace\<close>: the \<open>SELECT\<close> and then the
  guarded \<open>UPDATE\<close>, outside any transaction), so other workers, clients and the subject lifecycle run
  between them; every other call is one transaction or one statement. The state is the database, the
  claims that have selected a row but not yet updated it, and the work items handed out so far,
  each with the token its \<open>UPDATE\<close> really left in the row (a ghost: the worker believes the token it
  read, plus one).
\<close>

datatype selection =
  Selection (sel_workspace: bytes) (sel_owner: bytes) (sel_ttl: duration)
    (sel_request: "job_request option") (sel_now: instant) (sel_row: job_row)

record fleet =
  fl_db :: db
  fl_selected :: "selection list"
  fl_items :: "(work_item \<times> int) list"

definition token_of :: "bytes \<Rightarrow> db \<Rightarrow> int" where
  "token_of jid d =
     (case filter (\<lambda>r. jr_id r = jid) (db_jobs d) of [] \<Rightarrow> 0 | r # _ \<Rightarrow> jr_fencing_token r)"

fun claims :: "store_call \<Rightarrow> bool" where
  "claims (Claim_any owner ttl) = True"
| "claims (Claim_one r owner ttl) = True"
| "claims c = False"

definition update_selected :: "selection \<Rightarrow> db \<Rightarrow> err + nat \<times> db" where
  "update_selected c =
     claim_update (sel_workspace c) (sel_owner c) (sel_ttl c) (sel_request c) (sel_now c)
       (jr_id (sel_row c))"

inductive fleet_step :: "(job_request \<Rightarrow> err option) \<Rightarrow> fleet \<Rightarrow> fleet \<Rightarrow> bool" for check where
  select: "claim_select workspace (format_nano now) request (fl_db s) = Inr r \<Longrightarrow>
    fleet_step check s
      (s\<lparr>fl_selected := Selection workspace owner ttl request now r # fl_selected s\<rparr>)"
| update: "c \<in> set (fl_selected s) \<Longrightarrow> update_selected c (fl_db s) = Inr (n, d) \<Longrightarrow>
    fleet_step check s
      (s\<lparr>fl_db := d, fl_selected := remove1 c (fl_selected s),
         fl_items := (if n = 1
           then (claimed_item (sel_owner c) (sel_row c), token_of (jr_id (sel_row c)) d) # fl_items s
           else fl_items s)\<rparr>)"
| act: "w_db w = fl_db s \<Longrightarrow> \<not> claims k \<Longrightarrow>
    fleet_step check s (s\<lparr>fl_db := w_db (snd (run_call check k w))\<rparr>)"

inductive_cases fleet_stepE: "fleet_step check s s'"

abbreviation fleet_reaches :: "(job_request \<Rightarrow> err option) \<Rightarrow> fleet \<Rightarrow> fleet \<Rightarrow> bool" where
  "fleet_reaches check \<equiv> (fleet_step check)\<^sup>*\<^sup>*"

definition idle_fleet :: "db \<Rightarrow> fleet" where
  "idle_fleet d = \<lparr>fl_db = d, fl_selected = [], fl_items = []\<rparr>"

subsection \<open>The invariant\<close>

text \<open>The row of a job exists and its token is at least \<open>t\<close>.\<close>

definition at_least :: "bytes \<Rightarrow> int \<Rightarrow> db \<Rightarrow> bool" where
  "at_least jid t d \<longleftrightarrow> (\<exists>r \<in> set (db_jobs d). jr_id r = jid \<and> t \<le> jr_fencing_token r)"

definition believed :: "work_item \<Rightarrow> int" where
  "believed x = j_fencing_token (w_job x)"

definition fleet_ok :: "fleet \<Rightarrow> bool" where
  "fleet_ok s \<longleftrightarrow>
     good_db (fl_db s) \<and>
     (\<forall>c \<in> set (fl_selected s). at_least (jr_id (sel_row c)) (jr_fencing_token (sel_row c)) (fl_db s)) \<and>
     (\<forall>(x, a) \<in> set (fl_items s). believed x \<le> a \<and> at_least (j_id (w_job x)) a (fl_db s)) \<and>
     distinct (map (\<lambda>(x, a). (j_id (w_job x), a)) (fl_items s))"

lemma token_of_row:
  "good_db d \<Longrightarrow> r \<in> set (db_jobs d) \<Longrightarrow> token_of (jr_id r) d = jr_fencing_token r"
  by (simp add: token_of_def filter_key [OF good_jobs_keyed])

lemma same_id_same_row:
  "good_db d \<Longrightarrow> r \<in> set (db_jobs d) \<Longrightarrow> q \<in> set (db_jobs d) \<Longrightarrow> jr_id r = jr_id q \<Longrightarrow> r = q"
  using good_jobs_keyed [of d] by (auto simp: distinct_map inj_on_def)

lemma at_least_le: "at_least jid t d \<Longrightarrow> u \<le> t \<Longrightarrow> at_least jid u d"
  by (auto simp: at_least_def)

lemma evolves_at_least: "evolves d d' \<Longrightarrow> at_least jid t d \<Longrightarrow> at_least jid t d'"
  unfolding at_least_def
proof (elim bexE conjE)
  fix r assume "evolves d d'" "r \<in> set (db_jobs d)" "jr_id r = jid" "t \<le> jr_fencing_token r"
  moreover from this obtain r' where "r' \<in> set (db_jobs d')" "life r r'"
    by (metis evolves_row)
  moreover from this have "jr_id r' = jr_id r" "jr_fencing_token r \<le> jr_fencing_token r'"
    using life_identity life_token by (auto simp: identity_of_def)
  ultimately show "\<exists>r \<in> set (db_jobs d'). jr_id r = jid \<and> t \<le> jr_fencing_token r" by fastforce
qed

lemma keeps_statementD:
  assumes "keeps I (statement f)" "I d" "f d = Inr (x, d')"
  shows "I d'"
proof -
  have "statement f (calm d 0) = (Inr x, (calm d 0)\<lparr>w_statements := 1, w_db := d'\<rparr>)"
    using assms(3) by (simp add: statement_def calm_def)
  from keepsD [OF assms(1) _ this] show ?thesis using assms(2) by (simp add: calm_def)
qed

lemma update_selected_evolves: "update_selected c d = Inr (n, d') \<Longrightarrow> evolves d d'"
  unfolding update_selected_def
  by (rule keeps_statementD [OF evolution.claim_update_kept evolves_refl])

lemma update_selected_good: "update_selected c d = Inr (n, d') \<Longrightarrow> good_db d \<Longrightarrow> good_db d'"
  unfolding update_selected_def
  by (rule keeps_statementD [OF keeps_claim_update])

text \<open>An update that changed one row raised the token above every token there was.\<close>

lemma update_selected_token:
  assumes "good_db d" "update_selected c d = Inr (n, d')" "n = 1"
  shows "\<exists>r \<in> set (db_jobs d). jr_id r = jr_id (sel_row c) \<and>
    token_of (jr_id (sel_row c)) d' = jr_fencing_token r + 1 \<and>
    at_least (jr_id (sel_row c)) (jr_fencing_token r + 1) d'"
proof -
  let ?p = "\<lambda>r. jr_id r = jr_id (sel_row c) \<and>
      claim_candidate (sel_workspace c) (format_nano (sel_now c)) (sel_request c) r"
  have run: "n = length (filter ?p (db_jobs d))"
    "d' = d\<lparr>db_jobs := update_rows ?p (claim_row (sel_owner c) (sel_now c) (sel_ttl c)) (db_jobs d)\<rparr>"
    using assms(2) by (auto simp: update_selected_def claim_update_def update_where_def row_simps)
  then obtain r where r: "r \<in> set (db_jobs d)" "?p r"
    using assms(3) by (metis (mono_tags, lifting) One_nat_def filter_empty_conv length_0_conv nat.simps(3))
  have "claim_row (sel_owner c) (sel_now c) (sel_ttl c) r \<in> set (db_jobs d')"
    using r run(2) by (auto simp: set_update_rows)
  moreover have "good_db d'" using update_selected_good assms(1,2) by blast
  ultimately have "token_of (jr_id (sel_row c)) d' = jr_fencing_token r + 1"
    "at_least (jr_id (sel_row c)) (jr_fencing_token r + 1) d'"
    using token_of_row [of d' "claim_row (sel_owner c) (sel_now c) (sel_ttl c) r"] r(2)
    by (auto simp: claim_row_def at_least_def intro!: bexI [where x = "claim_row (sel_owner c) (sel_now c) (sel_ttl c) r"])
  then show ?thesis using r by blast
qed

lemma fleet_step_ok:
  assumes "fleet_step check s s'" "fleet_ok s"
  shows "fleet_ok s'"
  using assms(1)
proof cases
  case (select workspace now request r owner ttl)
  then show ?thesis
    using assms(2) claim_selectD(1) by (fastforce simp: fleet_ok_def at_least_def)
next
  case (act w k)
  have "evolves (fl_db s) (fl_db s')" "good_db (fl_db s')"
    using act assms(2) evolution.call_kept [of "fl_db s" w check k] call_keeps_good [of w check k]
    by (simp_all add: evolves_refl fleet_ok_def)
  then show ?thesis
    using act assms(2) evolves_at_least by (fastforce simp: fleet_ok_def)
next
  case (update c n d)
  have kept: "evolves (fl_db s) d" "good_db d"
    using update update_selected_evolves update_selected_good assms(2) by (auto simp: fleet_ok_def)
  have old: "\<forall>c \<in> set (remove1 c (fl_selected s)).
      at_least (jr_id (sel_row c)) (jr_fencing_token (sel_row c)) d"
    "\<forall>(x, a) \<in> set (fl_items s). believed x \<le> a \<and> at_least (j_id (w_job x)) a d"
    using assms(2) evolves_at_least [OF kept(1)] set_remove1_subset [of c "fl_selected s"]
    by (fastforce simp: fleet_ok_def)+
  show ?thesis
  proof (cases "n = 1")
    case False
    then show ?thesis using update kept(2) old assms(2) by (simp add: fleet_ok_def)
  next
    case True
    let ?x = "claimed_item (sel_owner c) (sel_row c)"
    let ?a = "token_of (jr_id (sel_row c)) d"
    obtain r where r: "r \<in> set (db_jobs (fl_db s))" "jr_id r = jr_id (sel_row c)"
      "?a = jr_fencing_token r + 1" "at_least (jr_id (sel_row c)) ?a d"
      using update_selected_token [OF _ update(3) True] assms(2) by (auto simp: fleet_ok_def)
    have job: "j_id (w_job ?x) = jr_id (sel_row c)" "believed ?x = jr_fencing_token (sel_row c) + 1"
      by (simp_all add: claimed_item_def item_of_row_def believed_def)
    obtain q where q: "q \<in> set (db_jobs (fl_db s))" "jr_id q = jr_id (sel_row c)"
      "jr_fencing_token (sel_row c) \<le> jr_fencing_token q"
      using assms(2) update(2) by (auto simp: fleet_ok_def at_least_def)
    have "q = r"
      using same_id_same_row [OF _ q(1) r(1)] q(2) r(2) assms(2) by (simp add: fleet_ok_def)
    then have "believed ?x \<le> ?a" using q(3) r(3) job(2) by simp
    moreover have newer: "a < ?a" if "(y, a) \<in> set (fl_items s)" "j_id (w_job y) = jr_id (sel_row c)" for y a
    proof -
      have "at_least (jr_id r) a (fl_db s)" using that assms(2) r(2) by (auto simp: fleet_ok_def)
      then obtain p where p: "p \<in> set (db_jobs (fl_db s))" "jr_id p = jr_id r" "a \<le> jr_fencing_token p"
        by (auto simp: at_least_def)
      have "p = r" using same_id_same_row [OF _ p(1) r(1) p(2)] assms(2) by (simp add: fleet_ok_def)
      then show ?thesis using p(3) r(3) by simp
    qed
    moreover have "(j_id (w_job ?x), ?a) \<notin> set (map (\<lambda>(x, a). (j_id (w_job x), a)) (fl_items s))"
      using newer job(1) by fastforce
    ultimately have items: "\<forall>(x, a) \<in> set ((?x, ?a) # fl_items s).
        believed x \<le> a \<and> at_least (j_id (w_job x)) a d"
      "distinct (map (\<lambda>(x, a). (j_id (w_job x), a)) ((?x, ?a) # fl_items s))"
      using old(2) r(4) job(1) assms(2) by (auto simp: fleet_ok_def)
    have s': "fl_db s' = d" "fl_selected s' = remove1 c (fl_selected s)"
      "fl_items s' = (?x, ?a) # fl_items s"
      using update True by simp_all
    show ?thesis unfolding fleet_ok_def s' using kept(2) old(1) items by blast
  qed
qed

lemma fleet_reaches_ok: "fleet_reaches check s s' \<Longrightarrow> fleet_ok s \<Longrightarrow> fleet_ok s'"
  by (induction rule: rtranclp_induct) (auto intro: fleet_step_ok)

lemma idle_ok: "good_db d \<Longrightarrow> fleet_ok (idle_fleet d)"
  by (simp add: fleet_ok_def idle_fleet_def)


subsection \<open>A run with two claims\<close>

text \<open>Worker \<open>A\<close> claims the job for a second, its lease ends, worker \<open>B\<close> claims it.\<close>

definition waiting_job :: job_row where
  "waiting_job = default_job_row\<lparr>jr_id := ''j'', jr_workspace := ''w'', jr_operation := ''export'',
     jr_status := ''queued''\<rparr>"

definition job_of_a :: job_row where
  "job_of_a = claim_row ''A'' 2000000000 second waiting_job"

definition job_of_b :: job_row where
  "job_of_b = claim_row ''B'' 5000000000 second job_of_a"

abbreviation db_of :: "job_row \<Rightarrow> db" where
  "db_of r \<equiv> empty_db\<lparr>db_jobs := [r]\<rparr>"

definition item_a :: work_item where
  "item_a = claimed_item ''A'' waiting_job"

definition item_b :: work_item where
  "item_b = claimed_item ''B'' job_of_a"

definition two_claims :: fleet where
  "two_claims = \<lparr>fl_db = db_of job_of_b, fl_selected = [], fl_items = [(item_b, 2), (item_a, 1)]\<rparr>"

lemma waiting_good: "good_db (db_of waiting_job)"
  by (simp add: good_db_def keyed_def all_rows_def row_simps empty_db_def job_row_ok_def
      waiting_job_def default_job_row_def status_values_def)

lemma candidate_a: "claim_candidate ''w'' (format_nano 2000000000) None waiting_job"
  by (simp add: claim_candidate_def claimable_def requested_def waiting_job_def default_job_row_def)

lemma candidate_b: "claim_candidate ''w'' (format_nano 5000000000) None job_of_a"
proof -
  have "four_digit 3000000000" by code_simp
  then have "format_nano 3000000000 < format_nano 5000000000"
    using four_digit_epoch(2) by (intro format_nano_less second_later) (simp_all add: second_def)
  then show ?thesis
    by (simp add: claim_candidate_def claimable_def requested_def job_of_a_def claim_row_def
        waiting_job_def default_job_row_def lease_ttl_def second_def)
qed

lemma claim_one_job:
  assumes "claim_candidate ''w'' (format_nano now) None r"
  shows "fleet_reaches check \<lparr>fl_db = db_of r, fl_selected = [], fl_items = items\<rparr>
    \<lparr>fl_db = db_of (claim_row owner now ttl r), fl_selected = [],
     fl_items = (claimed_item owner r, jr_fencing_token r + 1) # items\<rparr>"
proof -
  let ?s = "\<lparr>fl_db = db_of r, fl_selected = [], fl_items = items\<rparr>"
  let ?c = "Selection ''w'' owner ttl None now r"
  have "claim_select ''w'' (format_nano now) None (fl_db ?s) = Inr r"
    using assms by (simp add: claim_select_def select_where_def row_simps first_row_def)
  from fleet_step.select [OF this]
  have first: "fleet_step check ?s (?s\<lparr>fl_selected := [?c]\<rparr>)" by simp
  have "update_selected ?c (fl_db ?s) = Inr (1, db_of (claim_row owner now ttl r))"
    using assms
    by (simp add: update_selected_def claim_update_def update_where_def update_rows_def row_simps)
  then have second: "fleet_step check (?s\<lparr>fl_selected := [?c]\<rparr>)
      \<lparr>fl_db = db_of (claim_row owner now ttl r), fl_selected = [],
       fl_items = (claimed_item owner r, jr_fencing_token r + 1) # items\<rparr>"
    using fleet_step.update [of ?c "?s\<lparr>fl_selected := [?c]\<rparr>" 1 "db_of (claim_row owner now ttl r)" check]
    by (simp add: token_of_def claim_row_def)
  from first second show ?thesis by (meson converse_rtranclp_into_rtranclp r_into_rtranclp)
qed

lemma two_claims_reached: "fleet_reaches check (idle_fleet (db_of waiting_job)) two_claims"
proof -
  have "fleet_reaches check (idle_fleet (db_of waiting_job))
      \<lparr>fl_db = db_of job_of_a, fl_selected = [], fl_items = [(item_a, 1)]\<rparr>"
    using claim_one_job [OF candidate_a, of check "[]" "''A''" second]
    by (simp add: idle_fleet_def job_of_a_def item_a_def waiting_job_def default_job_row_def)
  moreover have "fleet_reaches check
      \<lparr>fl_db = db_of job_of_a, fl_selected = [], fl_items = [(item_a, 1)]\<rparr> two_claims"
    using claim_one_job [OF candidate_b, of check "[(item_a, 1)]" "''B''" second]
    by (simp add: two_claims_def job_of_b_def item_b_def)
      (simp add: job_of_a_def claim_row_def waiting_job_def default_job_row_def)
  ultimately show ?thesis by (rule rtranclp_trans)
qed

lemma two_items: "j_id (w_job item_a) = j_id (w_job item_b)"
  by (simp add: item_a_def item_b_def claimed_item_def item_of_row_def job_of_a_def claim_row_def)

subsection \<open>The properties\<close>

lemma passes_token:
  assumes "fleet_ok s" "(x, a) \<in> set (fl_items s)" "r \<in> set (db_jobs (fl_db s))" "fenced_job x r"
  shows "a = jr_fencing_token r"
proof -
  obtain q where q: "q \<in> set (db_jobs (fl_db s))" "jr_id q = j_id (w_job x)" "a \<le> jr_fencing_token q"
    and low: "believed x \<le> a"
    using assms(1,2) by (auto simp: fleet_ok_def at_least_def)
  have "q = r"
    using same_id_same_row [OF _ q(1) assms(3)] q(2) assms(1,4) by (simp add: fleet_ok_def fenced_job_def)
  then show ?thesis using q(3) low assms(4) by (simp add: fenced_job_def believed_def)
qed

lemma one_writer:
  assumes "fleet_ok s" "(x, a) \<in> set (fl_items s)" "(y, b) \<in> set (fl_items s)"
    "j_id (w_job x) = j_id (w_job y)" "passes_fence x (fl_db s)" "passes_fence y (fl_db s)"
  shows "a = b"
proof -
  obtain p q where p: "p \<in> set (db_jobs (fl_db s))" "fenced_job x p"
    and q: "q \<in> set (db_jobs (fl_db s))" "fenced_job y q"
    using assms(5,6) by (auto simp: passes_fence_def)
  have "p = q"
    using same_id_same_row [OF _ p(1) q(1)] p(2) q(2) assms(1,4) by (simp add: fleet_ok_def fenced_job_def)
  then show ?thesis using passes_token [OF assms(1)] assms(2,3) p q by metis
qed

text \<open>
  C2: One writer per job: starting from a well-formed database with no work handed out, and however
  the two statements of the workers' claims interleave with each other, with submissions,
  cancellations, erasures, failures, heartbeats and writes, of all the work items ever handed out
  for a job at most one passes the fence.
\<close>

theorem at_most_one_writer:
  assumes "good_db d" "fleet_reaches check (idle_fleet d) s"
    "i < length (fl_items s)" "k < length (fl_items s)" "i \<noteq> k"
    "j_id (w_job (fst (fl_items s ! i))) = j_id (w_job (fst (fl_items s ! k)))"
  shows "\<not> (passes_fence (fst (fl_items s ! i)) (fl_db s) \<and>
            passes_fence (fst (fl_items s ! k)) (fl_db s))"
proof
  assume both: "passes_fence (fst (fl_items s ! i)) (fl_db s) \<and> passes_fence (fst (fl_items s ! k)) (fl_db s)"
  have ok: "fleet_ok s" using fleet_reaches_ok [OF assms(2) idle_ok [OF assms(1)]] .
  have "snd (fl_items s ! i) = snd (fl_items s ! k)"
    using one_writer [OF ok] assms(3,4,6) both by (metis nth_mem prod.collapse)
  then show False
    using ok assms(3-6)
    by (auto simp: fleet_ok_def distinct_conv_nth case_prod_unfold)
qed

theorem at_most_one_writer_witness:
  "\<not> (passes_fence item_b (db_of job_of_b) \<and> passes_fence item_a (db_of job_of_b))"
  using at_most_one_writer [OF waiting_good two_claims_reached, of 0 1] two_items
  by (simp add: two_claims_def)

text \<open>
  C6: A worker that was superseded stays out: once another claim of its job took effect after its
  own, in every later state all its writes fail and change nothing, even when it reads the very
  token and lease owner it was given.
\<close>

theorem superseded_worker_is_fenced:
  assumes "good_db d" "fleet_reaches check (idle_fleet d) s"
    "(x, a) \<in> set (fl_items s)" "(y, b) \<in> set (fl_items s)" "j_id (w_job x) = j_id (w_job y)" "a < b"
    "writer c = Some x" "w_db w = fl_db s"
  shows "\<exists>e w'. run_call check c w = (Some e, w') \<and> w_db w' = w_db w"
proof (rule stale_write [OF assms(7)])
  have ok: "fleet_ok s" using fleet_reaches_ok [OF assms(2) idle_ok [OF assms(1)]] .
  show "\<not> passes_fence x (w_db w)"
  proof
    assume "passes_fence x (w_db w)"
    then obtain r where r: "r \<in> set (db_jobs (fl_db s))" "fenced_job x r"
      by (auto simp: passes_fence_def assms(8))
    obtain q where q: "q \<in> set (db_jobs (fl_db s))" "jr_id q = j_id (w_job y)" "b \<le> jr_fencing_token q"
      using ok assms(4) by (auto simp: fleet_ok_def at_least_def)
    have "q = r"
      using same_id_same_row [OF _ q(1) r(1)] q(2) r(2) ok assms(5) by (simp add: fleet_ok_def fenced_job_def)
    then show False using passes_token [OF ok assms(3) r] q(3) assms(6) by simp
  qed
qed


theorem superseded_worker_is_fenced_witness:
  "\<exists>e w'. run_call (\<lambda>_. None) (Complete_job item_a None) (calm (db_of job_of_b) 0) = (Some e, w') \<and>
     w_db w' = db_of job_of_b"
  using superseded_worker_is_fenced [OF waiting_good two_claims_reached, of item_a 1 item_b 2
      "Complete_job item_a None" "calm (db_of job_of_b) 0"] two_items
  by (simp add: two_claims_def calm_def del: run_call.simps)

end
