(* ===== verification/Retries.thy ===== *)
theory Retries
  imports Fleet
begin

text \<open>
  How often a job is tried. Workers claim jobs, in two statements that others interleave with,
  process them and report failures with the plan of the domain service
  (\<open>processClaimed\<close> of \<open>internal/application/dataexchange/service.go\<close>), which rests on the attempts the
  claim read from the row and which the report stores there again.
\<close>

subsection \<open>Workers that report failures\<close>





subsection \<open>The invariant\<close>


















end
