(* ===== verification/Download.thy ===== *)
theory Download
  imports WorkerStore JobAccess
begin

text \<open>
  Reading a finished export (\<open>Artifact\<close>, \<open>errorReadCloser\<close>, \<open>verifyingReadCloser\<close> of
  \<open>internal/infrastructure/persistence/database/dataexchange/store.go\<close>): the artifact row of the
  caller's own completed job, and its content as a reader that recomputes size and digest while it
  delivers the bytes and reports the end of the file only when both agree with the row.

  The pipe behind \<open>Chunks\<close> delivers a chunk in as many pieces as the caller's buffers make of it,
  and repeats its last answer once it is closed.
\<close>

subsection \<open>The pipe\<close>

fun pipe_read :: "nat \<Rightarrow> read_result list \<Rightarrow> read_result \<times> read_result list" where
  "pipe_read n [] = (([], Read_eof), [])"
| "pipe_read n ((p, Read_ok) # rs) =
     ((take n p, Read_ok), if n < length p then (drop n p, Read_ok) # rs else rs)"
| "pipe_read n ((p, s) # rs) = ((p, s), [([], s)])"

subsection \<open>verifyingReadCloser\<close>

record verifier =
  vr_source :: "read_result list"
  vr_digest :: digest
  vr_expected_sha :: bytes
  vr_expected_size :: int
  vr_read :: int
  vr_verified :: bool

definition size_exceeded :: "int \<Rightarrow> err" where
  "size_exceeded size_limit =
     Err_content_corrupt (''artifact size exceeds '' @ int_decimal size_limit @ '' bytes'')"

definition identity_mismatch :: err where
  "identity_mismatch = Err_content_corrupt ''artifact identity mismatch''"

definition verify_read :: "nat \<Rightarrow> verifier \<Rightarrow> read_result \<times> verifier" where
  "verify_read n v =
     (case pipe_read n (vr_source v) of ((p, status), rest) \<Rightarrow>
        let v = v\<lparr>vr_source := rest\<rparr>;
            v = (if p = [] then v
                 else v\<lparr>vr_read := vr_read v + int (length p), vr_digest := hash_write (vr_digest v) p\<rparr>)
        in if vr_expected_size v < vr_read v
           then ((p, Read_error (size_exceeded (vr_expected_size v))), v)
           else if status = Read_eof \<and> \<not> vr_verified v
           then let v = v\<lparr>vr_verified := True\<rparr> in
             if vr_read v \<noteq> vr_expected_size v \<or>
                \<not> equal_fold (hex_encode (hash_sum (vr_digest v))) (vr_expected_sha v)
             then ((p, Read_error identity_mismatch), v)
             else ((p, status), v)
           else ((p, status), v))"

text \<open>One read per buffer, up to the first answer that is not \<open>nil\<close>: what was read, and that answer.\<close>

fun drain :: "nat list \<Rightarrow> verifier \<Rightarrow> bytes \<times> read_status" where
  "drain [] v = ([], Read_ok)"
| "drain (n # ns) v =
     (case verify_read n v of ((p, status), v') \<Rightarrow>
        if status = Read_ok then (case drain ns v' of (q, s) \<Rightarrow> (p @ q, s)) else (p, status))"

subsection \<open>Artifact\<close>

datatype content = Failing err | Verifying verifier | Foreign "read_result list"

text \<open>
  \<open>io.Copy\<close> from an artifact, with one buffer per read: what was read, and the answer it stopped at.
  \<open>Failing\<close> is the code's \<open>errorReadCloser\<close>, \<open>Foreign\<close> a reader that a provider returned.
\<close>

fun drain_pipe :: "nat list \<Rightarrow> read_result list \<Rightarrow> bytes \<times> read_status" where
  "drain_pipe [] rs = ([], Read_ok)"
| "drain_pipe (n # ns) rs =
     (case pipe_read n rs of ((p, status), rs') \<Rightarrow>
        if status = Read_ok then (case drain_pipe ns rs' of (q, s) \<Rightarrow> (p @ q, s)) else (p, status))"

fun copy_content :: "nat list \<Rightarrow> content \<Rightarrow> bytes \<times> read_status" where
  "copy_content ns (Failing e) = ([], Read_error e)"
| "copy_content ns (Verifying v) = drain ns v"
| "copy_content ns (Foreign rs) = drain_pipe ns rs"

record artifact =
  af_id :: bytes
  af_filename :: bytes
  af_content_type :: bytes
  af_sha :: bytes
  af_size :: int
  af_expires_at :: instant
  af_content :: "content option"

text \<open>The join of the workspace's artifacts with the completed jobs the caller may see.\<close>

definition artifact_rows :: "job_request \<Rightarrow> job_access \<Rightarrow> db \<Rightarrow> artifact_row list" where
  "artifact_rows r access d =
     concat (map (\<lambda>a. map (\<lambda>_. a) (filter (\<lambda>j. jr_id j = at_job a \<and> jr_workspace j = at_workspace a \<and>
         job_candidate r access j \<and> jr_status j = ''completed'') (db_jobs d)))
       (filter (\<lambda>a. at_workspace a = ac_workspace access) (db_artifacts d)))"

definition artifact_of_row :: "artifact_row \<Rightarrow> instant \<Rightarrow> content option \<Rightarrow> artifact" where
  "artifact_of_row a expires content =
     \<lparr>af_id = at_id a, af_filename = at_filename a, af_content_type = at_content_type a,
      af_sha = at_sha a, af_size = at_size a, af_expires_at = expires, af_content = content\<rparr>"

definition new_verifier :: "read_result list \<Rightarrow> bytes \<Rightarrow> int \<Rightarrow> verifier" where
  "new_verifier source sha expected_size =
     \<lparr>vr_source = source, vr_digest = hash_new, vr_expected_sha = to_lower (trim_space sha),
      vr_expected_size = expected_size, vr_read = 0, vr_verified = False\<rparr>"

definition open_artifact_row :: "job_request \<Rightarrow> artifact_row \<Rightarrow> artifact op" where
  "open_artifact_row r a =
     (case parse_nano (at_expires_at a) of
        None \<Rightarrow> throw (Err_content_corrupt ''artifact metadata is invalid'')
      | Some expires \<Rightarrow>
        if at_size a < 0 \<or> trim_space (at_sha a) = []
        then throw (Err_content_corrupt ''artifact metadata is invalid'')
        else and_then time_now (\<lambda>now.
          if \<not> now < expires
          then ret (artifact_of_row a expires (Some (Failing Err_artifact_expired)))
          else and_then (chunks (sc_workspace (jq_scope r)) (jq_job_id r) ''result'') (\<lambda>source.
            ret (artifact_of_row a expires
              (Some (Verifying (new_verifier source (at_sha a) (at_size a))))))))"

definition store_artifact :: "job_request \<Rightarrow> job_access \<Rightarrow> artifact op" where
  "store_artifact r access0 =
     (let access = normalized access0 in
      if \<not> job_access_matches_scope r access then throw Err_job_not_found
      else
        and_then (attempt (query (\<lambda>d. first_row (artifact_rows r access d)))) (\<lambda>found.
        case found of
          Inl e \<Rightarrow> throw (if e = Err_no_rows then Err_job_not_found else e)
        | Inr a \<Rightarrow> open_artifact_row r a))"

end
