(* ===== verification/JobAuthorization.thy ===== *)
theory JobAuthorization
  imports Model
begin

text \<open>
  \<open>internal/domain/dataexchange/service/job_authorization.go\<close>: from the authenticated principal's
  compiled access bundle to the projection the store filters by. The principal, the bundle, its
  grants, policies, predicates and guardrails are the SDK's data types, with the fields the code
  reads; string constants of the SDK are constructors.
\<close>

datatype effect = Effect_allow | Effect_deny | Effect_other bytes
datatype data_scope = Scope_owner | Scope_other bytes
datatype operator = Op_equal | Op_other bytes
datatype predicate_value = Val_string bytes | Val_other

datatype predicate =
  Predicate (p_fact: bytes) (p_operator: operator) (p_value: predicate_value)
    (p_path: "bytes list") (p_all: "predicate list") (p_any: "predicate list")
    (p_not: "predicate option")

record function_grant =
  fg_resource :: bytes
  fg_action :: bytes
  fg_effect :: effect

record data_policy =
  dp_resource :: bytes
  dp_action :: bytes
  dp_effect :: effect
  dp_scopes :: "data_scope list"
  dp_predicate :: predicate

record guardrail =
  gr_resource :: bytes
  gr_action :: bytes
  gr_effect :: effect
  gr_field :: bytes

record access_bundle =
  ab_workspace :: bytes
  ab_subject :: bytes
  ab_grants :: "function_grant list"
  ab_policies :: "data_policy list"
  ab_guardrails :: "guardrail list"

record principal =
  pr_workspace :: bytes
  pr_user :: bytes
  pr_role :: bytes
  pr_bundle :: "access_bundle option"

definition job_permission_denied :: "bytes \<Rightarrow> err" where
  "job_permission_denied key =
     Err_app Kind_forbidden ''backend.data_exchange.job_permission_denied'' (trim_space key)"

definition permission_parts :: "bytes \<Rightarrow> (bytes \<times> bytes) option" where
  "permission_parts key =
     (let key = trim_space key; separator = last_index_byte key (CHR ''.'')
      in if separator \<le> 0 \<or> separator = int (length key) - 1 then None
         else Some (take (nat separator) key, drop (nat separator + 1) key))"

fun grants_loop :: "bytes \<Rightarrow> bytes \<Rightarrow> bool \<Rightarrow> function_grant list \<Rightarrow> bool" where
  "grants_loop resource action allowed [] = allowed"
| "grants_loop resource action allowed (g # gs) =
     (if trim_space (fg_resource g) \<noteq> resource \<or> trim_space (fg_action g) \<noteq> action
      then grants_loop resource action allowed gs
      else if fg_effect g = Effect_deny then False
      else grants_loop resource action (allowed \<or> fg_effect g = Effect_allow) gs)"

definition has_exact_function_grant :: "access_bundle \<Rightarrow> bytes \<Rightarrow> bytes \<Rightarrow> bool" where
  "has_exact_function_grant acl resource action =
     grants_loop resource action False (ab_grants acl)"

definition is_owner_predicate :: "predicate \<Rightarrow> bool" where
  "is_owner_predicate p =
     (case p_value p of
        Val_other \<Rightarrow> False
      | Val_string value \<Rightarrow>
          trim_space (p_fact p) = ''owner_user_id'' \<and> p_operator p = Op_equal \<and>
          trim_space value = ''$subject.id'' \<and> length (p_path p) = 0 \<and> length (p_all p) = 0 \<and>
          length (p_any p) = 0 \<and> p_not p = None)"

text \<open>The policy loop: \<open>None\<close> is the early return of a denial, otherwise \<open>matchedAllow\<close>.\<close>

fun policies_loop :: "bytes \<Rightarrow> bytes \<Rightarrow> bool \<Rightarrow> data_policy list \<Rightarrow> bool option" where
  "policies_loop resource action matched [] = Some matched"
| "policies_loop resource action matched (p # ps) =
     (if trim_space (dp_resource p) \<noteq> resource \<or> trim_space (dp_action p) \<noteq> action
      then policies_loop resource action matched ps
      else if dp_effect p \<noteq> Effect_allow \<or> length (dp_scopes p) \<noteq> 1 \<or>
              dp_scopes p ! 0 \<noteq> Scope_owner \<or> \<not> is_owner_predicate (dp_predicate p)
      then None
      else policies_loop resource action True ps)"

text \<open>The guardrail loop: whether some guardrail denies.\<close>

fun guardrails_loop :: "bytes \<Rightarrow> bytes \<Rightarrow> guardrail list \<Rightarrow> bool" where
  "guardrails_loop resource action [] = False"
| "guardrails_loop resource action (g # gs) =
     (let resource_matches = (gr_resource g = [] \<or> gr_resource g = ''*'' \<or>
                              trim_space (gr_resource g) = resource);
          action_matches = (gr_action g = [] \<or> gr_action g = ''*'' \<or>
                            trim_space (gr_action g) = action)
      in if \<not> resource_matches \<or> \<not> action_matches \<or> gr_effect g \<noteq> Effect_deny \<or>
            trim_space (gr_field g) \<noteq> []
         then guardrails_loop resource action gs
         else True)"

text \<open>The context carries a principal or none (\<open>PrincipalFromContext\<close>).\<close>

definition resolve_job_access :: "principal option \<Rightarrow> job_request \<Rightarrow> bytes \<Rightarrow> err + job_access" where
  "resolve_job_access ctx request key =
     (case ctx of None \<Rightarrow> Inl (job_permission_denied key) | Some who \<Rightarrow>
      case pr_bundle who of None \<Rightarrow> Inl (job_permission_denied key) | Some acl \<Rightarrow>
      let workspace = trim_space (sc_workspace (jq_scope request));
          actor = trim_space (sc_actor (jq_scope request));
          subject_workspace = trim_space (ab_workspace acl);
          subject_id = trim_space (ab_subject acl)
      in if workspace = [] \<or> actor = [] \<or> workspace \<noteq> trim_space (pr_workspace who) \<or>
            actor \<noteq> trim_space (pr_user who) \<or> workspace \<noteq> subject_workspace \<or>
            actor \<noteq> subject_id
         then Inl (job_permission_denied key)
         else let key = trim_space key in
         case permission_parts key of None \<Rightarrow> Inl (job_permission_denied key)
         | Some (resource, action) \<Rightarrow>
         if \<not> has_exact_function_grant acl resource action
         then Inl (job_permission_denied key)
         else case policies_loop resource action False (ab_policies acl) of
           None \<Rightarrow> Inl (job_permission_denied key)
         | Some False \<Rightarrow> Inl (job_permission_denied key)
         | Some True \<Rightarrow>
         if guardrails_loop resource action (ab_guardrails acl)
         then Inl (job_permission_denied key)
         else Inr (normalized \<lparr>ac_permission = key, ac_workspace = workspace,
                               ac_owner = subject_id\<rparr>))"

subsection \<open>What the loops decide\<close>

definition for_permission :: "bytes \<Rightarrow> bytes \<Rightarrow> bytes \<Rightarrow> bytes \<Rightarrow> bool" where
  "for_permission resource action r a \<longleftrightarrow> trim_space r = resource \<and> trim_space a = action"

definition denies :: "bytes \<Rightarrow> bytes \<Rightarrow> guardrail \<Rightarrow> bool" where
  "denies resource action g \<longleftrightarrow>
     (gr_resource g \<in> {[], ''*''} \<or> trim_space (gr_resource g) = resource) \<and>
     (gr_action g \<in> {[], ''*''} \<or> trim_space (gr_action g) = action) \<and>
     gr_effect g = Effect_deny \<and> trim_space (gr_field g) = []"

definition owner_policy :: "data_policy \<Rightarrow> bool" where
  "owner_policy p \<longleftrightarrow> dp_effect p = Effect_allow \<and> dp_scopes p = [Scope_owner] \<and>
     is_owner_predicate (dp_predicate p)"

lemma grants_loop_iff:
  "grants_loop resource action allowed gs \<longleftrightarrow>
     (\<forall>g \<in> set gs. for_permission resource action (fg_resource g) (fg_action g) \<longrightarrow>
        fg_effect g \<noteq> Effect_deny) \<and>
     (allowed \<or> (\<exists>g \<in> set gs. for_permission resource action (fg_resource g) (fg_action g) \<and>
        fg_effect g = Effect_allow))"
  by (induction resource action allowed gs rule: grants_loop.induct) (auto simp: for_permission_def)

lemma single_scope: "length ss = 1 \<and> ss ! 0 = Scope_owner \<longleftrightarrow> ss = [Scope_owner]"
  by (cases ss) auto

lemma policies_loop_iff:
  "policies_loop resource action matched ps = Some True \<longleftrightarrow>
     (\<forall>p \<in> set ps. for_permission resource action (dp_resource p) (dp_action p) \<longrightarrow> owner_policy p) \<and>
     (matched \<or> (\<exists>p \<in> set ps. for_permission resource action (dp_resource p) (dp_action p)))"
proof (induction resource action matched ps rule: policies_loop.induct)
  case (2 resource action matched p ps)
  have "(dp_effect p \<noteq> Effect_allow \<or> length (dp_scopes p) \<noteq> 1 \<or> dp_scopes p ! 0 \<noteq> Scope_owner \<or>
      \<not> is_owner_predicate (dp_predicate p)) \<longleftrightarrow> \<not> owner_policy p"
    using single_scope [of "dp_scopes p"] by (auto simp: owner_policy_def)
  with 2 show ?case by (simp add: for_permission_def) blast
qed simp

lemma guardrails_loop_iff:
  "guardrails_loop resource action gs \<longleftrightarrow> (\<exists>g \<in> set gs. denies resource action g)"
proof (induction gs)
  case (Cons g gs)
  have "guardrails_loop resource action (g # gs) =
      (denies resource action g \<or> guardrails_loop resource action gs)"
    unfolding guardrails_loop.simps Let_def denies_def by (simp only: if_bool_eq_disj) blast
  with Cons show ?case by simp
qed simp

lemma permission_parts_iff:
  "permission_parts key = Some (resource, action) \<longleftrightarrow>
     trim_space key = resource @ ''.'' @ action \<and> resource \<noteq> [] \<and> action \<noteq> [] \<and>
     CHR ''.'' \<notin> set action"
proof
  let ?k = "trim_space key" let ?i = "last_index_byte ?k (CHR ''.'')"
  assume "permission_parts key = Some (resource, action)"
  then have i: "0 < ?i" "?i \<noteq> int (length ?k) - 1"
    and parts: "resource = take (nat ?i) ?k" "action = drop (nat ?i + 1) ?k"
    by (auto simp: permission_parts_def Let_def split: if_splits)
  have split: "?k = take (nat ?i) ?k @ CHR ''.'' # drop (nat ?i + 1) ?k"
    "CHR ''.'' \<notin> set (drop (nat ?i + 1) ?k)"
    using last_index_byte_split [of ?k "CHR ''.''"] i(1) by auto
  have "length action \<noteq> 0" "length resource \<noteq> 0"
    using i last_index_byte_bounds [of ?k "CHR ''.''"] unfolding parts length_take length_drop
    by linarith+
  moreover have "?k = resource @ CHR ''.'' # action" unfolding parts by (rule split(1))
  moreover have "CHR ''.'' \<notin> set action" unfolding parts by (rule split(2))
  ultimately show "?k = resource @ ''.'' @ action \<and> resource \<noteq> [] \<and> action \<noteq> [] \<and>
      CHR ''.'' \<notin> set action"
    by auto
next
  assume k: "trim_space key = resource @ ''.'' @ action \<and> resource \<noteq> [] \<and> action \<noteq> [] \<and>
      CHR ''.'' \<notin> set action"
  then have "last_index_byte (trim_space key) (CHR ''.'') = int (length resource)"
    by (simp add: last_index_byte_append)
  with k show "permission_parts key = Some (resource, action)"
    by (simp add: permission_parts_def Let_def)
qed

text \<open>
  What access a principal must hold, as one condition over the bundle: the same identity in the
  request, the principal and the bundle; the exact function grant, allowed and not denied; at
  least one data policy for the permission, all of them owner policies; no denying guardrail.
\<close>

definition holds_owner_access :: "principal \<Rightarrow> access_bundle \<Rightarrow> job_request \<Rightarrow> bytes \<Rightarrow> bytes \<Rightarrow> bool" where
  "holds_owner_access who acl request resource action \<longleftrightarrow>
     (let workspace = trim_space (sc_workspace (jq_scope request));
          actor = trim_space (sc_actor (jq_scope request));
          mine = for_permission resource action
      in workspace \<noteq> [] \<and> actor \<noteq> [] \<and>
         workspace = trim_space (pr_workspace who) \<and> workspace = trim_space (ab_workspace acl) \<and>
         actor = trim_space (pr_user who) \<and> actor = trim_space (ab_subject acl) \<and>
         (\<exists>g \<in> set (ab_grants acl). mine (fg_resource g) (fg_action g) \<and> fg_effect g = Effect_allow) \<and>
         (\<forall>g \<in> set (ab_grants acl). mine (fg_resource g) (fg_action g) \<longrightarrow> fg_effect g \<noteq> Effect_deny) \<and>
         (\<exists>p \<in> set (ab_policies acl). mine (dp_resource p) (dp_action p)) \<and>
         (\<forall>p \<in> set (ab_policies acl). mine (dp_resource p) (dp_action p) \<longrightarrow> owner_policy p) \<and>
         \<not> (\<exists>g \<in> set (ab_guardrails acl). denies resource action g))"

lemma resolve_result:
  "resolve_job_access ctx request key = Inl (job_permission_denied key) \<or>
   (\<exists>a. resolve_job_access ctx request key = Inr a)"
  by (auto simp: resolve_job_access_def Let_def job_permission_denied_def
      split: option.splits bool.splits prod.splits)

lemma resolve_job_access_cases:
  assumes "pr_bundle who = Some acl"
  shows "resolve_job_access (Some who) request key =
    (case permission_parts key of
       None \<Rightarrow> Inl (job_permission_denied key)
     | Some (resource, action) \<Rightarrow>
         if holds_owner_access who acl request resource action
         then Inr \<lparr>ac_permission = trim_space key,
                   ac_workspace = trim_space (sc_workspace (jq_scope request)),
                   ac_owner = trim_space (sc_actor (jq_scope request))\<rparr>
         else Inl (job_permission_denied key))"
proof -
  have idem: "permission_parts (trim_space key) = permission_parts key"
    "job_permission_denied (trim_space key) = job_permission_denied key"
    by (simp_all add: permission_parts_def job_permission_denied_def)
  have policies: "(case policies_loop r a False ps of None \<Rightarrow> x | Some False \<Rightarrow> x | Some True \<Rightarrow> y) =
      (if policies_loop r a False ps = Some True then y else x)" for r a ps and x y :: "err + job_access"
    by (auto split: option.splits bool.splits)
  show ?thesis
  proof (cases "permission_parts key")
    case None
    then show ?thesis by (simp add: resolve_job_access_def assms Let_def idem)
  next
    case (Some ra)
    obtain resource action where ra: "ra = (resource, action)" by (cases ra)
    let ?workspace = "trim_space (sc_workspace (jq_scope request))"
    let ?actor = "trim_space (sc_actor (jq_scope request))"
    let ?other = "?workspace = [] \<or> ?actor = [] \<or> ?workspace \<noteq> trim_space (pr_workspace who) \<or>
      ?actor \<noteq> trim_space (pr_user who) \<or> ?workspace \<noteq> trim_space (ab_workspace acl) \<or>
      ?actor \<noteq> trim_space (ab_subject acl)"
    have "holds_owner_access who acl request resource action \<longleftrightarrow>
      \<not> ?other \<and> has_exact_function_grant acl resource action \<and>
      policies_loop resource action False (ab_policies acl) = Some True \<and>
      \<not> guardrails_loop resource action (ab_guardrails acl)"
      unfolding holds_owner_access_def Let_def has_exact_function_grant_def grants_loop_iff
        policies_loop_iff guardrails_loop_iff by blast
    then show ?thesis
      unfolding resolve_job_access_def Let_def idem Some ra policies option.case assms prod.case
      by (cases ?other) (auto simp: normalized_def)
  qed
qed

text \<open>
  C10: \<open>ResolveJobAccess\<close> grants access exactly when the principal holds the exact function grant
  and only owner data policies for the permission, under one identity, with no denying guardrail;
  the access it returns is the permission, workspace and actor of the request, and every other
  outcome is the one forbidden error.
\<close>

theorem resolve_job_access_iff:
  "(resolve_job_access ctx request key = Inr access \<longleftrightarrow>
     (\<exists>who acl resource action.
        ctx = Some who \<and> pr_bundle who = Some acl \<and>
        trim_space key = resource @ ''.'' @ action \<and> resource \<noteq> [] \<and> action \<noteq> [] \<and>
        CHR ''.'' \<notin> set action \<and> holds_owner_access who acl request resource action \<and>
        access = \<lparr>ac_permission = trim_space key, ac_workspace = trim_space (sc_workspace (jq_scope request)),
                  ac_owner = trim_space (sc_actor (jq_scope request))\<rparr>)) \<and>
   ((\<nexists>a. resolve_job_access ctx request key = Inr a) \<longleftrightarrow>
     resolve_job_access ctx request key = Inl (job_permission_denied key))"
  (is "(?lhs \<longleftrightarrow> ?rhs) \<and> _")
proof
  show "?lhs \<longleftrightarrow> ?rhs"
  proof (cases "\<exists>who acl. ctx = Some who \<and> pr_bundle who = Some acl")
    case False
    then show ?thesis by (auto simp: resolve_job_access_def split: option.splits)
  next
    case True
    then obtain who acl where c: "ctx = Some who" "pr_bundle who = Some acl"
      by blast
    let ?k = "\<lambda>resource action. trim_space key = resource @ ''.'' @ action \<and> resource \<noteq> [] \<and>
      action \<noteq> [] \<and> CHR ''.'' \<notin> set action"
    show ?thesis
    proof (cases "permission_parts key")
      case None
      then have "\<not> ?k resource action" for resource action
        using permission_parts_iff [of key resource action] by simp
      with None show ?thesis
        unfolding c(1) resolve_job_access_cases [OF c(2)] by auto
    next
      case (Some ra)
      obtain resource action where ra: "ra = (resource, action)" by (cases ra)
      have uniq: "?k r a \<longleftrightarrow> r = resource \<and> a = action" for r a
        using permission_parts_iff [of key r a] Some ra by auto
      let ?access = "\<lparr>ac_permission = trim_space key, ac_workspace = trim_space (sc_workspace (jq_scope request)),
                  ac_owner = trim_space (sc_actor (jq_scope request))\<rparr>"
      have rhs: "?rhs \<longleftrightarrow> holds_owner_access who acl request resource action \<and> access = ?access"
      proof
        assume ?rhs
        then obtain w b r a where w: "ctx = Some w" "pr_bundle w = Some b"
          and ra: "?k r a" and holds: "holds_owner_access w b request r a" and "access = ?access"
          by (elim exE conjE) blast
        moreover have "r = resource" "a = action" using ra uniq by (simp_all only: simp_thms)
        moreover have "w = who" "b = acl" using w c by simp_all
        ultimately show "holds_owner_access who acl request resource action \<and> access = ?access"
          by (simp only: simp_thms)
      next
        assume "holds_owner_access who acl request resource action \<and> access = ?access"
        moreover have "?k resource action" using uniq by (simp only: simp_thms)
        ultimately show ?rhs using c by blast
      qed
      show ?thesis
        unfolding rhs unfolding c(1) resolve_job_access_cases [OF c(2)] Some ra option.case prod.case
        by (cases "holds_owner_access who acl request resource action") auto
    qed
  qed
  show "(\<nexists>a. resolve_job_access ctx request key = Inr a) \<longleftrightarrow>
     resolve_job_access ctx request key = Inl (job_permission_denied key)"
    using resolve_result [of ctx request key] by auto
qed

end
