(* ===== verification/Repository.thy ===== *)
theory Repository
  imports Download SubjectErasure JobAuthorization Validation
begin

text \<open>
  The interfaces between the layers: the persistence boundary of
  \<open>internal/domain/dataexchange/repository/job_repository.go\<close> as records of operations, the SQL
  store as their implementation, and the host's providers as the code calls them. The SDK's CSV
  codec and its \<open>Validate\<close> methods are parameters.
\<close>

subsection \<open>The repository\<close>

record repository =
  rp_submit_import :: "import_request \<Rightarrow> (job \<times> bool) op"
  rp_submit_export :: "export_request \<Rightarrow> (job \<times> bool) op"
  rp_jobs :: "job_list_request \<Rightarrow> job_access \<Rightarrow> job list op"
  rp_job :: "job_request \<Rightarrow> job_access \<Rightarrow> job op"
  rp_cancel :: "job_request \<Rightarrow> job_access \<Rightarrow> job op"
  rp_artifact :: "job_request \<Rightarrow> job_access \<Rightarrow> artifact op"
  rp_claim :: "bytes \<Rightarrow> duration \<Rightarrow> work_item option op"
  rp_claim_job :: "job_request \<Rightarrow> bytes \<Rightarrow> duration \<Rightarrow> work_item option op"
  rp_chunks :: "bytes \<Rightarrow> bytes \<Rightarrow> bytes \<Rightarrow> read_result list op"
  rp_identity :: "bytes \<Rightarrow> bytes \<Rightarrow> (bytes \<times> int) op"
  rp_commit_page :: "work_item \<Rightarrow> int \<Rightarrow> bytes \<Rightarrow> bytes \<Rightarrow> int \<Rightarrow> int \<Rightarrow> unit op"
  rp_progress :: "work_item \<Rightarrow> int \<Rightarrow> int \<Rightarrow> unit op"
  rp_complete :: "work_item \<Rightarrow> artifact_record option \<Rightarrow> unit op"
  rp_fail :: "work_item \<Rightarrow> failure_plan \<Rightarrow> unit op"
  rp_heartbeat :: "work_item \<Rightarrow> duration \<Rightarrow> unit op"

record subject_repository =
  sr_preview :: "bytes \<Rightarrow> bytes \<Rightarrow> bytes op"
  sr_prepare :: "erasure_request \<Rightarrow> bytes op"
  sr_erase :: "erasure_request \<Rightarrow> bytes \<Rightarrow> bytes op"

text \<open>The SQL store; \<open>check\<close> is \<open>JobRequest.Validate\<close>.\<close>

definition sql_repository :: "(job_request \<Rightarrow> err option) \<Rightarrow> repository" where
  "sql_repository check =
     \<lparr>rp_submit_import = submit_import, rp_submit_export = submit_export, rp_jobs = store_jobs,
      rp_job = store_job, rp_cancel = store_cancel, rp_artifact = store_artifact, rp_claim = claim,
      rp_claim_job = claim_job check, rp_chunks = chunks, rp_identity = result_identity,
      rp_commit_page = commit_result_page, rp_progress = progress, rp_complete = complete,
      rp_fail = fail, rp_heartbeat = heartbeat\<rparr>"

definition sql_subjects :: subject_repository where
  "sql_subjects =
     \<lparr>sr_preview = store_preview_subject, sr_prepare = store_prepare_erasure,
      sr_erase = store_erase_prepared\<rparr>"

subsection \<open>Providers and the CSV codec\<close>

text \<open>
  A provider answers a call from the calls made before it. The optional interfaces of
  \<open>modulehost\<close> that the code asks for with a type assertion are options.
\<close>

record import_provider =
  mp_validate :: "event list \<Rightarrow> import_batch \<Rightarrow> err + int"
  mp_apply :: "event list \<Rightarrow> import_batch \<Rightarrow> err + int"
  mp_artifact :: "((event list \<Rightarrow> import_artifact \<Rightarrow> err + int) \<times>
                   (event list \<Rightarrow> import_artifact \<Rightarrow> err + int)) option"

record export_provider =
  xp_read_page :: "event list \<Rightarrow> page_request \<Rightarrow> err + export_page"
  xp_plan :: "(event list \<Rightarrow> export_plan_request \<Rightarrow> err + export_plan) option"
  xp_build :: "(event list \<Rightarrow> export_plan_request \<Rightarrow> err + export_artifact) option"
  xp_complete :: "(event list \<Rightarrow> export_completion \<Rightarrow> err + unit) option"

record host =
  h_import :: "bytes \<Rightarrow> import_provider option"
  h_export :: "bytes \<Rightarrow> export_provider option"

text \<open>
  \<open>DecodeCSV\<close> under its limits on rows and columns: the headers, the records it hands to the
  callback in order, and the error it ends with. The encoder, with its limit on bytes: the answer
  to writing one more row after those written so far, and what \<open>Close\<close> leaves in the buffer.
\<close>

record codec =
  cd_decode :: "int \<Rightarrow> int \<Rightarrow> read_result list \<Rightarrow> bytes list \<times> import_row list \<times> err option"
  cd_write :: "int \<Rightarrow> bytes list list \<Rightarrow> bytes list \<Rightarrow> err option"
  cd_close :: "int \<Rightarrow> bytes list list \<Rightarrow> err + bytes"

end
