(* ===== verification/Processing.thy ===== *)
theory Processing
  imports Repository
begin

text \<open>
  What a worker does with a claimed job (\<open>Process\<close>, \<open>processImport\<close>, \<open>processImportArtifact\<close>,
  \<open>readImport\<close>, \<open>processExport\<close>, \<open>processExportArtifact\<close>, \<open>processClaimed\<close> of
  \<open>internal/application/dataexchange/service.go\<close>), over any repository, host and codec. The
  heartbeat goroutine of \<open>processWithHeartbeat\<close> runs beside it: here only its interval; that its
  writes and those of other workers interleave with the processing is the step relation of the
  theory \<open>Fleet\<close>. A context that is cancelled under the processing shows as a statement that fails.
  A stream of chunks is read ahead of the calls to the provider, which do not look at the database.
\<close>

definition import_batch_rows :: nat where
  "import_batch_rows = 500"

definition import_max_rows :: int where
  "import_max_rows = 1000000"

definition import_max_columns :: int where
  "import_max_columns = 512"

definition export_page_max_bytes :: int where
  "export_page_max_bytes = 16 * 2 ^ 20"

subsection \<open>Imports\<close>

text \<open>The state of \<open>readImport\<close>'s closures: the buffered rows, the counters.\<close>

record import_state =
  is_rows :: "import_row list"
  is_total :: int
  is_batch :: int
  is_rejected :: int

definition batch_of :: "work_item \<Rightarrow> bytes list \<Rightarrow> bool \<Rightarrow> int \<Rightarrow> import_row list \<Rightarrow> import_batch" where
  "batch_of x headers final n rows =
     \<lparr>ib_scope = w_scope x, ib_object_key = w_object_key x, ib_job = j_id (w_job x),
      ib_chunk = j_id (w_job x) @ '':'' @ int_decimal n, ib_attempt = w_attempts x + 1,
      ib_final = final, ib_headers = headers, ib_rows = rows\<rparr>"

definition flush ::
  "(import_batch \<Rightarrow> int op) \<Rightarrow> work_item \<Rightarrow> bytes list \<Rightarrow> bool \<Rightarrow> import_state \<Rightarrow> import_state op" where
  "flush handle x headers final s =
     (if is_rows s = [] then ret s
      else and_then (handle (batch_of x headers final (is_batch s + 1) (is_rows s))) (\<lambda>rejected.
        ret (s\<lparr>is_rows := [], is_batch := is_batch s + 1, is_rejected := wrap64 (is_rejected s + rejected)\<rparr>)))"

text \<open>The callback of \<open>DecodeCSV\<close>, once per record.\<close>

fun feed ::
  "(import_batch \<Rightarrow> int op) \<Rightarrow> work_item \<Rightarrow> bytes list \<Rightarrow> import_row list \<Rightarrow> import_state \<Rightarrow>
   import_state op" where
  "feed handle x headers [] s = ret s"
| "feed handle x headers (r # rs) s =
     and_then (if length (is_rows s) = import_batch_rows then flush handle x headers False s else ret s)
       (\<lambda>s. feed handle x headers rs (s\<lparr>is_total := is_total s + 1, is_rows := is_rows s @ [r]\<rparr>))"

definition read_import ::
  "repository \<Rightarrow> codec \<Rightarrow> work_item \<Rightarrow> (import_batch \<Rightarrow> int op) \<Rightarrow> (int \<times> int) op" where
  "read_import repo csv x handle =
     and_then (rp_chunks repo (sc_workspace (w_scope x)) (j_id (w_job x)) ''source'') (\<lambda>source.
     case cd_decode csv import_max_rows import_max_columns source of (headers, records, e) \<Rightarrow>
     and_then (feed handle x headers records
         \<lparr>is_rows = [], is_total = 0, is_batch = 0, is_rejected = 0\<rparr>) (\<lambda>s.
     case e of
       Some err \<Rightarrow> throw err
     | None \<Rightarrow>
       if headers = [] then throw Err_header_required
       else and_then (flush handle x headers True s) (\<lambda>s. ret (is_total s, is_rejected s))))"

definition validating :: "import_provider \<Rightarrow> import_batch \<Rightarrow> int op" where
  "validating p b = call (\<lambda>past. mp_validate p past b) (Validate_batch b)"

definition applying :: "import_provider \<Rightarrow> import_batch \<Rightarrow> int op" where
  "applying p b = call (\<lambda>past. mp_apply p past b) (Apply_batch b)"

definition rejected_rows :: "bytes \<Rightarrow> int \<Rightarrow> err" where
  "rejected_rows what n = Err_msg (what @ '' rejected '' @ int_decimal n @ '' rows'')"

definition import_rows :: "repository \<Rightarrow> codec \<Rightarrow> work_item \<Rightarrow> import_provider \<Rightarrow> unit op" where
  "import_rows repo csv x p =
     and_then (read_import repo csv x (validating p)) (\<lambda>(count, rejected).
     if 0 < rejected then throw (rejected_rows ''Data Exchange import'' rejected)
     else
     and_then (rp_progress repo x 0 count) (\<lambda>_.
     and_then (read_import repo csv x (applying p)) (\<lambda>(_, rejected).
     if 0 < rejected then throw (rejected_rows ''Data Exchange import apply'' rejected)
     else
     and_then (rp_progress repo x count count) (\<lambda>_.
     rp_complete repo x None))))"

subsection \<open>Imports of whole files\<close>

record import_metadata =
  md_filename :: bytes
  md_content_type :: bytes
  md_options :: bytes

definition unmarshal_metadata :: "bytes \<Rightarrow> import_metadata option" where
  "unmarshal_metadata =
     unmarshal (set_struct
       [(''filename'', set_string (\<lambda>s m. m\<lparr>md_filename := s\<rparr>)),
        (''content_type'', set_string (\<lambda>s m. m\<lparr>md_content_type := s\<rparr>)),
        (''options'', set_raw (\<lambda>v m. m\<lparr>md_options := v\<rparr>))])
       \<lparr>md_filename = [], md_content_type = [], md_options = []\<rparr>"

definition whole_file ::
  "repository \<Rightarrow> work_item \<Rightarrow> import_metadata \<Rightarrow> (import_artifact \<Rightarrow> int op) \<Rightarrow> int op" where
  "whole_file repo x m handle =
     and_then (rp_chunks repo (sc_workspace (w_scope x)) (j_id (w_job x)) ''source'') (\<lambda>source.
     handle \<lparr>ia_scope = w_scope x, ia_object_key = w_object_key x, ia_job = j_id (w_job x),
             ia_filename = md_filename m, ia_content_type = md_content_type m,
             ia_options = md_options m, ia_content = source\<rparr>)"

definition import_artifact ::
  "repository \<Rightarrow> work_item \<Rightarrow> (event list \<Rightarrow> import_artifact \<Rightarrow> err + int) \<Rightarrow>
   (event list \<Rightarrow> import_artifact \<Rightarrow> err + int) \<Rightarrow> unit op" where
  "import_artifact repo x validate apply_file =
     (case unmarshal_metadata (w_payload x) of
        None \<Rightarrow> throw (Err_msg ''decode Data Exchange import artifact metadata'')
      | Some m \<Rightarrow>
        and_then (whole_file repo x m (\<lambda>f. call (\<lambda>past. validate past f) (Validate_artifact f))) (\<lambda>validated.
        and_then (rp_progress repo x 0 validated) (\<lambda>_.
        and_then (whole_file repo x m (\<lambda>f. call (\<lambda>past. apply_file past f) (Apply_artifact f))) (\<lambda>applied.
        if applied \<noteq> validated
        then throw (Err_msg (''Data Exchange import artifact applied '' @ int_decimal applied @
               '' records; validated '' @ int_decimal validated))
        else
        and_then (rp_progress repo x applied applied) (\<lambda>_.
        rp_complete repo x None)))))"

definition process_import :: "repository \<Rightarrow> host \<Rightarrow> codec \<Rightarrow> work_item \<Rightarrow> unit op" where
  "process_import repo h csv x =
     (case h_import h (j_provider (w_job x)) of
        None \<Rightarrow> throw (Err_msg ''import provider unavailable'')
      | Some p \<Rightarrow>
        (case mp_artifact p of
           Some (validate, apply_file) \<Rightarrow> import_artifact repo x validate apply_file
         | None \<Rightarrow> import_rows repo csv x p))"

subsection \<open>Paged exports\<close>

text \<open>One page through the encoder: the header row unless it was written, then the rows.\<close>

fun write_rows :: "codec \<Rightarrow> nat \<Rightarrow> bytes list list \<Rightarrow> bytes list list \<Rightarrow> err + bytes list list" where
  "write_rows csv width written [] = Inr written"
| "write_rows csv width written (row # rows) =
     (if length row \<noteq> width
      then Inl (Err_msg (''export provider returned a row with '' @ nat_decimal (length row) @
             '' columns; expected '' @ nat_decimal width))
      else case cd_write csv export_page_max_bytes written row of
             Some e \<Rightarrow> Inl e
           | None \<Rightarrow> write_rows csv width (written @ [row]) rows)"

definition encode_page :: "codec \<Rightarrow> bool \<Rightarrow> export_page \<Rightarrow> err + bytes" where
  "encode_page csv header page =
     (case (if header then Inr []
            else if pg_columns page = [] then Inl (Err_msg ''export provider returned no columns'')
            else case cd_write csv export_page_max_bytes [] (pg_columns page) of
                   Some e \<Rightarrow> Inl e | None \<Rightarrow> Inr [pg_columns page]) of
        Inl e \<Rightarrow> Inl e
      | Inr written \<Rightarrow>
        (case write_rows csv (length (pg_columns page)) written (pg_rows page) of
           Inl e \<Rightarrow> Inl e
         | Inr written \<Rightarrow> cd_close csv export_page_max_bytes written))"

definition page_request_of :: "work_item \<Rightarrow> instant \<Rightarrow> bytes \<Rightarrow> page_request" where
  "page_request_of x expires cursor =
     \<lparr>pr_scope = w_scope x, pr_object_key = w_object_key x, pr_reference = j_reference (w_job x),
      pr_options = w_payload x, pr_cursor = cursor, pr_page_size = 500, pr_job = j_id (w_job x),
      pr_expires_at = expires\<rparr>"

text \<open>
  The page loop. Its provider chooses the cursors and may never end it: \<open>None\<close> when \<open>fuel\<close> pages
  were not enough.
\<close>

fun export_pages ::
  "nat \<Rightarrow> repository \<Rightarrow> codec \<Rightarrow> export_provider \<Rightarrow> work_item \<Rightarrow> instant \<Rightarrow> bytes \<Rightarrow> int \<Rightarrow> int \<Rightarrow> bool \<Rightarrow>
   (int \<times> int) option op" where
  "export_pages 0 repo csv p x expires cursor seq count header = ret None"
| "export_pages (Suc fuel) repo csv p x expires cursor seq count header =
     (if \<not> (seq = 0 \<or> cursor \<noteq> []) then ret (Some (seq, count))
      else
      and_then (call (\<lambda>past. xp_read_page p past (page_request_of x expires cursor))
          (Read_page (page_request_of x expires cursor))) (\<lambda>page.
      and_then (lift (encode_page csv header page)) (\<lambda>content.
      let next_cursor = pg_next_cursor page; count = count + int (length (pg_rows page)) in
      and_then
        (if content \<noteq> []
         then and_then (rp_commit_page repo x seq content next_cursor count (pg_total page))
                (\<lambda>_. ret (seq + 1))
         else ret seq) (\<lambda>seq.
      if next_cursor = [] then ret (Some (seq, count))
      else if next_cursor = cursor then throw (Err_msg ''export provider cursor did not advance'')
      else export_pages fuel repo csv p x expires next_cursor seq count True))))"

definition plan_request_of :: "work_item \<Rightarrow> export_plan_request" where
  "plan_request_of x =
     \<lparr>pq_scope = w_scope x, pq_object_key = w_object_key x, pq_reference = j_reference (w_job x),
      pq_options = w_payload x, pq_job = j_id (w_job x), pq_created_at = j_created_at (w_job x)\<rparr>"

definition export_plan_of :: "export_provider \<Rightarrow> work_item \<Rightarrow> export_plan op" where
  "export_plan_of p x =
     (case xp_plan p of
        None \<Rightarrow> ret \<lparr>pl_filename = w_object_key x @ ''.csv'',
                    pl_content_type = ''text/csv; charset=utf-8'',
                    pl_expires_at = j_created_at (w_job x) + 86400 * second\<rparr>
      | Some planner \<Rightarrow> call (\<lambda>past. planner past (plan_request_of x)) (Plan_export (plan_request_of x)))"

definition artifact_id_of :: "work_item \<Rightarrow> bytes" where
  "artifact_id_of x = j_id (w_job x) @ '':artifact''"

text \<open>The end of both kinds of export: the identity, the provider's completion, the artifact.\<close>

definition finish_export ::
  "repository \<Rightarrow> export_provider \<Rightarrow> work_item \<Rightarrow> bytes \<Rightarrow> bytes \<Rightarrow> instant \<Rightarrow> int \<Rightarrow> int \<Rightarrow> unit op" where
  "finish_export repo p x filename content_type expires records seq =
     and_then (rp_identity repo (sc_workspace (w_scope x)) (j_id (w_job x))) (\<lambda>(sha, size_bytes).
     let a = \<lparr>ar_id = artifact_id_of x, ar_filename = filename, ar_content_type = content_type,
              ar_sha = sha, ar_size = size_bytes, ar_expires_at = expires\<rparr>;
         completion = \<lparr>ec_scope = w_scope x, ec_object_key = w_object_key x,
              ec_reference = j_reference (w_job x), ec_options = w_payload x, ec_job = j_id (w_job x),
              ec_artifact = a, ec_rows = records, ec_result_chunks = seq\<rparr> in
     and_then
       (case xp_complete p of
          None \<Rightarrow> ret ()
        | Some finalizer \<Rightarrow> call (\<lambda>past. finalizer past completion) (Complete_export completion)) (\<lambda>_.
     rp_complete repo x (Some a)))"

definition process_pages ::
  "nat \<Rightarrow> repository \<Rightarrow> codec \<Rightarrow> export_provider \<Rightarrow> work_item \<Rightarrow> unit option op" where
  "process_pages fuel repo csv p x =
     and_then (export_plan_of p x) (\<lambda>plan.
     let filename = trim_space (pl_filename plan);
         content_type = trim_space (pl_content_type plan) in
     if filename = [] \<or> content_type = [] \<or> is_zero (pl_expires_at plan)
     then throw (Err_msg ''export provider returned an incomplete artifact plan'')
     else
     and_then (export_pages fuel repo csv p x (pl_expires_at plan) (j_cursor (w_job x))
         (j_result_chunks (w_job x)) (j_checkpoint (w_job x)) (0 < j_result_chunks (w_job x)))
       (\<lambda>done_pages.
     case done_pages of
       None \<Rightarrow> ret None
     | Some (seq, count) \<Rightarrow>
       and_then (finish_export repo p x filename content_type (pl_expires_at plan) count seq)
         (\<lambda>_. ret (Some ()))))"


subsection \<open>Exports of whole files\<close>

text \<open>
  The provider's content as the buffered reader of the code sees it: the bytes, and the error that
  ends them if it is not the end of the file (the reader repeats its last answer). \<open>io.ReadFull\<close>
  takes a chunk or what is left, \<open>Peek(1)\<close> looks whether anything follows.
\<close>

definition artifact_chunk :: nat where
  "artifact_chunk = 8388608"

definition peek_cursor :: "bytes \<Rightarrow> err option \<Rightarrow> int \<Rightarrow> err + bytes" where
  "peek_cursor rest e offset =
     (if rest \<noteq> [] then Inr (int_decimal offset)
      else case e of None \<Rightarrow> Inr [] | Some err \<Rightarrow> Inl err)"

function commit_chunks ::
  "repository \<Rightarrow> work_item \<Rightarrow> int \<Rightarrow> bytes \<Rightarrow> err option \<Rightarrow> int \<Rightarrow> int \<Rightarrow> int op" where
  "commit_chunks repo x records content e seq offset =
     (if content = [] then (case e of None \<Rightarrow> ret seq | Some err \<Rightarrow> throw err)
      else
        let part = take artifact_chunk content; rest = drop artifact_chunk content;
            offset = offset + int (length part) in
        and_then (lift (peek_cursor rest e offset)) (\<lambda>next_cursor.
        and_then (rp_commit_page repo x seq part next_cursor records records) (\<lambda>_.
          if length part < artifact_chunk then ret (seq + 1)
          else commit_chunks repo x records rest e (seq + 1) offset)))"
  by pat_completeness auto
termination
  by (relation "measure (\<lambda>(repo, x, records, content, e, seq, offset). length content)")
    (auto simp: artifact_chunk_def)

declare commit_chunks.simps [simp del]

text \<open>Where a resumed export goes on: the offset of the cursor, checked against what was committed.\<close>

definition resume_offset :: "work_item \<Rightarrow> err + int" where
  "resume_offset x =
     (if trim_space (j_cursor (w_job x)) = [] then Inr 0
      else case parse_int64 (j_cursor (w_job x)) of
             None \<Rightarrow> Inl (Err_msg (''invalid export artifact cursor '' @ j_cursor (w_job x)))
           | Some parsed \<Rightarrow>
             if parsed < 0 then Inl (Err_msg (''invalid export artifact cursor '' @ j_cursor (w_job x)))
             else Inr parsed)"

definition skip_committed ::
  "repository \<Rightarrow> work_item \<Rightarrow> int \<Rightarrow> bytes \<Rightarrow> bytes op" where
  "skip_committed repo x offset content =
     (if offset \<le> 0 then ret content
      else
        and_then (rp_identity repo (sc_workspace (w_scope x)) (j_id (w_job x)))
          (\<lambda>(committed_sha, committed_size).
        if committed_size \<noteq> offset
        then throw (Err_msg (''resume export artifact cursor '' @ int_decimal offset @
               '' does not match committed bytes '' @ int_decimal committed_size))
        else if int (length content) < offset
        then throw (Err_msg (''resume export artifact at byte '' @ int_decimal offset))
        else if hex_encode (hash_sum (hash_write hash_new (take (nat offset) content))) \<noteq> committed_sha
        then throw (Err_msg (''resume export artifact prefix changed before byte '' @ int_decimal offset))
        else ret (drop (nat offset) content)))"

definition process_artifact ::
  "repository \<Rightarrow> export_provider \<Rightarrow> (event list \<Rightarrow> export_plan_request \<Rightarrow> err + export_artifact) \<Rightarrow>
   work_item \<Rightarrow> unit op" where
  "process_artifact repo p build x =
     and_then (call (\<lambda>past. build past (plan_request_of x)) (Build_artifact (plan_request_of x))) (\<lambda>a.
     case ea_content a of
       None \<Rightarrow> throw (Err_msg ''export artifact provider returned no content'')
     | Some reader \<Rightarrow>
       let filename = trim_space (ea_filename a); content_type = trim_space (ea_content_type a) in
       if filename = [] \<or> content_type = [] \<or> is_zero (ea_expires_at a) \<or> ea_records a < 0
       then throw (Err_msg ''export artifact provider returned an incomplete artifact'')
       else
         and_then (lift (resume_offset x)) (\<lambda>offset.
         case read_all reader of (content, e) \<Rightarrow>
         and_then (skip_committed repo x offset content) (\<lambda>rest.
         and_then
           (if j_result_chunks (w_job x) = 0 \<or> trim_space (j_cursor (w_job x)) \<noteq> []
            then commit_chunks repo x (ea_records a) rest e (j_result_chunks (w_job x)) offset
            else ret (j_result_chunks (w_job x))) (\<lambda>seq.
         finish_export repo p x filename content_type (ea_expires_at a) (ea_records a) seq))))"

definition process_export ::
  "nat \<Rightarrow> repository \<Rightarrow> host \<Rightarrow> codec \<Rightarrow> work_item \<Rightarrow> unit option op" where
  "process_export fuel repo h csv x =
     (case h_export h (j_provider (w_job x)) of
        None \<Rightarrow> throw (Err_msg ''export provider unavailable'')
      | Some p \<Rightarrow>
        (case xp_build p of
           Some build \<Rightarrow> and_then (process_artifact repo p build x) (\<lambda>_. ret (Some ()))
         | None \<Rightarrow> process_pages fuel repo csv p x))"

subsection \<open>Processing a claimed job\<close>

definition process :: "nat \<Rightarrow> repository \<Rightarrow> host \<Rightarrow> codec \<Rightarrow> work_item \<Rightarrow> unit option op" where
  "process fuel repo h csv x =
     (if j_operation (w_job x) = ''import''
      then and_then (process_import repo h csv x) (\<lambda>_. ret (Some ()))
      else if j_operation (w_job x) = ''export'' then process_export fuel repo h csv x
      else throw (Err_msg (''unsupported operation '' @ j_operation (w_job x))))"

text \<open>
  A failed attempt is planned and recorded; the error is swallowed unless recording it fails too.
  \<open>None\<close>: the processing did not end.
\<close>

definition process_claimed :: "nat \<Rightarrow> repository \<Rightarrow> host \<Rightarrow> codec \<Rightarrow> work_item \<Rightarrow> unit option op" where
  "process_claimed fuel repo h csv x =
     and_then (attempt (process fuel repo h csv x)) (\<lambda>result.
     case result of
       Inr ended \<Rightarrow> ret ended
     | Inl e \<Rightarrow>
       and_then time_now (\<lambda>now.
       and_then (attempt (rp_fail repo x
           (plan_processing_failure (w_attempts x) ''processing_failed'' now))) (\<lambda>recorded.
       case recorded of
         Inr _ \<Rightarrow> ret (Some ())
       | Inl fail_error \<Rightarrow> throw (Err_joined e fail_error))))"

text \<open>The ticker of \<open>processWithHeartbeat\<close>: a third of the lease, at least ten milliseconds.\<close>

definition heartbeat_interval :: "duration \<Rightarrow> duration" where
  "heartbeat_interval ttl =
     (let ttl = (if ttl \<le> 0 then 30 * second else ttl); interval = ttl div 3
      in if interval < 10000000 then 10000000 else interval)"

text \<open>
  One round of the worker's loop in \<open>Start\<close>: up to \<open>n\<close> claims, ended by an error or an empty queue,
  each processed and its error dropped. The value is the number of jobs taken, \<open>None\<close> if one of
  them did not end.
\<close>

fun poll ::
  "nat \<Rightarrow> nat \<Rightarrow> repository \<Rightarrow> host \<Rightarrow> codec \<Rightarrow> bytes \<Rightarrow> duration \<Rightarrow> nat option op" where
  "poll fuel 0 repo h csv owner ttl = ret (Some 0)"
| "poll fuel (Suc n) repo h csv owner ttl =
     and_then (attempt (rp_claim repo owner ttl)) (\<lambda>claimed.
     case claimed of
       Inl e \<Rightarrow> ret (Some 0)
     | Inr None \<Rightarrow> ret (Some 0)
     | Inr (Some x) \<Rightarrow>
       and_then (attempt (process_claimed fuel repo h csv x)) (\<lambda>result.
       case result of
         Inr None \<Rightarrow> ret None
       | _ \<Rightarrow> and_then (poll fuel n repo h csv owner ttl) (\<lambda>k. ret (map_option Suc k))))"

definition batch_size :: "int \<Rightarrow> nat" where
  "batch_size configured = (if configured \<le> 0 then 1 else nat configured)"

end
