(* ===== verification/Service.thy ===== *)
theory Service
  imports Processing Json
begin

text \<open>
  The application facade (\<open>internal/application/dataexchange/service.go\<close> and
  \<open>subject_lifecycle.go\<close>): what each use case checks before it reaches the repository, the inline
  export, the worker's loop, and the subject lifecycle.

  The request context is the record \<open>request_context\<close>: the authenticated principal and the workspace of
  \<open>requestcontext\<close>. The \<open>Validate\<close> methods of the SDK's requests and its Action keys are the
  record \<open>sdk\<close>.
\<close>

record request_context =
  cx_principal :: "principal option"
  cx_workspace :: bytes

record sdk =
  sdk_scope :: "scope \<Rightarrow> err option"
  sdk_job :: "job_request \<Rightarrow> err option"
  sdk_list :: "job_list_request \<Rightarrow> err option"
  act_list :: bytes
  act_get :: bytes
  act_cancel :: bytes
  act_download :: bytes

record application =
  ap_runtime :: bytes
  ap_application :: bytes

record service =
  sv_application :: application
  sv_host :: host
  sv_store :: repository
  sv_subjects :: "subject_repository option"

text \<open>The check that many use cases begin with.\<close>

definition require :: "err option \<Rightarrow> 'a op \<Rightarrow> 'a op" where
  "require failed m = (case failed of Some e \<Rightarrow> throw e | None \<Rightarrow> m)"

lemma wp_require [op_simps]:
  "wp (require failed m) Q R w = (case failed of Some e \<Rightarrow> R e w | None \<Rightarrow> wp m Q R w)"
  by (simp add: require_def op_simps split: option.splits)

subsection \<open>Submitting\<close>

definition submit_import_job :: "sdk \<Rightarrow> service \<Rightarrow> import_request \<Rightarrow> (job \<times> bool) op" where
  "submit_import_job k sv r =
     require (validate_import_request (sdk_scope k) r)
       (case h_import (sv_host sv) (im_provider r) of
          None \<Rightarrow> throw (Err_msg (''Data Exchange import provider '' @ im_provider r @ '' is unavailable''))
        | Some p \<Rightarrow> rp_submit_import (sv_store sv) r)"

definition submit_export_job :: "sdk \<Rightarrow> service \<Rightarrow> export_request \<Rightarrow> (job \<times> bool) op" where
  "submit_export_job k sv r =
     require (validate_export_request (sdk_scope k) r)
       (case h_export (sv_host sv) (ex_provider r) of
          None \<Rightarrow> throw (Err_msg (''Data Exchange export provider '' @ ex_provider r @ '' is unavailable''))
        | Some p \<Rightarrow> rp_submit_export (sv_store sv) r)"

subsection \<open>Jobs\<close>

definition list_access_request :: "job_list_request \<Rightarrow> job_request" where
  "list_access_request r =
     \<lparr>jq_scope = jl_scope r, jq_job_id = ''list'', jq_provider = jl_provider r,
      jq_operation = jl_operation r\<rparr>"

definition list_jobs :: "sdk \<Rightarrow> service \<Rightarrow> request_context \<Rightarrow> job_list_request \<Rightarrow> job list op" where
  "list_jobs k sv ctx r =
     require (sdk_list k r)
       (and_then (lift (resolve_job_access (cx_principal ctx) (list_access_request r) (act_list k)))
         (\<lambda>access. rp_jobs (sv_store sv) r access))"

definition job_for_action ::
  "sdk \<Rightarrow> service \<Rightarrow> request_context \<Rightarrow> job_request \<Rightarrow> bytes \<Rightarrow> job op" where
  "job_for_action k sv ctx r permission =
     require (sdk_job k r)
       (if permission \<noteq> act_get k \<and> permission \<noteq> act_download k
        then throw (Err_msg (''unsupported Data Exchange job permission '' @ permission))
        else and_then (lift (resolve_job_access (cx_principal ctx) r permission))
          (\<lambda>access. rp_job (sv_store sv) r access))"

definition get_job :: "sdk \<Rightarrow> service \<Rightarrow> request_context \<Rightarrow> job_request \<Rightarrow> job op" where
  "get_job k sv ctx r = job_for_action k sv ctx r (act_get k)"

definition cancel_job :: "sdk \<Rightarrow> service \<Rightarrow> request_context \<Rightarrow> job_request \<Rightarrow> job op" where
  "cancel_job k sv ctx r =
     require (sdk_job k r)
       (and_then (lift (resolve_job_access (cx_principal ctx) r (act_cancel k)))
         (\<lambda>access. rp_cancel (sv_store sv) r access))"

definition download :: "sdk \<Rightarrow> service \<Rightarrow> request_context \<Rightarrow> job_request \<Rightarrow> artifact op" where
  "download k sv ctx r =
     require (sdk_job k r)
       (and_then (lift (resolve_job_access (cx_principal ctx) r (act_download k)))
         (\<lambda>access. rp_artifact (sv_store sv) r access))"

subsection \<open>Exports made while the request waits\<close>

definition inline_export_lease :: duration where
  "inline_export_lease = 30 * second"

definition inline_owner :: "application \<Rightarrow> bytes" where
  "inline_owner a = ap_runtime a @ '':'' @ ap_application a @ '':inline''"

text \<open>\<open>None\<close>: the processing of the export did not end within the fuel.\<close>

definition materialize_export ::
  "nat \<Rightarrow> sdk \<Rightarrow> service \<Rightarrow> codec \<Rightarrow> job_request \<Rightarrow> job option op" where
  "materialize_export fuel k sv csv r =
     require (sdk_job k r)
       (if trim_space (jq_provider r) = [] \<or> trim_space (jq_operation r) \<noteq> ''export''
        then throw (Err_msg ''Data Exchange inline export request is incomplete'')
        else
        and_then (rp_claim_job (sv_store sv) r (inline_owner (sv_application sv)) inline_export_lease)
          (\<lambda>claimed.
        and_then
          (case claimed of
             None \<Rightarrow> ret (Some ())
           | Some x \<Rightarrow> process_claimed fuel (sv_store sv) (sv_host sv) csv x) (\<lambda>ended.
        case ended of
          None \<Rightarrow> ret None
        | Some _ \<Rightarrow>
          and_then (rp_job (sv_store sv) r
              \<lparr>ac_permission = act_get k, ac_workspace = trim_space (sc_workspace (jq_scope r)),
               ac_owner = trim_space (sc_actor (jq_scope r))\<rparr>) (\<lambda>j. ret (Some j)))))"

subsection \<open>The worker\<close>

record worker_config =
  wc_enabled :: bool
  wc_poll_interval :: duration
  wc_batch_size :: int
  wc_lease_ttl :: duration

definition worker_defaults :: "worker_config \<Rightarrow> worker_config" where
  "worker_defaults c =
     (let c = (if wc_poll_interval c \<le> 0 then c\<lparr>wc_poll_interval := 250000000\<rparr> else c)
      in if wc_batch_size c \<le> 0 then c\<lparr>wc_batch_size := 1\<rparr> else c)"

definition worker_owner :: "application \<Rightarrow> bytes" where
  "worker_owner a = ap_runtime a @ '':'' @ ap_application a"

text \<open>
  The rounds of the loop: one at the start and one more for every tick before the context is done.
  The value is the number of jobs each round took, \<open>None\<close> if a job did not end.
\<close>

fun worker_rounds ::
  "nat \<Rightarrow> nat \<Rightarrow> service \<Rightarrow> codec \<Rightarrow> worker_config \<Rightarrow> nat list option op" where
  "worker_rounds fuel ticks sv csv c =
     and_then (poll fuel (nat (wc_batch_size c)) (sv_store sv) (sv_host sv) csv
         (worker_owner (sv_application sv)) (wc_lease_ttl c)) (\<lambda>taken.
     case taken of
       None \<Rightarrow> ret None
     | Some n \<Rightarrow>
       (case ticks of
          0 \<Rightarrow> ret (Some [n])
        | Suc ticks \<Rightarrow>
          and_then (worker_rounds fuel ticks sv csv c) (\<lambda>ns. ret (map_option (Cons n) ns))))"

declare worker_rounds.simps [simp del]

definition start ::
  "nat \<Rightarrow> nat \<Rightarrow> service \<Rightarrow> codec \<Rightarrow> worker_config \<Rightarrow> nat list option op" where
  "start fuel ticks sv csv c =
     (if \<not> wc_enabled c then ret (Some [])
      else worker_rounds fuel ticks sv csv (worker_defaults c))"

subsection \<open>The subject lifecycle\<close>

definition subject_store :: "service \<Rightarrow> request_context \<Rightarrow> bytes \<Rightarrow> bytes \<Rightarrow> err + subject_repository" where
  "subject_store sv ctx workspace subject =
     (if trim_space workspace = [] \<or> workspace \<noteq> cx_workspace ctx \<or> trim_space subject = []
      then Inl (Err_msg ''Data Exchange subject lifecycle scope mismatch'')
      else case sv_subjects sv of
             None \<Rightarrow> Inl (Err_msg ''Data Exchange subject lifecycle unavailable'')
           | Some s \<Rightarrow> Inr s)"

text \<open>\<open>json.Unmarshal\<close> into \<open>[]json.RawMessage\<close>.\<close>

definition unmarshal_holds :: "bytes \<Rightarrow> bytes list option" where
  "unmarshal_holds = unmarshal (set_slice (set_raw (\<lambda>v _. v)) [] (\<lambda>vs _. vs)) []"

definition validate_subject_erasure :: "erasure_request \<Rightarrow> err option" where
  "validate_subject_erasure q =
     (if trim_space (er_request q) = [] then Some (Err_msg ''Data Exchange erasure request required'')
      else
        case (if er_legal_holds q = [] then Some [] else unmarshal_holds (er_legal_holds q)) of
          None \<Rightarrow> Some (Err_msg ''Data Exchange legal holds invalid'')
        | Some holds \<Rightarrow>
          if holds \<noteq> [] then Some (Err_msg ''Data Exchange erasure blocked by legal hold'') else None)"

definition preview_subject :: "service \<Rightarrow> request_context \<Rightarrow> bytes \<Rightarrow> bytes \<Rightarrow> bytes op" where
  "preview_subject sv ctx workspace subject =
     and_then (lift (subject_store sv ctx workspace subject)) (\<lambda>s. sr_preview s workspace subject)"

definition export_subject :: "service \<Rightarrow> request_context \<Rightarrow> bytes \<Rightarrow> bytes \<Rightarrow> bytes op" where
  "export_subject sv ctx workspace subject = preview_subject sv ctx workspace subject"

definition prepare_subject_erasure :: "service \<Rightarrow> request_context \<Rightarrow> erasure_request \<Rightarrow> bytes op" where
  "prepare_subject_erasure sv ctx q =
     require (validate_subject_erasure q)
       (and_then (lift (subject_store sv ctx (er_workspace q) (er_subject q))) (\<lambda>s. sr_prepare s q))"

definition erase_prepared_subject ::
  "service \<Rightarrow> request_context \<Rightarrow> erasure_request \<Rightarrow> bytes \<Rightarrow> bytes op" where
  "erase_prepared_subject sv ctx q raw =
     require (validate_subject_erasure q)
       (and_then (lift (subject_store sv ctx (er_workspace q) (er_subject q))) (\<lambda>s. sr_erase s q raw))"

end
