(* ===== verification/Contract.thy ===== *)
theory Contract
  imports Service StoreProperties
begin

text \<open>
  What the application layer relies on in a repository, as two interfaces: its operations keep a
  predicate of the database (\<open>job_repository\<close>), and they make no calls to providers
  (\<open>quiet_repository\<close>). The processing of jobs, the worker's loop and the use cases inherit the first
  law; the SQL store has both.
\<close>

subsection \<open>Operations that call no provider\<close>

named_theorems silent_rules \<open>rules that show an operation calls no provider\<close>

definition silent :: "'a op \<Rightarrow> bool" where
  "silent m \<longleftrightarrow> (\<forall>w. w_trace (snd (m w)) = w_trace w)"

lemma silent_wp:
  "silent m \<Longrightarrow> wp m (\<lambda>_ w'. w_trace w' = w_trace w) (\<lambda>_ w'. w_trace w' = w_trace w) w"
  by (rule wpI) (metis silent_def snd_conv)+

lemma silentI:
  "(\<And>w. wp m (\<lambda>_ w'. w_trace w' = w_trace w) (\<lambda>_ w'. w_trace w' = w_trace w) w) \<Longrightarrow> silent m"
  unfolding silent_def wp_def by (metis (mono_tags, lifting) case_prodE snd_conv sum.case_eq_if)

lemma silentD: "silent m \<Longrightarrow> m w = (r, w') \<Longrightarrow> w_trace w' = w_trace w"
  by (metis silent_def snd_conv)

lemma silent_ret [silent_rules]: "silent (ret x)"
  by (simp add: silent_def ret_def)

lemma silent_throw [silent_rules]: "silent (throw e)"
  by (simp add: silent_def throw_def)

lemma silent_lift [silent_rules]: "silent (lift r)"
  by (simp add: silent_def lift_def)

lemma silent_time_now [silent_rules]: "silent time_now"
  by (simp add: silent_def time_now_def)

lemma silent_statement [silent_rules]: "silent (statement f)"
  by (auto simp: silent_def statement_def split: sum.splits prod.splits)

lemma silent_query [silent_rules]: "silent (query f)"
  unfolding query_def by (rule silent_statement)

lemma silent_commit [silent_rules]: "silent commit_tx"
  unfolding commit_tx_def by (rule silent_query)

lemma silent_rollback [silent_rules]: "silent (rollback_tx d)"
  by (simp add: silent_def rollback_tx_def)

lemma silent_and_then [silent_rules]:
  assumes "silent m" "\<And>x. silent (f x)"
  shows "silent (and_then m f)"
proof (rule silentI, unfold wp_and_then)
  fix w :: world
  show "wp m (\<lambda>x. wp (f x) (\<lambda>_ w'. w_trace w' = w_trace w) (\<lambda>_ w'. w_trace w' = w_trace w))
      (\<lambda>_ w'. w_trace w' = w_trace w) w"
  proof (rule wp_mono [OF silent_wp [OF assms(1)]])
    fix x and w' :: world assume "w_trace w' = w_trace w"
    then show "wp (f x) (\<lambda>_ w'. w_trace w' = w_trace w) (\<lambda>_ w'. w_trace w' = w_trace w) w'"
      using silent_wp [OF assms(2)] by metis
  qed simp
qed

lemma silent_attempt [silent_rules]: "silent m \<Longrightarrow> silent (attempt m)"
  by (rule silentI) (simp add: op_simps silent_wp)

lemma silent_with_tx [silent_rules]:
  assumes "\<And>d. silent (body d)"
  shows "silent (with_tx body)"
proof (rule silentI)
  fix w
  have "wp (body d) (\<lambda>_ w'. w_trace w' = w_trace w) (\<lambda>_ w'. w_trace w' = w_trace w)
      (after_statement w)" for d
    using silent_wp [OF assms, of d "after_statement w"] by simp
  then show "wp (with_tx body) (\<lambda>_ w'. w_trace w' = w_trace w) (\<lambda>_ w'. w_trace w' = w_trace w) w"
    by (simp add: op_simps)
qed

lemma silent_if [silent_rules]: "(b \<Longrightarrow> silent m) \<Longrightarrow> (\<not> b \<Longrightarrow> silent n) \<Longrightarrow> silent (if b then m else n)"
  by simp

lemma silent_let [silent_rules]: "silent (f a) \<Longrightarrow> silent (let x = a in f x)"
  by (simp add: Let_def)

lemma silent_case_option [silent_rules]:
  "(x = None \<Longrightarrow> silent m) \<Longrightarrow> (\<And>y. x = Some y \<Longrightarrow> silent (f y)) \<Longrightarrow>
   silent (case x of None \<Rightarrow> m | Some y \<Rightarrow> f y)"
  by (simp split: option.splits)

lemma silent_case_sum [silent_rules]:
  "(\<And>a. x = Inl a \<Longrightarrow> silent (f a)) \<Longrightarrow> (\<And>b. x = Inr b \<Longrightarrow> silent (g b)) \<Longrightarrow>
   silent (case x of Inl a \<Rightarrow> f a | Inr b \<Rightarrow> g b)"
  by (simp split: sum.splits)

lemma silent_case_prod [silent_rules]:
  "(\<And>a b. x = (a, b) \<Longrightarrow> silent (f a b)) \<Longrightarrow> silent (case x of (a, b) \<Rightarrow> f a b)"
  by (simp split: prod.splits)

subsection \<open>A repository that calls no provider\<close>

locale quiet_repository =
  fixes repo :: repository
  assumes chunks_read: "reads_only (rp_chunks repo workspace j direction)"
    and chunks_silent: "silent (rp_chunks repo workspace j direction)"
    and identity_silent: "silent (rp_identity repo workspace j)"
    and commit_silent: "silent (rp_commit_page repo x n content cursor checkpoint count)"
    and progress_silent: "silent (rp_progress repo x checkpoint count)"
    and complete_silent: "silent (rp_complete repo x record)"

lemma stream_rows_silent [silent_rules]: "silent (stream_rows rows)"
  by (induction rows rule: stream_rows.induct)
    (simp_all only: stream_rows.simps, (intro silent_rules; (assumption)?)+)

lemma chunks_silent: "silent (chunks workspace j direction)"
  unfolding chunks_def by (intro silent_rules)

lemma fenced_update_silent [silent_rules]: "silent (fenced_update x f e)"
  unfolding fenced_update_def by (intro silent_rules)

interpretation quiet_sql: quiet_repository "sql_repository check" for check
  by unfold_locales
    (simp_all add: sql_repository_def result_identity_def commit_result_page_def progress_def
      complete_def chunks_silent chunks_reads silent_rules)

subsection \<open>A repository that keeps a predicate\<close>

lemma keeps_lift_then: "(\<And>x. r = Inr x \<Longrightarrow> keeps I (f x)) \<Longrightarrow> keeps I (and_then (lift r) f)"
  by (cases r) (simp_all add: keeps_def and_then_def lift_def)

locale job_repository =
  fixes repo :: repository and I :: "db \<Rightarrow> bool"
  assumes submit_import_kept: "keeps I (rp_submit_import repo im)"
    and submit_export_kept: "keeps I (rp_submit_export repo ex)"
    and jobs_kept: "keeps I (rp_jobs repo jl access)"
    and job_kept: "keeps I (rp_job repo jq access)"
    and cancel_kept: "keeps I (rp_cancel repo jq access)"
    and artifact_kept: "keeps I (rp_artifact repo jq access)"
    and claim_kept: "keeps I (rp_claim repo owner ttl)"
    and claim_job_kept: "keeps I (rp_claim_job repo jq owner ttl)"
    and chunks_kept: "keeps I (rp_chunks repo workspace j direction)"
    and identity_kept: "keeps I (rp_identity repo workspace j)"
    and commit_kept: "keeps I (rp_commit_page repo x n content cursor checkpoint count)"
    and progress_kept: "keeps I (rp_progress repo x checkpoint count)"
    and complete_kept: "keeps I (rp_complete repo x record)"
    and fail_kept: "fp_status plan \<in> {''queued'', ''failed''} \<Longrightarrow> keeps I (rp_fail repo x plan)"
    and heartbeat_kept: "keeps I (rp_heartbeat repo x ttl)"
begin

lemmas kept = submit_import_kept submit_export_kept jobs_kept job_kept cancel_kept artifact_kept
  claim_kept claim_job_kept chunks_kept identity_kept commit_kept progress_kept complete_kept
  heartbeat_kept

lemma flush_kept:
  "(\<And>b. keeps I (handle b)) \<Longrightarrow> keeps I (flush handle x headers final s)"
  unfolding flush_def by (intro keeps_rules)

lemma feed_kept: "(\<And>b. keeps I (handle b)) \<Longrightarrow> keeps I (feed handle x headers rs s)"
  by (induction rs arbitrary: s) (auto intro!: keeps_rules flush_kept)

lemma read_import_kept: "(\<And>b. keeps I (handle b)) \<Longrightarrow> keeps I (read_import repo csv x handle)"
  unfolding read_import_def by (intro keeps_rules kept feed_kept flush_kept)

lemma import_rows_kept: "keeps I (import_rows repo csv x p)"
  unfolding import_rows_def validating_def applying_def
  by (intro keeps_rules kept read_import_kept)

lemma whole_file_kept: "(\<And>f. keeps I (handle f)) \<Longrightarrow> keeps I (whole_file repo x m handle)"
  unfolding whole_file_def by (intro keeps_rules kept)

lemma import_artifact_kept: "keeps I (import_artifact repo x validate apply_file)"
  unfolding import_artifact_def by (intro keeps_rules kept whole_file_kept)

lemma process_import_kept: "keeps I (process_import repo h csv x)"
  unfolding process_import_def by (intro keeps_rules import_artifact_kept import_rows_kept)

lemma export_pages_kept: "keeps I (export_pages fuel repo csv p x expires cursor n count header)"
proof (induction fuel arbitrary: cursor n count header)
  case (Suc fuel)
  then show ?case unfolding export_pages.simps Let_def by (intro keeps_rules kept)
qed (simp add: keeps_rules)

lemma finish_export_kept:
  "keeps I (finish_export repo p x filename content_type expires records n)"
  unfolding finish_export_def Let_def by (intro keeps_rules kept)

lemma process_pages_kept: "keeps I (process_pages fuel repo csv p x)"
  unfolding process_pages_def export_plan_of_def Let_def
  by (intro keeps_rules export_pages_kept finish_export_kept)

lemma commit_chunks_kept: "keeps I (commit_chunks repo x records content e n offset)"
proof (induction "length content" arbitrary: content n offset rule: less_induct)
  case less
  then show ?case
    by (subst commit_chunks.simps) (auto simp: Let_def artifact_chunk_def intro!: keeps_rules kept)
qed

lemma skip_committed_kept: "keeps I (skip_committed repo x offset content)"
  unfolding skip_committed_def by (intro keeps_rules kept)

lemma process_artifact_kept: "keeps I (process_artifact repo p build x)"
  unfolding process_artifact_def Let_def
  by (intro keeps_rules skip_committed_kept commit_chunks_kept finish_export_kept)

lemma process_kept: "keeps I (process fuel repo h csv x)"
  unfolding process_def process_export_def
  by (intro keeps_rules process_import_kept process_artifact_kept process_pages_kept)

lemma process_claimed_kept: "keeps I (process_claimed fuel repo h csv x)"
  unfolding process_claimed_def
  by (intro keeps_rules process_kept fail_kept plan_status)

lemma poll_kept: "keeps I (poll fuel n repo h csv owner ttl)"
proof (induction n)
  case (Suc n)
  show ?case
    unfolding poll.simps by (intro keeps_rules kept process_claimed_kept Suc)
qed (simp add: keeps_rules)

lemma submit_kept:
  assumes "sv_store sv = repo"
  shows "keeps I (submit_import_job k sv im)" "keeps I (submit_export_job k sv ex)"
  unfolding submit_import_job_def submit_export_job_def require_def assms
  by (intro keeps_rules kept)+

lemma access_kept:
  assumes "sv_store sv = repo"
  shows "keeps I (list_jobs k sv ctx jl)" "keeps I (job_for_action k sv ctx jq permission)"
    "keeps I (cancel_job k sv ctx jq)" "keeps I (download k sv ctx jq)"
  unfolding list_jobs_def job_for_action_def cancel_job_def download_def require_def assms
  by (intro keeps_rules kept)+

lemma materialize_kept:
  assumes "sv_store sv = repo"
  shows "keeps I (materialize_export fuel k sv csv jq)"
  unfolding materialize_export_def require_def assms
  by (intro keeps_rules kept process_claimed_kept)

lemma worker_rounds_kept:
  assumes "sv_store sv = repo"
  shows "keeps I (worker_rounds fuel ticks sv csv c)"
proof (induction ticks)
  case 0
  show ?case
    unfolding assms by (subst worker_rounds.simps, unfold assms nat.case) (intro keeps_rules poll_kept)
next
  case (Suc ticks)
  show ?case
    by (subst worker_rounds.simps, unfold assms nat.case) (intro keeps_rules poll_kept Suc)
qed

lemma start_kept: "sv_store sv = repo \<Longrightarrow> keeps I (start fuel ticks sv csv c)"
  unfolding start_def by (intro keeps_rules worker_rounds_kept)

end

text \<open>With the subject lifecycle, the contract of the whole store.\<close>

locale subject_store_contract = job_repository repo I for repo and I +
  fixes subjects :: subject_repository
  assumes preview_kept: "keeps I (sr_preview subjects workspace subject)"
    and prepare_kept: "keeps I (sr_prepare subjects q)"
    and erase_kept: "keeps I (sr_erase subjects q raw)"
begin

lemma lifecycle_kept:
  assumes "sv_subjects sv = Some subjects"
  shows "keeps I (preview_subject sv ctx workspace subject)"
    "keeps I (prepare_subject_erasure sv ctx q)" "keeps I (erase_prepared_subject sv ctx q raw)"
proof -
  have given: "s = subjects" if "subject_store sv ctx workspace subject = Inr s" for s workspace subject
    using that assms by (auto simp: subject_store_def split: if_splits)
  then have lifted: "keeps I (and_then (lift (subject_store sv ctx workspace subject)) f)"
    if "keeps I (f subjects)" for f :: "subject_repository \<Rightarrow> bytes op" and workspace subject
    using that by (auto intro: keeps_lift_then)
  then show "keeps I (preview_subject sv ctx workspace subject)"
    "keeps I (prepare_subject_erasure sv ctx q)" "keeps I (erase_prepared_subject sv ctx q raw)"
    unfolding preview_subject_def prepare_subject_erasure_def erase_prepared_subject_def require_def
    by (intro keeps_case_option lifted keeps_throw preview_kept prepare_kept erase_kept)+
qed

end

subsection \<open>The SQL store has the contract\<close>

lemma store_artifact_kept: "keeps I (store_artifact r access)"
  unfolding store_artifact_def open_artifact_row_def Let_def chunks_def
  by (intro keeps_rules)

lemmas store_reads_kept = store_artifact_kept
  store_job_reads [unfolded reads_only_keeps, rule_format]
  store_jobs_reads [unfolded reads_only_keeps, rule_format]
  chunks_reads [unfolded reads_only_keeps, rule_format]
  result_identity_reads [unfolded reads_only_keeps, rule_format]
  preview_reads [unfolded reads_only_keeps, rule_format]

interpretation good_store: subject_store_contract "sql_repository check" good_db sql_subjects
  for check
  by unfold_locales
    (simp_all add: sql_repository_def sql_subjects_def store_reads_kept keeps_submit_import
      keeps_submit_export keeps_cancel keeps_claim keeps_claim_job keeps_commit_page keeps_progress
      keeps_complete keeps_fail keeps_heartbeat keeps_prepare keeps_erase)

interpretation registered_store: subject_store_contract "sql_repository check" registered sql_subjects
  for check
  by unfold_locales
    (simp_all add: sql_repository_def sql_subjects_def store_reads_kept registered_submit_import
      registered_submit_export registered_cancel registered_claim registered_claim_job
      registered_worker registered_erasure)

end
