(* ===== verification/DownloadCorrect.thy ===== *)
theory DownloadCorrect
  imports Download StoreProperties
begin

text \<open>
  What a download delivers: nothing but the caller's own completed export; its end is reported only
  after bytes of the recorded size and digest, whatever the storage returned; and what was stored
  intact is delivered in full, however the reader chooses its buffers.
\<close>

subsection \<open>Draining the reader\<close>

definition has_read :: "bytes \<Rightarrow> verifier \<Rightarrow> bool" where
  "has_read a v \<longleftrightarrow> vr_read v = int (length a) \<and> vr_digest v = hash_write hash_new a \<and> \<not> vr_verified v"

lemma hash_write_write [simp]: "hash_write (hash_write h a) b = hash_write h (a @ b)"
  by (simp add: hash_write_def)

lemma hash_write_Nil [simp]: "hash_write h [] = h"
  by (simp add: hash_write_def)

lemma verify_read_ok:
  assumes "verify_read n v = ((p, Read_ok), v')" "has_read a v"
  shows "has_read (a @ p) v'" "int (length (a @ p)) \<le> vr_expected_size v"
    "vr_expected_size v' = vr_expected_size v" "vr_expected_sha v' = vr_expected_sha v"
    "pipe_read n (vr_source v) = ((p, Read_ok), vr_source v')"
  using assms
  by (auto simp: verify_read_def Let_def has_read_def split: prod.splits if_split_asm)

lemma verify_read_eof:
  assumes "verify_read n v = ((p, Read_eof), v')" "has_read a v"
  shows "int (length (a @ p)) = vr_expected_size v"
    "equal_fold (hex_encode (hash_sum (hash_write hash_new (a @ p)))) (vr_expected_sha v)"
  using assms
  by (auto simp: verify_read_def Let_def has_read_def split: prod.splits if_split_asm)

lemma drain_eof:
  "drain ns v = (b, Read_eof) \<Longrightarrow> has_read a v \<Longrightarrow>
   int (length (a @ b)) = vr_expected_size v \<and>
   equal_fold (hex_encode (hash_sum (hash_write hash_new (a @ b)))) (vr_expected_sha v)"
proof (induction ns arbitrary: v a b)
  case (Cons n ns)
  obtain p status v' where read: "verify_read n v = ((p, status), v')" by (metis prod.exhaust)
  show ?case
  proof (cases "status = Read_ok")
    case True
    with read Cons.prems(1) obtain q where q: "drain ns v' = (q, Read_eof)" "b = p @ q"
      by (auto split: prod.splits)
    show ?thesis
      using Cons.IH [OF q(1)] verify_read_ok [OF _ Cons.prems(2)] read True q(2) by fastforce
  next
    case False
    with read Cons.prems(1) have "status = Read_eof" "b = p" by (auto split: if_split_asm)
    then show ?thesis using verify_read_eof [OF _ Cons.prems(2)] read by blast
  qed
qed simp

subsection \<open>Intact content\<close>

definition delivers :: "bytes list \<Rightarrow> read_result list" where
  "delivers cs = map (\<lambda>c. (c, Read_ok)) cs @ [([], Read_eof)]"

text \<open>Reads with non-empty buffers it takes at most to drain: each removes a byte or a chunk.\<close>

definition reads_left :: "bytes list \<Rightarrow> nat" where
  "reads_left cs = length (concat cs) + length cs"

lemma verify_read_chunk:
  assumes "vr_source v = (c, Read_ok) # rs" "vr_read v + int (length (take n c)) \<le> vr_expected_size v"
  shows "\<exists>v'. verify_read n v = ((take n c, Read_ok), v') \<and>
    vr_source v' = (if n < length c then (drop n c, Read_ok) # rs else rs)"
proof (cases "take n c = []")
  case True
  then show ?thesis using assms by (simp add: verify_read_def)
next
  case False
  then show ?thesis using assms by (simp add: verify_read_def Let_def)
qed

lemma drain_intact:
  assumes "vr_source v = delivers cs" "has_read a v" "\<forall>n \<in> set ns. 0 < n"
    "vr_expected_size v = int (length (a @ concat cs))"
    "equal_fold (hex_encode (hash_sum (hash_write hash_new (a @ concat cs)))) (vr_expected_sha v)"
    "reads_left cs < length ns"
  shows "drain ns v = (concat cs, Read_eof)"
  using assms
proof (induction ns arbitrary: v a cs)
  case (Cons n ns)
  show ?case
  proof (cases cs)
    case Nil
    then have "verify_read n v = (([], Read_eof), v\<lparr>vr_source := [([], Read_eof)], vr_verified := True\<rparr>)"
      using Cons.prems by (simp add: verify_read_def delivers_def has_read_def)
    then show ?thesis by (simp add: Nil)
  next
    case (Cons c rest)
    define p where "p = take n c"
    define cs' where "cs' = (if n < length c then drop n c # rest else rest)"
    have whole: "concat cs = p @ concat cs'"
      by (simp add: Cons p_def cs'_def)
    have source: "vr_source v = (c, Read_ok) # delivers rest"
      using Cons.prems(1) by (simp add: Cons delivers_def)
    have room: "vr_read v + int (length (take n c)) \<le> vr_expected_size v"
      using Cons.prems(2,4) by (simp add: has_read_def Cons)
    obtain v' where read: "verify_read n v = ((p, Read_ok), v')" "vr_source v' = delivers cs'"
      using verify_read_chunk [OF source room] by (auto simp: p_def cs'_def delivers_def)
    note kept = verify_read_ok [OF read(1) Cons.prems(2)]
    have "reads_left cs' < length ns"
      using Cons.prems(3,6) by (auto simp: reads_left_def Cons cs'_def)
    then have "drain ns v' = (concat cs', Read_eof)"
      using Cons.IH [OF read(2) kept(1)] Cons.prems(3,4,5) kept(3,4) whole by simp
    then show ?thesis using read(1) whole by simp
  qed
qed simp


subsection \<open>Chunks of a well-formed database\<close>

definition result_contents :: "bytes \<Rightarrow> bytes \<Rightarrow> bytes \<Rightarrow> db \<Rightarrow> bytes list" where
  "result_contents workspace job direction d = map ck_content (chunk_rows workspace job direction d)"

lemma good_chunk_rows:
  "good_db d \<Longrightarrow> c \<in> set (chunk_rows workspace job direction d) \<Longrightarrow>
   ck_sha c = hex_encode (sha256 (ck_content c))"
  by (auto simp: chunk_rows_def select_where_def good_db_def all_rows_def chunk_row_ok_def)

lemma stream_rows_intact:
  assumes "\<And>n. \<not> w_fault w n" "\<forall>(content, sha) \<in> set rows. sha = hex_encode (sha256 content)"
  shows "wp (stream_rows rows) (\<lambda>reader w'. reader = delivers (map fst rows) \<and> w_db w' = w_db w)
    (\<lambda>_ _. False) w"
  using assms
proof (induction rows arbitrary: w)
  case (Cons row rows)
  obtain content sha where row: "row = (content, sha)" by fastforce
  have rest: "wp (stream_rows rows) (\<lambda>reader w'. reader = delivers (map fst rows) \<and> w_db w' = w_db w)
    (\<lambda>_ _. False) (after_statement w)"
    using Cons.IH [of "after_statement w"] Cons.prems by simp
  show ?case
    unfolding row stream_rows.simps
    using Cons.prems by (simp add: op_simps row) (rule wp_mono [OF rest], simp_all add: delivers_def op_simps)
qed (simp_all add: op_simps delivers_def)

lemma chunks_intact:
  assumes "\<And>n. \<not> w_fault w n" "good_db (w_db w)"
  shows "wp (chunks workspace job direction)
    (\<lambda>reader w'. reader = delivers (result_contents workspace job direction (w_db w)) \<and>
       w_db w' = w_db w) (\<lambda>_ _. False) w"
proof -
  let ?rows = "map (\<lambda>c. (ck_content c, ck_sha c)) (chunk_rows workspace job direction (w_db w))"
  have "\<forall>(content, sha) \<in> set ?rows. sha = hex_encode (sha256 content)"
    using good_chunk_rows [OF assms(2)] by auto
  then have "wp (stream_rows ?rows) (\<lambda>reader w'. reader = delivers (map fst ?rows) \<and>
      w_db w' = w_db (after_statement w)) (\<lambda>_ _. False) (after_statement w)"
    by (intro stream_rows_intact) (simp_all add: assms(1))
  then show ?thesis
    using assms(1) by (simp add: chunks_def op_simps result_contents_def comp_def)
qed

lemma read_all_delivers: "read_all (delivers cs) = (concat cs, None)"
  by (induction cs) (simp_all add: delivers_def)

lemma result_identity_intact:
  assumes "\<And>n. \<not> w_fault w n" "good_db (w_db w)"
  shows "wp (result_identity workspace job)
    (\<lambda>(sha, size) w'. sha = hex_sha (concat (result_contents workspace job ''result'' (w_db w))) \<and>
       size = int (length (concat (result_contents workspace job ''result'' (w_db w)))) \<and>
       w_db w' = w_db w) (\<lambda>_ _. False) w"
  unfolding result_identity_def wp_and_then
  by (rule wp_mono [OF chunks_intact [OF assms]])
    (auto simp: read_all_delivers op_simps hex_sha_def hash_sum_def hash_write_def hash_new_def)

subsection \<open>The artifact of the caller\<close>

lemma artifact_rowsD:
  assumes "a \<in> set (artifact_rows r access d)"
  shows "a \<in> set (db_artifacts d)" "at_workspace a = ac_workspace access"
    "\<exists>j \<in> set (db_jobs d). jr_id j = at_job a \<and> jr_workspace j = ac_workspace access \<and>
       jr_status j = ''completed'' \<and> jr_id j = trim_space (jq_job_id r) \<and>
       jr_actor j = ac_owner access"
  using assms by (auto simp: artifact_rows_def job_candidate_def)

definition describes :: "artifact_row \<Rightarrow> artifact \<Rightarrow> bool" where
  "describes a af \<longleftrightarrow>
     at_id a = af_id af \<and> at_filename a = af_filename af \<and> at_content_type a = af_content_type af \<and>
     at_sha a = af_sha af \<and> at_size a = af_size af \<and>
     parse_nano (at_expires_at a) = Some (af_expires_at af)"

lemma open_artifact_row_wp:
  "wp (open_artifact_row r a)
    (\<lambda>af w'. w_db w' = w_db w \<and> describes a af \<and>
       (if w_clock w (w_readings w) < af_expires_at af
        then \<exists>source. af_content af = Some (Verifying (new_verifier source (at_sha a) (at_size a)))
        else af_content af = Some (Failing Err_artifact_expired)))
    (\<lambda>_ w'. w_db w' = w_db w) w"
proof (cases "parse_nano (at_expires_at a)")
  case None
  then show ?thesis by (simp add: open_artifact_row_def op_simps)
next
  case (Some expires)
  have streams: "wp (chunks workspace job direction) (\<lambda>source w'. w_db w' = w_db v)
      (\<lambda>_ w'. w_db w' = w_db v) v" for workspace job direction v
    by (intro wpI) (auto dest: reads_onlyD [OF chunks_reads])
  note read = wp_mono [OF streams]
  show ?thesis
    unfolding open_artifact_row_def Some option.case
    by (auto simp: op_simps Some describes_def artifact_of_row_def intro!: read)
qed

lemma store_artifact_wp:
  "wp (store_artifact r access)
    (\<lambda>af w'. w_db w' = w_db w \<and> job_access_matches_scope r (normalized access) \<and>
       (\<exists>a \<in> set (artifact_rows r (normalized access) (w_db w)). describes a af \<and>
          (if w_clock w (w_readings w) < af_expires_at af
           then \<exists>source. af_content af = Some (Verifying (new_verifier source (at_sha a) (at_size a)))
           else af_content af = Some (Failing Err_artifact_expired))))
    (\<lambda>_ w'. w_db w' = w_db w) w"
proof (cases "first_row (artifact_rows r (normalized access) (w_db w))")
  case (Inl e)
  then show ?thesis by (simp add: store_artifact_def op_simps del: first_row_none)
next
  case (Inr a)
  then have a: "a \<in> set (artifact_rows r (normalized access) (w_db w))"
    by (auto simp: first_row_def split: list.splits)
  show ?thesis
    unfolding store_artifact_def Let_def
    by (simp add: op_simps Inr) (auto intro!: wp_mono [OF open_artifact_row_wp] bexI [OF _ a])
qed


subsection \<open>The properties\<close>

text \<open>
  C7: A download that ends without an error has delivered the recorded content: whatever the storage
  streamed and however it was split by the reader's buffers, when the reader reports the end of the
  file the bytes read have the size of the artifact row and its SHA-256.
\<close>

theorem verified_download:
  assumes "drain ns (new_verifier source sha recorded) = (content, Read_eof)"
  shows "int (length content) = recorded \<and> equal_fold (hex_sha content) (to_lower (trim_space sha))"
  using drain_eof [OF assms, of "[]"]
  by (simp add: has_read_def new_verifier_def hex_sha_def hash_sum_def hash_write_def hash_new_def)

theorem verified_download_witness:
  "equal_fold (hex_sha ''ab'') (to_lower (trim_space (hex_sha ''ab'')))"
proof -
  have "drain [1, 5, 5] (new_verifier [(''ab'', Read_ok), ([], Read_eof)] (hex_sha ''ab'') 2) =
      (''ab'', Read_eof)"
    by (simp add: new_verifier_def verify_read_def Let_def hash_write_def hash_new_def hash_sum_def
        hex_sha_def)
  from verified_download [OF this] show ?thesis by simp
qed

text \<open>
  C11: A caller opens only a finished export of their own: an artifact is returned only for the
  workspace and actor of the request's scope, from a row whose job is in that workspace, belongs to
  that actor, has the requested id and is completed; opening it changes nothing; an expired artifact
  has no content but the expiry error.
\<close>

theorem artifact_access:
  "wp (store_artifact r access)
    (\<lambda>af w'. w_db w' = w_db w \<and>
       (\<exists>a \<in> set (db_artifacts (w_db w)). \<exists>j \<in> set (db_jobs (w_db w)).
          describes a af \<and> jr_id j = at_job a \<and> jr_id j = trim_space (jq_job_id r) \<and>
          jr_workspace j = trim_space (sc_workspace (jq_scope r)) \<and>
          at_workspace a = jr_workspace j \<and>
          jr_actor j = trim_space (sc_actor (jq_scope r)) \<and> jr_status j = ''completed'') \<and>
       (if w_clock w (w_readings w) < af_expires_at af then True
        else af_content af = Some (Failing Err_artifact_expired)))
    (\<lambda>_ w'. w_db w' = w_db w) w"
proof (rule wp_mono [OF store_artifact_wp])
  fix af w'
  assume opened: "w_db w' = w_db w \<and> job_access_matches_scope r (normalized access) \<and>
    (\<exists>a \<in> set (artifact_rows r (normalized access) (w_db w)). describes a af \<and>
       (if w_clock w (w_readings w) < af_expires_at af
        then \<exists>source. af_content af = Some (Verifying (new_verifier source (at_sha a) (at_size a)))
        else af_content af = Some (Failing Err_artifact_expired)))"
  then obtain a where a: "a \<in> set (artifact_rows r (normalized access) (w_db w))" "describes a af" by blast
  obtain j where "j \<in> set (db_jobs (w_db w))" "jr_id j = at_job a"
      "jr_workspace j = ac_workspace (normalized access)" "jr_status j = ''completed''"
      "jr_id j = trim_space (jq_job_id r)" "jr_actor j = ac_owner (normalized access)"
    using artifact_rowsD(3) [OF a(1)] by blast
  moreover have "ac_workspace (normalized access) = trim_space (sc_workspace (jq_scope r))"
    "ac_owner (normalized access) = trim_space (sc_actor (jq_scope r))"
    using opened by (simp_all add: job_access_matches_scope_def)
  ultimately show "w_db w' = w_db w \<and>
       (\<exists>a \<in> set (db_artifacts (w_db w)). \<exists>j \<in> set (db_jobs (w_db w)).
          describes a af \<and> jr_id j = at_job a \<and> jr_id j = trim_space (jq_job_id r) \<and>
          jr_workspace j = trim_space (sc_workspace (jq_scope r)) \<and>
          at_workspace a = jr_workspace j \<and>
          jr_actor j = trim_space (sc_actor (jq_scope r)) \<and> jr_status j = ''completed'') \<and>
       (if w_clock w (w_readings w) < af_expires_at af then True
        else af_content af = Some (Failing Err_artifact_expired))"
    using opened a(2) artifact_rowsD(1,2) [OF a(1)] by (metis (no_types, lifting))
qed simp

text \<open>
  C8: Nothing stored is lost: in a well-formed database, when the artifact row the caller opens
  carries the size and digest \<open>ResultIdentity\<close> computes over the job's committed pages, the request
  names the job and workspace exactly and no statement fails, the reader delivers all the pages in
  order and ends without an error, with any non-empty buffers.
\<close>

theorem intact_download:
  assumes "good_db (w_db w)" "\<And>n. \<not> w_fault w n"
    "job_access_matches_scope r (normalized access)"
    "artifact_rows r (normalized access) (w_db w) = a # others"
    "parse_nano (at_expires_at a) = Some expires" "\<And>n. w_clock w n < expires"
    "at_sha a = hex_sha (concat pages)" "at_size a = int (length (concat pages))"
    "pages = result_contents (sc_workspace (jq_scope r)) (jq_job_id r) ''result'' (w_db w)"
    "\<forall>n \<in> set ns. 0 < n" "reads_left pages < length ns"
  shows "\<exists>af w' v. store_artifact r access w = (Inr af, w') \<and> af_content af = Some (Verifying v) \<and>
    drain ns v = (concat pages, Read_eof)"
proof -
  let ?v = "new_verifier (delivers pages) (at_sha a) (at_size a)"
  have meta: "\<not> at_size a < 0" "trim_space (at_sha a) \<noteq> []"
    using assms(7,8) by (simp_all add: hex_sha_def) (metis hex_sha_def hex_sha_nonempty)
  have "wp (open_artifact_row r a) (\<lambda>af _. af_content af = Some (Verifying ?v)) (\<lambda>_ _. False) v"
    if "w_db v = w_db w" "w_fault v = w_fault w" "w_clock v = w_clock w" for v
  proof -
    have "wp (chunks (sc_workspace (jq_scope r)) (jq_job_id r) ''result'')
        (\<lambda>source w'. wp (ret (artifact_of_row a expires
          (Some (Verifying (new_verifier source (at_sha a) (at_size a))))))
          (\<lambda>af _. af_content af = Some (Verifying ?v)) (\<lambda>_ _. False) w')
        (\<lambda>_ _. False) (v\<lparr>w_readings := Suc (w_readings v)\<rparr>)"
      by (rule wp_mono [OF chunks_intact])
        (use that assms(1,2,9) in \<open>simp_all add: op_simps artifact_of_row_def\<close>)
    then show ?thesis
      unfolding open_artifact_row_def assms(5) option.case
      using that assms(6) meta by (simp add: op_simps del: wp_ret)
  qed
  then have "wp (store_artifact r access) (\<lambda>af _. af_content af = Some (Verifying ?v)) (\<lambda>_ _. False) w"
    using assms(2,3,4) by (simp add: store_artifact_def op_simps first_row_def)
  then obtain af w' where run: "store_artifact r access w = (Inr af, w')"
      "af_content af = Some (Verifying ?v)"
    by (auto simp: wp_def split: prod.splits sum.splits)
  have "drain ns ?v = (concat pages, Read_eof)"
    by (rule drain_intact [where a = "[]"])
      (use assms(7,8,10,11) in \<open>simp_all add: new_verifier_def has_read_def hex_sha_def
        hash_sum_def hash_write_def hash_new_def\<close>)
  with run show ?thesis by blast
qed


definition finished_artifact :: artifact_row where
  "finished_artifact =
     \<lparr>at_id = ''j:artifact'', at_workspace = ''w'', at_job = ''j'', at_filename = ''f'',
      at_content_type = ''t'', at_sha = hex_sha ''id'', at_size = 2,
      at_expires_at = format_nano 5000000000, at_created_at = []\<rparr>"

definition finished_db :: db where
  "finished_db = empty_db\<lparr>
     db_jobs := [default_job_row\<lparr>jr_id := ''j'', jr_workspace := ''w'', jr_actor := ''a'',
       jr_operation := ''export'', jr_status := ''completed''\<rparr>],
     db_chunks := [\<lparr>ck_workspace = ''w'', ck_job = ''j'', ck_direction = ''result'', ck_sequence = 0,
       ck_content = ''id'', ck_sha = hex_encode (sha256 ''id''), ck_created_at = []\<rparr>],
     db_artifacts := [finished_artifact]\<rparr>"

definition sample_request :: job_request where
  "sample_request = \<lparr>jq_scope = sample_scope, jq_job_id = ''j'', jq_provider = [], jq_operation = []\<rparr>"

definition sample_access :: job_access where
  "sample_access = \<lparr>ac_permission = ''data_exchange.jobs.get'', ac_workspace = ''w'', ac_owner = ''a''\<rparr>"

lemma sample_trims: "trim_space ''w'' = ''w''" "trim_space ''a'' = ''a''" "trim_space ''j'' = ''j''"
  by (rule trim_space_plain; simp)+

theorem intact_download_witness:
  "\<exists>af w' v. store_artifact sample_request sample_access (calm finished_db 2000000000) = (Inr af, w') \<and>
     af_content af = Some (Verifying v) \<and> drain [1, 7, 7, 7] v = (''id'', Read_eof)"
proof -
  let ?w = "calm finished_db 2000000000"
  have good: "good_db (w_db ?w)"
    by (simp add: calm_def finished_db_def good_db_def keyed_def all_rows_def row_simps empty_db_def
        job_row_ok_def chunk_row_ok_def default_job_row_def status_values_def)
  have matches: "job_access_matches_scope sample_request (normalized sample_access)"
    by (simp add: job_access_matches_scope_def sample_request_def sample_access_def sample_scope_def
        sample_trims)
  have rows: "artifact_rows sample_request (normalized sample_access) (w_db ?w) = finished_artifact # []"
    by (simp add: artifact_rows_def finished_artifact_def job_candidate_def calm_def finished_db_def empty_db_def
        default_job_row_def sample_request_def sample_access_def sample_trims)
  have pages: "[''id''] = result_contents (sc_workspace (jq_scope sample_request))
      (jq_job_id sample_request) ''result'' (w_db ?w)"
    by (simp add: result_contents_def chunk_rows_def select_where_def calm_def finished_db_def
        sample_request_def sample_scope_def row_simps)
  have expires: "parse_nano (at_expires_at finished_artifact) = Some 5000000000"
    by (simp add: finished_artifact_def parse_format_nano four_digit_epoch)
  have identity: "at_sha finished_artifact = hex_sha (concat [''id''])"
    "at_size finished_artifact = int (length (concat [''id'']))"
    by (simp_all add: finished_artifact_def)
  show ?thesis
    using intact_download [OF good _ matches rows expires _ identity pages, of "[1, 7, 7, 7]"]
    by (simp add: calm_def reads_left_def)
qed

end
