(* ===== verification/ImportCorrect.thy ===== *)
theory ImportCorrect
  imports Contract WorkerCorrect DownloadCorrect
begin

text \<open>
  Imports: the buffered reader against the plain division of the records into batches, and the order
  of the two passes over the source, by rows and by whole files.
\<close>

subsection \<open>The batches of a source\<close>

function split_every :: "nat \<Rightarrow> 'a list \<Rightarrow> 'a list list" where
  "split_every n xs = (if n = 0 \<or> xs = [] then [] else take n xs # split_every n (drop n xs))"
  by pat_completeness auto
termination by (relation "measure (length \<circ> snd)") auto

declare split_every.simps [simp del]

lemma split_every_Nil [simp]: "split_every n [] = []"
  by (simp add: split_every.simps)

lemma split_every_short: "0 < n \<Longrightarrow> xs \<noteq> [] \<Longrightarrow> length xs \<le> n \<Longrightarrow> split_every n xs = [xs]"
  by (subst split_every.simps) simp

lemma split_every_full: "0 < n \<Longrightarrow> length xs = n \<Longrightarrow> split_every n (xs @ ys) = xs # split_every n ys"
  by (subst split_every.simps) auto

lemma split_every_eq_Nil: "0 < n \<Longrightarrow> split_every n xs = [] \<longleftrightarrow> xs = []"
  by (subst split_every.simps) simp

lemma concat_split_every: "0 < n \<Longrightarrow> concat (split_every n xs) = xs"
proof (induction n xs rule: split_every.induct)
  case (1 n xs)
  then show ?case by (subst split_every.simps) simp
qed

lemma split_every_length: "xs \<in> set (split_every n ys) \<Longrightarrow> xs \<noteq> [] \<and> length xs \<le> n"
proof (induction n ys rule: split_every.induct)
  case (1 n ys)
  then show ?case
    by (subst (asm) (2) split_every.simps) (auto split: if_splits)
qed

fun number_batches :: "work_item \<Rightarrow> bytes list \<Rightarrow> int \<Rightarrow> import_row list list \<Rightarrow> import_batch list" where
  "number_batches x headers k [] = []"
| "number_batches x headers k (p # ps) =
     batch_of x headers (ps = []) (k + 1) p # number_batches x headers (k + 1) ps"

text \<open>
  The reference: the records in groups of 500, numbered from one, only the last one marked final.
\<close>

definition import_batches :: "work_item \<Rightarrow> bytes list \<Rightarrow> import_row list \<Rightarrow> import_batch list" where
  "import_batches x headers records =
     number_batches x headers 0 (split_every import_batch_rows records)"

text \<open>The rows the provider rejects over a list of batches, \<open>None\<close> when it answers one with an error.\<close>

fun rejections ::
  "(event list \<Rightarrow> import_batch \<Rightarrow> err + int) \<Rightarrow> (import_batch \<Rightarrow> event) \<Rightarrow> event list \<Rightarrow> int \<Rightarrow>
   import_batch list \<Rightarrow> int option" where
  "rejections answer ev past r [] = Some r"
| "rejections answer ev past r (b # bs) =
     (case answer past b of
        Inl e \<Rightarrow> None
      | Inr n \<Rightarrow> rejections answer ev (past @ [ev b]) (wrap64 (r + n)) bs)"

subsection \<open>The reader sends exactly these batches\<close>

definition handler ::
  "(event list \<Rightarrow> import_batch \<Rightarrow> err + int) \<Rightarrow> (import_batch \<Rightarrow> event) \<Rightarrow> import_batch \<Rightarrow> int op" where
  "handler answer ev b = call (\<lambda>past. answer past b) (ev b)"

lemma validating_handler: "validating p = handler (mp_validate p) Validate_batch"
  by (simp add: fun_eq_iff validating_def handler_def)

lemma applying_handler: "applying p = handler (mp_apply p) Apply_batch"
  by (simp add: fun_eq_iff applying_def handler_def)

lemma wp_handler:
  "wp (handler answer ev b) Q R w =
     (case answer (w_trace w) b of
        Inl e \<Rightarrow> R e (w\<lparr>w_trace := w_trace w @ [ev b]\<rparr>)
      | Inr x \<Rightarrow> Q x (w\<lparr>w_trace := w_trace w @ [ev b]\<rparr>))"
  by (simp add: handler_def op_simps)

lemma wp_flush:
  "is_rows s \<noteq> [] \<Longrightarrow>
   wp (flush (handler answer ev) x headers final s) Q R w =
     (let b = batch_of x headers final (is_batch s + 1) (is_rows s); w' = w\<lparr>w_trace := w_trace w @ [ev b]\<rparr> in
      case answer (w_trace w) b of
        Inl e \<Rightarrow> R e w'
      | Inr n \<Rightarrow> Q (s\<lparr>is_rows := [], is_batch := is_batch s + 1,
                      is_rejected := wrap64 (is_rejected s + n)\<rparr>) w')"
  by (simp add: flush_def op_simps wp_handler Let_def split: sum.splits)

abbreviation batches_from ::
  "work_item \<Rightarrow> bytes list \<Rightarrow> import_state \<Rightarrow> import_row list \<Rightarrow> import_batch list" where
  "batches_from x headers s rs \<equiv>
     number_batches x headers (is_batch s) (split_every import_batch_rows (is_rows s @ rs))"

lemma rejections_step:
  "answer past b = Inr n \<Longrightarrow>
   rejections answer ev past r (b # bs) = rejections answer ev (past @ [ev b]) (wrap64 (r + n)) bs"
  by simp

lemma feed_flush_wp:
  assumes "length (is_rows s) \<le> import_batch_rows"
  shows "wp (and_then (feed (handler answer ev) x headers rs s) (flush (handler answer ev) x headers True))
    (\<lambda>s' w'. is_total s' = is_total s + int (length rs) \<and>
       w_trace w' = w_trace w @ map ev (batches_from x headers s rs) \<and>
       rejections answer ev (w_trace w) (is_rejected s) (batches_from x headers s rs) =
         Some (is_rejected s') \<and> w_db w' = w_db w)
    (\<lambda>e w'. (\<exists>n. w_trace w' = w_trace w @ map ev (take n (batches_from x headers s rs))) \<and>
       w_db w' = w_db w) w"
  using assms
proof (induction rs arbitrary: s w)
  case Nil
  show ?case
  proof (cases "is_rows s = []")
    case True
    then show ?thesis by (simp add: op_simps flush_def)
  next
    case False
    then have one: "split_every import_batch_rows (is_rows s) = [is_rows s]"
      using Nil by (intro split_every_short) (simp_all add: import_batch_rows_def)
    show ?thesis
      using False
      by (auto simp: op_simps flush_def wp_handler one split: sum.splits intro: exI [of _ 1])
  qed
next
  case (Cons r rs)
  show ?case
  proof (cases "length (is_rows s) = import_batch_rows")
    case True
    let ?b = "batch_of x headers False (is_batch s + 1) (is_rows s)"
    have full: "batches_from x headers s (r # rs) =
        ?b # number_batches x headers (is_batch s + 1) (split_every import_batch_rows (r # rs))"
      using True by (subst split_every_full)
        (simp_all add: import_batch_rows_def split_every_eq_Nil)
    have nonempty: "is_rows s \<noteq> []" using True by (auto simp: import_batch_rows_def)
    show ?thesis
    proof (cases "answer (w_trace w) ?b")
      case (Inl e)
      then show ?thesis
        using True by (auto simp: op_simps wp_flush [OF nonempty] Let_def full intro: exI [of _ "Suc 0"])
    next
      case (Inr n)
      let ?s = "s\<lparr>is_batch := is_batch s + 1, is_rejected := wrap64 (is_rejected s + n),
          is_total := is_total s + 1, is_rows := [r]\<rparr>"
      let ?w = "w\<lparr>w_trace := w_trace w @ [ev ?b]\<rparr>"
      have "length (is_rows ?s) \<le> import_batch_rows" by (simp add: import_batch_rows_def)
      note IH = Cons.IH [OF this, of ?w]
      have rest: "wp (and_then (feed (handler answer ev) x headers rs ?s) (flush (handler answer ev) x headers True))
        (\<lambda>s' w'. is_total s' = is_total s + int (length (r # rs)) \<and>
           w_trace w' = w_trace w @ map ev (batches_from x headers s (r # rs)) \<and>
           rejections answer ev (w_trace w) (is_rejected s) (batches_from x headers s (r # rs)) =
             Some (is_rejected s') \<and> w_db w' = w_db w)
        (\<lambda>e w'. (\<exists>n. w_trace w' = w_trace w @ map ev (take n (batches_from x headers s (r # rs)))) \<and>
           w_db w' = w_db w) ?w"
      proof (rule wp_mono [OF IH], goal_cases)
        case (1 s' w')
        then show ?case unfolding full by (simp add: Inr)
      next
        case (2 e w')
        then obtain m where "w_trace w' = w_trace ?w @ map ev (take m (batches_from x headers ?s rs))"
          "w_db w' = w_db ?w" by blast
        then show ?case unfolding full by (auto intro!: exI [of _ "Suc m"])
      qed
      have step: "wp (and_then (feed (handler answer ev) x headers (r # rs) s) k) Q R w =
          wp (and_then (feed (handler answer ev) x headers rs ?s) k) Q R ?w" for k Q R
        using True Inr by (simp add: op_simps wp_flush [OF nonempty] Let_def)
      show ?thesis unfolding step by (rule rest)
    qed
  next
    case False
    let ?s = "s\<lparr>is_total := is_total s + 1, is_rows := is_rows s @ [r]\<rparr>"
    have "length (is_rows ?s) \<le> import_batch_rows" using False Cons.prems by simp
    from Cons.IH [OF this, of w] show ?thesis
      using False by (simp add: op_simps algebra_simps)
  qed
qed

text \<open>Calls to the provider for some batches, and nothing else.\<close>

definition sends :: "(import_batch \<Rightarrow> event) \<Rightarrow> world \<Rightarrow> world \<Rightarrow> bool" where
  "sends ev w w' \<longleftrightarrow> w_db w' = w_db w \<and> (\<exists>bs. w_trace w' = w_trace w @ map ev bs)"

lemma sends_refl [simp]: "sends ev w w"
  by (simp add: sends_def)

lemma sends_trans: "sends ev u v \<Longrightarrow> sends ev v w \<Longrightarrow> sends ev u w"
  by (auto simp: sends_def simp flip: map_append)

lemma flush_sends:
  "wp (flush (handler answer ev) x headers final s) (\<lambda>_. sends ev w) (\<lambda>_. sends ev w) w"
proof (cases "is_rows s = []")
  case True
  then show ?thesis by (simp add: flush_def op_simps)
next
  case False
  have "\<exists>bs. [ev b] = map ev bs" for b by (rule exI [of _ "[b]"]) simp
  then show ?thesis by (simp add: wp_flush [OF False] Let_def sends_def split: sum.splits)
qed

lemma feed_sends:
  "wp (feed (handler answer ev) x headers rs s) (\<lambda>_. sends ev w) (\<lambda>_. sends ev w) w"
proof (induction rs arbitrary: s w)
  case (Cons r rs)
  have rest: "wp (feed (handler answer ev) x headers rs s') (\<lambda>_. sends ev w) (\<lambda>_. sends ev w) v"
    if "sends ev w v" for s' v
    by (rule wp_mono [OF Cons.IH]) (use that in \<open>auto intro: sends_trans\<close>)
  show ?case
  proof (cases "length (is_rows s) = import_batch_rows")
    case True
    then have "wp (and_then (flush (handler answer ev) x headers False s) (\<lambda>s. feed (handler answer ev) x
        headers rs (s\<lparr>is_total := is_total s + 1, is_rows := is_rows s @ [r]\<rparr>)))
        (\<lambda>_. sends ev w) (\<lambda>_. sends ev w) w"
      unfolding wp_and_then by (intro wp_mono [OF flush_sends] rest)
    with True show ?thesis by simp
  qed (simp add: op_simps rest)
qed (simp add: op_simps)

subsection \<open>One pass over the source\<close>

definition source_read :: "repository \<Rightarrow> work_item \<Rightarrow> world \<Rightarrow> read_result list \<Rightarrow> bool" where
  "source_read repo x w source \<longleftrightarrow>
     (\<exists>w'. rp_chunks repo (sc_workspace (w_scope x)) (j_id (w_job x)) ''source'' w = (Inr source, w'))"

abbreviation decoded :: "codec \<Rightarrow> read_result list \<Rightarrow> bytes list \<times> import_row list \<times> err option" where
  "decoded csv source \<equiv> cd_decode csv import_max_rows import_max_columns source"

text \<open>A complete pass over a source that could be read and decoded to its end.\<close>

definition whole_pass ::
  "repository \<Rightarrow> codec \<Rightarrow> work_item \<Rightarrow> (event list \<Rightarrow> import_batch \<Rightarrow> err + int) \<Rightarrow> (import_batch \<Rightarrow> event) \<Rightarrow>
   world \<Rightarrow> int \<Rightarrow> int \<Rightarrow> import_batch list \<Rightarrow> bool" where
  "whole_pass repo csv x answer ev w count rejected bs \<longleftrightarrow>
     (\<exists>source headers records. source_read repo x w source \<and>
        decoded csv source = (headers, records, None) \<and> headers \<noteq> [] \<and>
        count = int (length records) \<and> bs = import_batches x headers records \<and>
        rejections answer ev (w_trace w) 0 bs = Some rejected)"

context quiet_repository
begin

lemma source_wp:
  "wp (rp_chunks repo (sc_workspace (w_scope x)) (j_id (w_job x)) ''source'')
     (\<lambda>source w'. source_read repo x w source \<and> w_trace w' = w_trace w \<and> w_db w' = w_db w)
     (\<lambda>_ w'. w_trace w' = w_trace w \<and> w_db w' = w_db w) w"
  by (rule wpI)
    (auto simp: source_read_def dest: reads_onlyD [OF chunks_read] silentD [OF chunks_silent])

lemma read_import_wp:
  "wp (read_import repo csv x (handler answer ev))
    (\<lambda>(count, rejected) w'. w_db w' = w_db w \<and>
       (\<exists>bs. whole_pass repo csv x answer ev w count rejected bs \<and> w_trace w' = w_trace w @ map ev bs))
    (\<lambda>e. sends ev w) w"
  unfolding read_import_def wp_and_then
proof (rule wp_mono [OF source_wp], goal_cases)
  case (1 source v)
  obtain headers records e where dec: "decoded csv source = (headers, records, e)"
    by (cases "decoded csv source") blast
  let ?s = "\<lparr>is_rows = [], is_total = 0, is_batch = 0, is_rejected = 0\<rparr>"
  have start: "sends ev w w'" if "sends ev v w'" for w'
    using that 1 by (simp add: sends_def)
  show ?case
  proof (cases "e = None \<and> headers \<noteq> []")
    case True
    have "length (is_rows ?s) \<le> import_batch_rows" by simp
    note whole = feed_flush_wp [OF this, of answer ev x headers records v]
    have "wp (and_then (feed (handler answer ev) x headers records ?s) (flush (handler answer ev) x headers True))
        (\<lambda>s w'. w_db w' = w_db w \<and> (\<exists>bs. whole_pass repo csv x answer ev w (is_total s) (is_rejected s) bs \<and>
           w_trace w' = w_trace w @ map ev bs))
      (\<lambda>e. sends ev w) v"
    proof (rule wp_mono [OF whole], goal_cases)
      case (1 s w')
      with \<open>source_read repo x w source \<and> w_trace v = w_trace w \<and> w_db v = w_db w\<close> True dec
      have "whole_pass repo csv x answer ev w (is_total s) (is_rejected s) (import_batches x headers records)"
        by (auto simp: whole_pass_def import_batches_def)
      with 1 \<open>source_read repo x w source \<and> w_trace v = w_trace w \<and> w_db v = w_db w\<close>
      show ?case by (auto simp: import_batches_def)
    qed (auto simp: sends_def \<open>source_read repo x w source \<and> w_trace v = w_trace w \<and> w_db v = w_db w\<close>)
    then show ?thesis
      using True dec by (auto simp: op_simps elim!: wp_mono) blast
  next
    case False
    then show ?thesis
      unfolding dec prod.case wp_and_then
      by (intro wp_mono [OF feed_sends]) (auto simp: op_simps start split: option.splits)
  qed
qed (simp add: sends_def)

end

text \<open>
  What the two passes may leave behind when they end: batches to validate, then batches to apply, and
  none of those before the whole source was validated with no row rejected.
\<close>

definition validated_first ::
  "repository \<Rightarrow> codec \<Rightarrow> import_provider \<Rightarrow> work_item \<Rightarrow> world \<Rightarrow> world \<Rightarrow> bool" where
  "validated_first repo csv p x w w' \<longleftrightarrow>
     (\<exists>V A. w_trace w' = w_trace w @ map Validate_batch V @ map Apply_batch A \<and>
        (A \<noteq> [] \<longrightarrow> (\<exists>count rejected. rejected \<le> 0 \<and>
           whole_pass repo csv x (mp_validate p) Validate_batch w count rejected V)))"

lemma validated_only:
  "w_trace w' = w_trace w @ map Validate_batch V \<Longrightarrow> validated_first repo csv p x w w'"
  by (auto simp: validated_first_def intro: exI [of _ "[]"])

context quiet_repository
begin

lemma import_rows_wp:
  "wp (import_rows repo csv x p) (\<lambda>_. validated_first repo csv p x w) (\<lambda>_. validated_first repo csv p x w) w"
  unfolding import_rows_def validating_handler applying_handler wp_and_then
proof (rule wp_mono [OF read_import_wp], goal_cases)
  case (1 result v)
  obtain count rejected where result: "result = (count, rejected)" by (cases result)
  with 1 obtain V where V: "whole_pass repo csv x (mp_validate p) Validate_batch w count rejected V"
      "w_trace v = w_trace w @ map Validate_batch V" by auto
  let ?first = "\<lambda>_. validated_first repo csv p x w"
  show ?case
  proof (cases "0 < rejected")
    case True
    then show ?thesis by (simp add: result op_simps validated_only [OF V(2)])
  next
    case False
    have applied: "validated_first repo csv p x w w'"
      if "w_trace w' = w_trace w @ map Validate_batch V @ map Apply_batch A" for w' A
      unfolding validated_first_def
      by (rule exI [of _ V], rule exI [of _ A]) (use that V(1) False in \<open>auto simp: not_less\<close>)
    have progressed: "wp (rp_progress repo x a b) Q R u"
      if "\<And>w'. w_trace w' = w_trace u \<Longrightarrow> Q () w'" "\<And>e w'. w_trace w' = w_trace u \<Longrightarrow> R e w'"
      for a b u Q R
      by (rule wp_mono [OF silent_wp [OF progress_silent]]) (use that in auto)
    have completed: "wp (rp_complete repo x None) ?first ?first u"
      if "\<exists>A. w_trace u = w_trace w @ map Validate_batch V @ map Apply_batch A" for u
      by (rule wp_mono [OF silent_wp [OF complete_silent]]) (use that applied in auto)
    have "wp (read_import repo csv x (handler (mp_apply p) Apply_batch))
        (\<lambda>_ w'. \<exists>A. w_trace w' = w_trace w @ map Validate_batch V @ map Apply_batch A)
        (\<lambda>_ w'. \<exists>A. w_trace w' = w_trace w @ map Validate_batch V @ map Apply_batch A) u"
      if "w_trace u = w_trace v" for u
      by (rule wp_mono [OF read_import_wp]) (use that V(2) in \<open>auto simp: sends_def\<close>)
    note pass = wp_mono [OF this]
    show ?thesis
      unfolding result
      using False
      by (auto simp: op_simps intro!: progressed pass completed
          split: prod.splits) (use V(2) in \<open>auto intro: validated_only applied\<close>)
  qed
next
  case (2 e v)
  then show ?case by (auto simp: sends_def intro: validated_only)
qed

end

subsection \<open>The properties\<close>

lemma number_batches_rows: "map ib_rows (number_batches x headers k ps) = ps"
  by (induction ps arbitrary: k) (simp_all add: batch_of_def)

lemma number_batches_final:
  "ps \<noteq> [] \<Longrightarrow> map ib_final (number_batches x headers k ps) = replicate (length ps - 1) False @ [True]"
proof (induction ps arbitrary: k)
  case (Cons p ps)
  then show ?case using Cons.IH [of "k + 1"] by (cases ps) (simp_all add: batch_of_def)
qed simp

lemma number_batches_chunks:
  "map ib_chunk (number_batches x headers k ps) =
   map (\<lambda>i. j_id (w_job x) @ '':'' @ int_decimal (k + int i)) [1..<Suc (length ps)]"
proof (induction ps arbitrary: k)
  case (Cons p ps)
  have "map (\<lambda>i. f (k + 1 + int i)) [1..<Suc (length ps)] =
      map (\<lambda>i. f (k + int i)) [2..<Suc (Suc (length ps))]" for f :: "int \<Rightarrow> bytes"
    by (rule nth_equalityI) (auto simp: algebra_simps simp del: upt_Suc)
  note shift = this [of "\<lambda>i. j_id (w_job x) @ '':'' @ int_decimal i"]
  have "[1..<Suc (Suc (length ps))] = 1 # [2..<Suc (Suc (length ps))]"
    by (simp add: upt_conv_Cons numeral_2_eq_2 del: upt_Suc)
  then show ?case
    using Cons [of "k + 1"] shift by (simp add: batch_of_def del: upt_Suc)
qed simp

lemma split_every_butlast: "0 < n \<Longrightarrow> p \<in> set (butlast (split_every n xs)) \<Longrightarrow> length p = n"
proof (induction n xs rule: split_every.induct)
  case (1 n xs)
  show ?case
  proof (cases "xs = [] \<or> drop n xs = []")
    case True
    then have "butlast (split_every n xs) = []"
      using 1 by (subst split_every.simps) auto
    with 1 show ?thesis by simp
  next
    case False
    have "split_every n xs = take n xs # split_every n (drop n xs)"
      by (subst split_every.simps) (use 1(2) False in simp)
    moreover have "split_every n (drop n xs) \<noteq> []"
      using 1(2) False by (simp add: split_every_eq_Nil)
    ultimately have step: "split_every n xs = take n xs # split_every n (drop n xs)"
      "split_every n (drop n xs) \<noteq> []" by simp_all
    with 1 False show ?thesis by auto
  qed
qed

text \<open>
  C22: The buffered reader hands the provider exactly the batches of the reference: all the records of
  the decoded source, in order and none twice, in batches of 500 numbered from one, of which only the
  last may be shorter and only the last is marked final; the count it returns is the number of
  records.
\<close>

theorem import_reader_batches:
  "wp (read_import (sql_repository check) csv x (validating p))
    (\<lambda>(count, rejected) w'. \<exists>source headers records bs.
       source_read (sql_repository check) x w source \<and>
       decoded csv source = (headers, records, None) \<and> count = int (length records) \<and>
       w_trace w' = w_trace w @ map Validate_batch bs \<and> concat (map ib_rows bs) = records \<and>
       list_all (\<lambda>b. ib_rows b \<noteq> [] \<and> length (ib_rows b) \<le> 500) bs \<and>
       list_all (\<lambda>rows. length rows = 500) (butlast (map ib_rows bs)) \<and>
       map ib_final bs = (if bs = [] then [] else replicate (length bs - 1) False @ [True]) \<and>
       map ib_chunk bs = map (\<lambda>i. j_id (w_job x) @ '':'' @ int_decimal (int i)) [1..<Suc (length bs)])
    (\<lambda>_ w'. w_db w' = w_db w) w"
  unfolding validating_handler
proof (rule wp_mono [OF quiet_sql.read_import_wp], goal_cases)
  case (1 result v)
  obtain count rejected where result: "result = (count, rejected)" by (cases result)
  with 1 obtain source headers records where pass: "source_read (sql_repository check) x w source"
      "decoded csv source = (headers, records, None)" "count = int (length records)"
      "w_trace v = w_trace w @ map Validate_batch (import_batches x headers records)"
    by (auto simp: whole_pass_def)
  let ?ps = "split_every import_batch_rows records" and ?bs = "import_batches x headers records"
  have pos: "0 < import_batch_rows" and limit: "import_batch_rows = 500"
    by (simp_all add: import_batch_rows_def)
  have rows: "map ib_rows ?bs = ?ps" by (simp add: import_batches_def number_batches_rows)
  then have len: "length ?bs = length ?ps" by (metis length_map)
  have "list_all (\<lambda>b. ib_rows b \<noteq> [] \<and> length (ib_rows b) \<le> 500) ?bs"
    unfolding list_all_iff
    using split_every_length [of _ import_batch_rows records] rows
    by (metis limit list.set_map imageI)
  moreover have "map ib_final ?bs = (if ?bs = [] then [] else replicate (length ?bs - 1) False @ [True])"
  proof (cases "?ps = []")
    case True
    then show ?thesis by (simp add: import_batches_def)
  next
    case False
    then show ?thesis
      using number_batches_final [OF False, of x headers 0] len by (auto simp: import_batches_def)
  qed
  moreover have "map ib_chunk ?bs =
      map (\<lambda>i. j_id (w_job x) @ '':'' @ int_decimal (int i)) [1..<Suc (length ?bs)]"
    using number_batches_chunks [of x headers 0 ?ps] len by (simp add: import_batches_def del: upt_Suc)
  moreover have "list_all (\<lambda>rows. length rows = 500) (butlast (map ib_rows ?bs))"
    using split_every_butlast [OF pos, of _ records] rows limit by (auto simp: list_all_iff)
  moreover have "concat (map ib_rows ?bs) = records"
    using concat_split_every [OF pos] rows by simp
  ultimately show ?case
    unfolding result prod.case using pass by blast
qed (simp add: sends_def)

subsection \<open>Both passes see the same records\<close>

lemma stream_rows_clean:
  "wp (stream_rows rows)
    (\<lambda>reader _. snd (read_all reader) = None \<longrightarrow> reader = delivers (map fst rows)) (\<lambda>_ _. True) w"
proof (induction rows arbitrary: w rule: stream_rows.induct)
  case (2 content sha rows)
  have rest: "wp (stream_rows rows) (\<lambda>x w'. snd (read_all ((content, Read_ok) # x)) = None \<longrightarrow>
      (content, Read_ok) # x = delivers (map fst ((content, sha) # rows))) (\<lambda>_ _. True) v"
    if "equal_fold (hex_encode (sha256 content)) (trim_space sha)" for v
    by (rule wp_mono [OF "2.IH"])
      (use that in \<open>auto simp: delivers_def split: prod.splits\<close>)
  show ?case
    by (auto simp: op_simps intro!: wp_mono [OF rest])
qed (simp add: op_simps delivers_def)

lemma source_clean:
  assumes "source_read (sql_repository check) x w source" "snd (read_all source) = None"
  shows "source = delivers
    (result_contents (sc_workspace (w_scope x)) (j_id (w_job x)) ''source'' (w_db w))"
proof -
  let ?chunks = "chunks (sc_workspace (w_scope x)) (j_id (w_job x)) ''source''"
  obtain w' where run: "?chunks w = (Inr source, w')"
    using assms(1) by (auto simp: source_read_def sql_repository_def)
  have "wp ?chunks (\<lambda>reader _. snd (read_all reader) = None \<longrightarrow> reader = delivers
      (result_contents (sc_workspace (w_scope x)) (j_id (w_job x)) ''source'' (w_db w))) (\<lambda>_ _. True) w"
    by (auto simp: chunks_def op_simps result_contents_def intro!: wp_mono [OF stream_rows_clean])
      (simp add: comp_def)
  from wp_valueD [OF this run] assms(2) show ?thesis by simp
qed

lemma result_contents_jobs [simp]:
  "result_contents workspace j direction (d\<lparr>db_jobs := rows\<rparr>) = result_contents workspace j direction d"
  by (simp add: result_contents_def chunk_rows_def select_where_def)

lemma sql_repository_simps [simp]:
  "rp_progress (sql_repository check) = progress" "rp_complete (sql_repository check) = complete"
  "rp_commit_page (sql_repository check) = commit_result_page"
  "rp_identity (sql_repository check) = result_identity" "rp_chunks (sql_repository check) = chunks"
  "rp_fail (sql_repository check) = fail" "rp_job (sql_repository check) = store_job"
  "rp_claim_job (sql_repository check) = claim_job check" "rp_claim (sql_repository check) = claim"
  by (simp_all add: sql_repository_def)

lemma wp_conj:
  "wp m Q R w \<Longrightarrow> wp m Q' R' w \<Longrightarrow> wp m (\<lambda>x w'. Q x w' \<and> Q' x w') (\<lambda>e w'. R e w' \<and> R' e w') w"
  by (auto simp: wp_def split: prod.splits sum.splits)

lemma progress_silent: "silent (progress x checkpoint count)"
  and complete_silent: "silent (complete x art)"
  using quiet_sql.progress_silent quiet_sql.complete_silent by simp_all

text \<open>The row of a job that an import left behind.\<close>

definition imported :: "work_item \<Rightarrow> int \<Rightarrow> db \<Rightarrow> bool" where
  "imported x count d \<longleftrightarrow>
     (\<exists>row \<in> set (db_jobs d). jr_id row = j_id (w_job x) \<and> jr_status row = ''completed'' \<and>
        jr_checkpoint row = count \<and> jr_total row = count)"

lemma complete_import_wp:
  assumes "good_db (w_db w)"
    "w_db w = d\<lparr>db_jobs := update_rows (fenced_job x) (progress_row count count now) (db_jobs d)\<rparr>"
    "passes_fence x d"
  shows "wp (complete x None) (\<lambda>_ w'. imported x count (w_db w')) (\<lambda>_ _. True) w"
proof (rule wp_mono [OF complete_wp [OF assms(1)]])
  fix u w'
  assume "passes_fence x (w_db w) \<and> (\<exists>rows now. artifact_added x None rows \<and> w_db w' =
      (w_db w)\<lparr>db_artifacts := db_artifacts (w_db w) @ rows,
         db_jobs := update_rows (fenced_job x) (complete_row (record_id None) now) (db_jobs (w_db w))\<rparr>)"
  then obtain later where jobs: "db_jobs (w_db w') =
      update_rows (fenced_job x) (complete_row [] later) (db_jobs (w_db w))"
    by (auto simp: record_id_def)
  obtain r where r: "r \<in> set (db_jobs d)" "fenced_job x r" using assms(3) by (auto simp: passes_fence_def)
  have still: "fenced_job x (progress_row count count now r)"
    using r by (simp add: fenced_job_def progress_row_def)
  have "progress_row count count now r \<in> set (db_jobs (w_db w))"
    using r by (simp add: assms(2) set_update_rows)
  then have "complete_row [] later (progress_row count count now r) \<in> set (db_jobs (w_db w'))"
    using still by (simp add: jobs set_update_rows)
  then show "imported x count (w_db w')"
    unfolding imported_def
    by (rule bexI [rotated]) (use r in \<open>simp add: complete_row_def progress_row_def fenced_job_def\<close>)
qed simp

text \<open>The stored source of a job, and what the decoder makes of it in a pass without an error.\<close>

abbreviation source_of :: "work_item \<Rightarrow> db \<Rightarrow> read_result list" where
  "source_of x d \<equiv> delivers (result_contents (sc_workspace (w_scope x)) (j_id (w_job x)) ''source'' d)"

definition honest :: "codec \<Rightarrow> bool" where
  "honest csv \<longleftrightarrow>
     (\<forall>source headers records. decoded csv source = (headers, records, None) \<longrightarrow> snd (read_all source) = None)"

lemma pass_of_source:
  assumes "whole_pass (sql_repository check) csv x answer ev u count rejected bs" "honest csv"
  shows "\<exists>headers records. decoded csv (source_of x (w_db u)) = (headers, records, None) \<and>
    count = int (length records) \<and> bs = import_batches x headers records"
  using assms source_clean by (fastforce simp: whole_pass_def honest_def)

lemma finish_import_wp:
  assumes "good_db (w_db u)"
  shows "wp (and_then (progress x count count) (\<lambda>_. complete x None))
    (\<lambda>_ w'. w_trace w' = w_trace u \<and> imported x count (w_db w')) (\<lambda>_ _. True) u"
  unfolding wp_and_then
proof (rule wp_mono [OF wp_conj [OF progress_wp [OF assms] silent_wp [OF progress_silent]]], goal_cases)
  case (1 _ u')
  then obtain now where "good_db (w_db u')" "passes_fence x (w_db u)"
    "w_db u' = (w_db u)\<lparr>db_jobs := update_rows (fenced_job x) (progress_row count count now) (db_jobs (w_db u))\<rparr>"
    "w_trace u' = w_trace u" by auto
  then show ?case
    by (intro wp_mono [OF wp_conj [OF complete_import_wp silent_wp [OF complete_silent]]]) auto
qed simp

text \<open>The second pass, over a source that decodes to \<open>records\<close>.\<close>

lemma apply_pass_wp:
  assumes "good_db (w_db u)" "honest csv" "decoded csv (source_of x (w_db u)) = (headers, records, None)"
    "count = int (length records)"
  shows "wp (and_then (read_import (sql_repository check) csv x (handler (mp_apply p) Apply_batch))
      (\<lambda>(_, rejected). if 0 < rejected then throw (rejected_rows ''Data Exchange import apply'' rejected)
         else and_then (progress x count count) (\<lambda>_. complete x None)))
    (\<lambda>_ w'. w_trace w' = w_trace u @ map Apply_batch (import_batches x headers records) \<and>
       imported x count (w_db w')) (\<lambda>_ _. True) u"
  unfolding wp_and_then
proof (rule wp_mono [OF quiet_sql.read_import_wp], goal_cases)
  case (1 result u')
  obtain n rejected where result: "result = (n, rejected)" by (cases result)
  with 1 obtain A where A: "w_db u' = w_db u" "w_trace u' = w_trace u @ map Apply_batch A"
    "whole_pass (sql_repository check) csv x (mp_apply p) Apply_batch u n rejected A" by auto
  have "A = import_batches x headers records"
    using pass_of_source [OF A(3) assms(2)] assms(3) by auto
  with A assms(1) finish_import_wp [of u' x count] show ?case by (simp add: result op_simps)
qed simp

text \<open>
  C20: An import that succeeds has applied exactly what it validated: when the decoder reports a
  stream that broke off as an error, both passes handed the provider the same batches, those of the
  job's stored source, in the same order, and the job is completed with the number of records as its
  checkpoint and total.
\<close>

theorem import_applies_what_it_validated:
  assumes "good_db (w_db w)"
    "\<And>source headers records. decoded csv source = (headers, records, None) \<Longrightarrow> snd (read_all source) = None"
  shows "wp (import_rows (sql_repository check) csv x p)
    (\<lambda>_ w'. \<exists>headers records.
       decoded csv (delivers (result_contents (sc_workspace (w_scope x)) (j_id (w_job x)) ''source'' (w_db w)))
         = (headers, records, None) \<and>
       w_trace w' = w_trace w @ map Validate_batch (import_batches x headers records) @
         map Apply_batch (import_batches x headers records) \<and>
       imported x (int (length records)) (w_db w'))
    (\<lambda>_ _. True) w"
  unfolding import_rows_def validating_handler applying_handler wp_and_then sql_repository_simps
proof (rule wp_mono [OF quiet_sql.read_import_wp], goal_cases)
  case (1 result v)
  have honest: "honest csv" unfolding honest_def using assms(2) by blast
  obtain count rejected where result: "result = (count, rejected)" by (cases result)
  with 1 obtain V where V: "w_db v = w_db w" "w_trace v = w_trace w @ map Validate_batch V"
      "whole_pass (sql_repository check) csv x (mp_validate p) Validate_batch w count rejected V" by auto
  obtain headers records where dec: "decoded csv (source_of x (w_db w)) = (headers, records, None)"
      "count = int (length records)" "V = import_batches x headers records"
    using pass_of_source [OF V(3) honest] by auto
  have "good_db (w_db v)" using V(1) assms(1) by simp
  note reported = wp_conj [OF progress_wp [OF this, of x 0 count] silent_wp [OF progress_silent]]
  show ?case
  proof (cases "0 < rejected")
    case False
    then show ?thesis
      unfolding result prod.case if_not_P [OF False] wp_and_then [of "progress x 0 count"]
    proof (intro wp_mono [OF reported], goal_cases)
      case (1 _ u)
      then obtain now where u: "good_db (w_db u)" "w_trace u = w_trace v"
        "w_db u = (w_db v)\<lparr>db_jobs := update_rows (fenced_job x) (progress_row 0 count now) (db_jobs (w_db v))\<rparr>"
        by auto
      then have "decoded csv (source_of x (w_db u)) = (headers, records, None)"
        using dec(1) by (simp add: V(1))
      from apply_pass_wp [OF u(1) honest this dec(2)] show ?case
        by (rule wp_mono) (use dec u(2) V(2) in auto)
    qed simp
  qed (simp add: result op_simps)
qed simp

definition one_record_codec :: codec where
  "one_record_codec =
     \<lparr>cd_decode = (\<lambda>_ _ source. ([''h''], [\<lparr>rw_number = 1, rw_values = [fst (read_all source)]\<rparr>],
        snd (read_all source))),
      cd_write = (\<lambda>_ _ _. None), cd_close = (\<lambda>_ rows. Inr (concat (map concat rows)))\<rparr>"

definition accepting :: import_provider where
  "accepting = \<lparr>mp_validate = (\<lambda>_ _. Inr 0), mp_apply = (\<lambda>_ _. Inr 0), mp_artifact = None\<rparr>"

definition importing_db :: db where
  "importing_db = empty_db\<lparr>db_jobs := [(leased_job 0)\<lparr>jr_operation := ''import''\<rparr>]\<rparr>"

lemma importing_db_good: "good_db importing_db"
  by (simp add: importing_db_def good_db_def keyed_def all_rows_def empty_db_def job_row_ok_def
      leased_job_def default_job_row_def status_values_def)

lemma import_runs:
  "wp (import_rows (sql_repository check) one_record_codec (sample_item 1) accepting)
    (\<lambda>_ _. True) (\<lambda>_ _. False) (calm importing_db 0)"
  unfolding import_rows_def validating_def applying_def read_import_def sql_repository_simps
  by (simp add: op_simps chunks_def chunk_rows_def select_where_def calm_def importing_db_def empty_db_def
      one_record_codec_def accepting_def flush_def import_batch_rows_def progress_def complete_def
      fenced_update_def update_where_def update_rows_def row_simps fenced_job_def leased_job_def
      default_job_row_def sample_item_def zero_job_def progress_row_def wrap64_id int64_def)

theorem import_applies_what_it_validated_witness:
  "\<exists>w' V A. import_rows (sql_repository (\<lambda>_. None)) one_record_codec (sample_item 1) accepting
       (calm importing_db 0) = (Inr (), w') \<and>
     w_trace w' = [Validate_batch V, Apply_batch A] \<and> V = A \<and> imported (sample_item 1) 1 (w_db w')"
proof -
  let ?m = "import_rows (sql_repository (\<lambda>_. None)) one_record_codec (sample_item 1) accepting"
  let ?w = "calm importing_db 0"
  have good: "good_db (w_db ?w)" using importing_db_good by (simp add: calm_def)
  have codec: "decoded one_record_codec source = (headers, records, None) \<Longrightarrow> snd (read_all source) = None"
    for source headers records
    by (simp add: one_record_codec_def)
  obtain w' where run: "?m ?w = (Inr (), w')"
    using import_runs [of "\<lambda>_. None"] by (cases "?m ?w") (auto simp: wp_def split: sum.splits)
  have one: "import_batches x h [r] = [batch_of x h True 1 [r]]" for x h r
    by (simp add: import_batches_def import_batch_rows_def split_every_short)
  show ?thesis
    using wp_valueD [OF import_applies_what_it_validated [OF good codec] run] run
    by (auto simp: one_record_codec_def one calm_def)
qed

subsection \<open>Imports of whole files\<close>

text \<open>
  The file a provider is given: the metadata of the request and the stored source. When its content
  can be read to the end, it is the whole source; a read that fails breaks off with an error.
\<close>

definition file_of :: "work_item \<Rightarrow> db \<Rightarrow> import_artifact \<Rightarrow> bool" where
  "file_of x d f \<longleftrightarrow>
     (\<exists>m source. unmarshal_metadata (w_payload x) = Some m \<and>
        f = \<lparr>ia_scope = w_scope x, ia_object_key = w_object_key x, ia_job = j_id (w_job x),
             ia_filename = md_filename m, ia_content_type = md_content_type m,
             ia_options = md_options m, ia_content = source\<rparr> \<and>
        (snd (read_all source) = None \<longrightarrow> source = source_of x d))"

lemma chunks_clean:
  "wp (chunks workspace j direction)
    (\<lambda>source w'. (w_db w' = w_db w \<and> w_trace w' = w_trace w) \<and> (snd (read_all source) = None \<longrightarrow>
       source = delivers (result_contents workspace j direction (w_db w))))
    (\<lambda>_ w'. w_db w' = w_db w \<and> w_trace w' = w_trace w) w"
proof -
  have "wp (chunks workspace j direction)
      (\<lambda>source _. snd (read_all source) = None \<longrightarrow>
         source = delivers (result_contents workspace j direction (w_db w))) (\<lambda>_ _. True) w"
    by (auto simp: chunks_def op_simps result_contents_def intro!: wp_mono [OF stream_rows_clean])
      (simp add: comp_def)
  moreover have "wp (chunks workspace j direction) (\<lambda>_ w'. w_db w' = w_db w \<and> w_trace w' = w_trace w)
      (\<lambda>_ w'. w_db w' = w_db w \<and> w_trace w' = w_trace w) w"
    by (rule wpI) (auto dest: reads_onlyD [OF chunks_reads] silentD [OF chunks_silent])
  ultimately show ?thesis by (auto simp: wp_def split: prod.splits sum.splits)
qed

lemma whole_file_wp:
  assumes "unmarshal_metadata (w_payload x) = Some m"
  shows "wp (whole_file (sql_repository check) x m (\<lambda>f. call (\<lambda>past. answer past f) (ev f)))
    (\<lambda>n w'. w_db w' = w_db w \<and> (\<exists>f. file_of x (w_db w) f \<and> w_trace w' = w_trace w @ [ev f] \<and>
       answer (w_trace w) f = Inr n))
    (\<lambda>_ w'. w_db w' = w_db w \<and> (w_trace w' = w_trace w \<or>
       (\<exists>f. file_of x (w_db w) f \<and> w_trace w' = w_trace w @ [ev f]))) w"
  unfolding whole_file_def wp_and_then sql_repository_simps
proof (rule wp_mono [OF chunks_clean], goal_cases)
  case (1 source v)
  let ?f = "\<lparr>ia_scope = w_scope x, ia_object_key = w_object_key x, ia_job = j_id (w_job x),
    ia_filename = md_filename m, ia_content_type = md_content_type m,
    ia_options = md_options m, ia_content = source\<rparr>"
  have "file_of x (w_db w) ?f" using assms 1 by (simp add: file_of_def)
  then show ?case using 1 by (auto simp: op_simps split: sum.split)
qed simp

lemma progress_source:
  "wp (progress x checkpoint count)
     (\<lambda>_ w'. file_of y (w_db w') = file_of y (w_db w) \<and> w_trace w' = w_trace w)
     (\<lambda>_ w'. file_of y (w_db w') = file_of y (w_db w) \<and> w_trace w' = w_trace w) w"
proof -
  have "wp (progress x checkpoint count) (\<lambda>_ w'. file_of y (w_db w') = file_of y (w_db w))
      (\<lambda>_ w'. file_of y (w_db w') = file_of y (w_db w)) w"
    by (simp add: progress_def fenced_update_def op_simps update_where_def row_simps file_of_def [abs_def])
  from wp_conj [OF this silent_wp [OF progress_silent]] show ?thesis .
qed

text \<open>How an import of a whole file has used its provider.\<close>

definition file_validated_first ::
  "(event list \<Rightarrow> import_artifact \<Rightarrow> err + int) \<Rightarrow> work_item \<Rightarrow> world \<Rightarrow> world \<Rightarrow> bool" where
  "file_validated_first validate x w w' \<longleftrightarrow>
     w_trace w' = w_trace w \<or>
     (\<exists>f. file_of x (w_db w) f \<and>
        (w_trace w' = w_trace w @ [Validate_artifact f] \<or>
         (\<exists>g n. file_of x (w_db w) g \<and> validate (w_trace w) f = Inr n \<and>
            w_trace w' = w_trace w @ [Validate_artifact f, Apply_artifact g])))"

definition file_applied ::
  "(event list \<Rightarrow> import_artifact \<Rightarrow> err + int) \<Rightarrow> (event list \<Rightarrow> import_artifact \<Rightarrow> err + int) \<Rightarrow>
   work_item \<Rightarrow> world \<Rightarrow> world \<Rightarrow> bool" where
  "file_applied validate apply_file x w w' \<longleftrightarrow>
     (\<exists>f g n. file_of x (w_db w) f \<and> file_of x (w_db w) g \<and>
        w_trace w' = w_trace w @ [Validate_artifact f, Apply_artifact g] \<and>
        validate (w_trace w) f = Inr n \<and> apply_file (w_trace w @ [Validate_artifact f]) g = Inr n)"

lemma import_artifact_wp:
  "wp (import_artifact (sql_repository check) x validate apply_file)
     (\<lambda>_. file_applied validate apply_file x w) (\<lambda>_. file_validated_first validate x w) w"
proof (cases "unmarshal_metadata (w_payload x)")
  case None
  then show ?thesis by (simp add: import_artifact_def op_simps file_validated_first_def)
next
  case (Some m)
  show ?thesis
    unfolding import_artifact_def Some option.case wp_and_then sql_repository_simps
  proof (rule wp_mono [OF whole_file_wp [OF Some]], goal_cases)
    case (1 validated v)
    then obtain f where f: "file_of x (w_db w) f" "w_trace v = w_trace w @ [Validate_artifact f]"
      "validate (w_trace w) f = Inr validated" "w_db v = w_db w" by auto
    show ?case
    proof (rule wp_mono [OF progress_source [where y = x]], goal_cases)
      case (1 _ u)
      then have u: "file_of x (w_db u) = file_of x (w_db w)" "w_trace u = w_trace v" using f(4) by simp_all
      show ?case
      proof (rule wp_mono [OF whole_file_wp [OF Some]], goal_cases)
        case (1 applied t)
        then obtain g where g: "file_of x (w_db w) g"
          "w_trace t = w_trace w @ [Validate_artifact f, Apply_artifact g]"
          "apply_file (w_trace w @ [Validate_artifact f]) g = Inr applied"
          using u f(2) by auto
        have failed: "file_validated_first validate x w w'" if "w_trace w' = w_trace t" for w'
          using that f g by (auto simp: file_validated_first_def)
        have ended: "file_applied validate apply_file x w w'" if "w_trace w' = w_trace t" "applied = validated" for w'
          using that f g by (auto simp: file_applied_def)
        show ?case
        proof (cases "applied = validated")
          case True
          then show ?thesis
            unfolding True simp_thms if_False wp_and_then
            by (intro wp_mono [OF silent_wp [OF progress_silent]] wp_mono [OF silent_wp [OF complete_silent]])
              (auto intro: failed ended [OF _ True])
        qed (simp add: op_simps failed)
      next
        case (2 e t)
        then show ?case using u f by (auto simp: file_validated_first_def)
      qed
    next
      case (2 e u)
      then show ?case using f by (auto simp: file_validated_first_def)
    qed
  next
    case (2 e v)
    then show ?case by (auto simp: file_validated_first_def)
  qed
qed

text \<open>
  C21: An import never applies anything before it was validated, however it ends. By rows: the calls to
  the provider are some validations followed by some applications, and if there is an application, the
  validations are the batches of a whole source that the repository returned, and none of their rows
  was rejected. By whole files: the provider is asked to apply a file only after it validated it without
  an error, once each, and when the import succeeds it has applied as many records as it validated;
  both times the content is the stored source, or breaks off with an error.
\<close>

theorem import_validates_before_applying:
  "wp (process_import (sql_repository check) h csv x)
     (\<lambda>_ w'. \<exists>p. h_import h (j_provider (w_job x)) = Some p \<and>
        (case mp_artifact p of
           None \<Rightarrow> validated_first (sql_repository check) csv p x w w'
         | Some (validate, apply_file) \<Rightarrow> file_applied validate apply_file x w w'))
     (\<lambda>_ w'. case h_import h (j_provider (w_job x)) of
        None \<Rightarrow> w' = w
      | Some p \<Rightarrow>
        (case mp_artifact p of
           None \<Rightarrow> validated_first (sql_repository check) csv p x w w'
         | Some (validate, apply_file) \<Rightarrow> file_validated_first validate x w w')) w"
proof (cases "h_import h (j_provider (w_job x))")
  case None
  then show ?thesis by (simp add: process_import_def op_simps)
next
  case (Some p)
  show ?thesis
  proof (cases "mp_artifact p")
    case None
    then show ?thesis
      using quiet_sql.import_rows_wp [of check csv x p w] by (simp add: process_import_def Some)
  next
    case whole: (Some handlers)
    obtain validate apply_file where "handlers = (validate, apply_file)" by (cases handlers)
    with whole import_artifact_wp [of check x validate apply_file w] show ?thesis
      by (simp add: process_import_def Some)
  qed
qed

end
