(* ===== verification/ServiceCorrect.thy ===== *)
theory ServiceCorrect
  imports Contract Lifecycle
begin

text \<open>
  Properties of the use cases: everything the module does keeps the database well formed
  (\<open>serve_all_keeps\<close>, a lemma), a request without its grant stops before the repository, a caller only
  ever sees and cancels jobs of their own, a subject is not erased against a legal hold or from
  another workspace, and so through any history of use cases a job stays as it is unless its owner, its
  subject's lifecycle or a worker acts on it.
\<close>

subsection \<open>The use cases as calls\<close>

datatype use_case =
    Use_submit_import import_request
  | Use_submit_export export_request
  | Use_list job_list_request
  | Use_job job_request bytes
  | Use_cancel job_request
  | Use_download job_request
  | Use_materialize nat job_request
  | Use_worker nat nat worker_config
  | Use_heartbeat work_item duration
  | Use_preview bytes bytes
  | Use_prepare erasure_request
  | Use_erase erasure_request bytes

fun serve :: "sdk \<Rightarrow> service \<Rightarrow> codec \<Rightarrow> request_context \<Rightarrow> use_case \<Rightarrow> world \<Rightarrow> err option \<times> world" where
  "serve k sv csv ctx (Use_submit_import r) = outcome (submit_import_job k sv r)"
| "serve k sv csv ctx (Use_submit_export r) = outcome (submit_export_job k sv r)"
| "serve k sv csv ctx (Use_list r) = outcome (list_jobs k sv ctx r)"
| "serve k sv csv ctx (Use_job r permission) = outcome (job_for_action k sv ctx r permission)"
| "serve k sv csv ctx (Use_cancel r) = outcome (cancel_job k sv ctx r)"
| "serve k sv csv ctx (Use_download r) = outcome (download k sv ctx r)"
| "serve k sv csv ctx (Use_materialize fuel r) = outcome (materialize_export fuel k sv csv r)"
| "serve k sv csv ctx (Use_worker fuel ticks c) = outcome (start fuel ticks sv csv c)"
| "serve k sv csv ctx (Use_heartbeat x ttl) = outcome (rp_heartbeat (sv_store sv) x ttl)"
| "serve k sv csv ctx (Use_preview workspace subject) = outcome (preview_subject sv ctx workspace subject)"
| "serve k sv csv ctx (Use_prepare q) = outcome (prepare_subject_erasure sv ctx q)"
| "serve k sv csv ctx (Use_erase q raw) = outcome (erase_prepared_subject sv ctx q raw)"

fun serve_all ::
  "sdk \<Rightarrow> service \<Rightarrow> codec \<Rightarrow> (request_context \<times> use_case) list \<Rightarrow> world \<Rightarrow> world" where
  "serve_all k sv csv [] w = w"
| "serve_all k sv csv ((ctx, u) # us) w = serve_all k sv csv us (snd (serve k sv csv ctx u w))"

text \<open>The service as the module assembles it: over the SQL store.\<close>

definition module_service :: "(job_request \<Rightarrow> err option) \<Rightarrow> application \<Rightarrow> host \<Rightarrow> service" where
  "module_service check a h =
     \<lparr>sv_application = a, sv_host = h, sv_store = sql_repository check,
      sv_subjects = Some sql_subjects\<rparr>"

lemma module_service_simps [simp]:
  "sv_store (module_service check a h) = sql_repository check"
  "sv_subjects (module_service check a h) = Some sql_subjects"
  "sv_host (module_service check a h) = h"
  by (simp_all add: module_service_def)

lemma serve_keeps_good:
  assumes "good_db (w_db w)"
  shows "good_db (w_db (snd (serve k (module_service check a h) csv ctx u w)))"
  using assms
  by (cases u)
    (simp_all add: outcome_keeps good_store.submit_kept good_store.access_kept
      good_store.materialize_kept good_store.start_kept good_store.heartbeat_kept
      good_store.lifecycle_kept)

lemma serve_keeps_registered:
  assumes "registered (w_db w)"
  shows "registered (w_db (snd (serve k (module_service check a h) csv ctx u w)))"
  using assms
  by (cases u)
    (simp_all add: outcome_keeps registered_store.submit_kept registered_store.access_kept
      registered_store.materialize_kept registered_store.start_kept registered_store.heartbeat_kept
      registered_store.lifecycle_kept)

lemma serve_all_keeps:
  "good_db (w_db w) \<Longrightarrow> registered (w_db w) \<Longrightarrow>
   good_db (w_db (serve_all k (module_service check a h) csv us w)) \<and>
   registered (w_db (serve_all k (module_service check a h) csv us w))"
  by (induction us arbitrary: w)
    (auto simp del: serve.simps simp: serve_keeps_good serve_keeps_registered)

definition sample_sdk :: sdk where
  "sample_sdk =
     \<lparr>sdk_scope = (\<lambda>_. None), sdk_job = (\<lambda>_. None), sdk_list = (\<lambda>_. None), act_list = ''j.list'',
      act_get = ''j.get'', act_cancel = ''j.cancel'', act_download = ''j.download''\<rparr>"

definition sample_application :: application where
  "sample_application = \<lparr>ap_runtime = ''r'', ap_application = ''a''\<rparr>"

definition no_providers :: host where
  "no_providers = \<lparr>h_import = (\<lambda>_. None), h_export = (\<lambda>_. None)\<rparr>"

definition sample_codec :: codec where
  "sample_codec =
     \<lparr>cd_decode = (\<lambda>_ _ source. ([''h''], [], snd (read_all source))), cd_write = (\<lambda>_ _ _. None),
      cd_close = (\<lambda>_ rows. Inr (concat (map concat rows)))\<rparr>"

definition anonymous :: request_context where
  "anonymous = \<lparr>cx_principal = None, cx_workspace = ''w''\<rparr>"

subsection \<open>Authorization comes first\<close>

text \<open>The access a use case resolves before it calls the repository.\<close>

fun needs_grant :: "sdk \<Rightarrow> use_case \<Rightarrow> (job_request \<times> bytes) option" where
  "needs_grant k (Use_list r) = Some (list_access_request r, act_list k)"
| "needs_grant k (Use_job r permission) = Some (r, permission)"
| "needs_grant k (Use_cancel r) = Some (r, act_cancel k)"
| "needs_grant k (Use_download r) = Some (r, act_download k)"
| "needs_grant k u = None"

lemma outcome_stop: "wp m (\<lambda>_ _. False) (\<lambda>_ w'. w' = w) w \<Longrightarrow> \<exists>e. outcome m w = (Some e, w)"
  by (cases "m w") (auto simp: wp_def outcome_def split: sum.splits)

text \<open>
  C23: A listing, a read, a cancellation or a download whose caller does not hold the owner grant of
  its permission ends in an error before any statement is executed and any provider is called.
\<close>

theorem denied_request_stops:
  assumes "needs_grant k u = Some (r, permission)"
    "\<nexists>access. resolve_job_access (cx_principal ctx) r permission = Inr access"
  shows "\<exists>e. serve k sv csv ctx u w = (Some e, w)"
proof -
  obtain e where e: "resolve_job_access (cx_principal ctx) r permission = Inl e"
    using assms(2) by (cases "resolve_job_access (cx_principal ctx) r permission") auto
  show ?thesis
    using assms(1) e
    by (cases u)
      (auto intro!: outcome_stop
        simp: list_jobs_def job_for_action_def cancel_job_def download_def op_simps
        split: option.splits)
qed

theorem denied_request_stops_witness:
  "\<exists>e. serve sample_sdk (module_service (\<lambda>_. None) sample_application no_providers) sample_codec
     anonymous (Use_cancel \<lparr>jq_scope = sample_scope, jq_job_id = ''j'', jq_provider = [],
       jq_operation = []\<rparr>) (calm leased_db 0) = (Some e, calm leased_db 0)"
  by (rule denied_request_stops [where permission = "''j.cancel''"])
    (simp_all add: sample_sdk_def anonymous_def resolve_job_access_def)

subsection \<open>Callers see their own jobs\<close>

definition own_job :: "request_context \<Rightarrow> job \<Rightarrow> bool" where
  "own_job ctx j \<longleftrightarrow>
     (case cx_principal ctx of
        None \<Rightarrow> False
      | Some who \<Rightarrow> j_workspace j = trim_space (pr_workspace who) \<and> j_actor j = trim_space (pr_user who))"

lemma resolved_access:
  assumes "resolve_job_access ctx r key = Inr access"
  shows "\<exists>who. ctx = Some who \<and> normalized access = access \<and>
    ac_workspace access = trim_space (pr_workspace who) \<and> ac_owner access = trim_space (pr_user who)"
proof -
  obtain who acl where who: "ctx = Some who" "pr_bundle who = Some acl"
    using assms by (auto simp: resolve_job_access_def split: option.splits)
  with assms show ?thesis
    by (auto simp: resolve_job_access_cases holds_owner_access_def Let_def normalized_def
        split: option.splits if_splits)
qed

lemma selected_own:
  assumes "row \<in> set (job_select r access d)" "resolve_job_access (cx_principal ctx) r key = Inr access"
  shows "own_job ctx (scan_job row) \<and> j_id (scan_job row) = trim_space (jq_job_id r)"
  using assms resolved_access [OF assms(2)]
  by (auto simp: own_job_def job_select_def select_where_def job_candidate_def scan_job_def)

lemma found_wp:
  "wp (found_or_not_found found) Q R w =
     (case found of Inl e \<Rightarrow> R (if e = Err_no_rows then Err_job_not_found else e) w
      | Inr row \<Rightarrow> Q (scan_job row) w)"
  by (simp add: found_or_not_found_def op_simps split: sum.splits)

lemma first_row_in: "first_row rows = Inr row \<Longrightarrow> row \<in> set rows"
  by (auto simp: first_row_def split: list.splits)

lemma store_job_wp:
  assumes "\<And>row. row \<in> set (job_select r (normalized access) (w_db w)) \<Longrightarrow> P (scan_job row)"
  shows "wp (store_job r access) (\<lambda>j w'. w_db w' = w_db w \<and> P j) (\<lambda>_ w'. w_db w' = w_db w) w"
  using assms
  by (auto simp: store_job_def Let_def op_simps found_wp dest!: first_row_in split: sum.splits)

lemma store_jobs_wp:
  assumes "\<And>row. list_predicate r (normalized access) row \<Longrightarrow> P (scan_job row)"
  shows "wp (store_jobs r access) (\<lambda>js w'. list_all P js) (\<lambda>_ _. True) w"
  using assms
  by (auto simp: list_all_iff store_jobs_def Let_def op_simps newest_first_def select_where_def dest!: in_set_takeD)

lemma wp_later:
  "(\<And>x w. wp (f x) Q (\<lambda>_ _. True) w) \<Longrightarrow> wp (and_then m f) Q (\<lambda>_ _. True) w"
  unfolding wp_and_then wp_def [of m] by (auto split: prod.splits sum.splits)

lemma wp_later_tx:
  "(\<And>d w. wp (body d) Q (\<lambda>_ _. True) w) \<Longrightarrow> wp (with_tx body) Q (\<lambda>_ _. True) w"
  by (simp add: wp_with_tx)

lemma store_cancel_wp:
  assumes "\<And>row d. row \<in> set (job_select r (normalized access) d) \<Longrightarrow> P (scan_job row)"
  shows "wp (store_cancel r access) (\<lambda>j _. P j) (\<lambda>_ _. True) w"
proof -
  have last: "wp (and_then (and_then (attempt (query (\<lambda>d. first_row (job_select r (normalized access) d))))
      found_or_not_found) (\<lambda>j. and_then commit_tx (\<lambda>_. ret j))) (\<lambda>j _. P j) (\<lambda>_ _. True) v" for v
    using assms by (auto simp: op_simps found_wp dest!: first_row_in split: sum.splits)
  show ?thesis
  proof (cases "job_access_matches_scope r (normalized access)")
    case True
    then show ?thesis
      unfolding store_cancel_def Let_def by (auto intro!: wp_later_tx wp_later last)
  qed (simp add: store_cancel_def op_simps)
qed

lemma selected_job:
  assumes "row \<in> set (job_select r (normalized access) d)"
    "resolve_job_access (cx_principal ctx) r key = Inr access"
  shows "own_job ctx (scan_job row) \<and> j_id (scan_job row) = trim_space (jq_job_id r) \<and>
    row \<in> set (db_jobs d)"
  using selected_own [of row r access d ctx key] assms resolved_access [OF assms(2)]
  by (auto simp: job_select_def select_where_def row_simps)

lemma list_jobs_own:
  "wp (list_jobs k (module_service check a h) ctx jl)
     (\<lambda>js _. list_all (own_job ctx) js) (\<lambda>_ _. True) w"
proof -
  have listed: "own_job ctx (scan_job row)"
    if "list_predicate jl (normalized access) row"
      "resolve_job_access (cx_principal ctx) (list_access_request jl) key = Inr access"
    for access row key
    using that resolved_access [OF that(2)] by (auto simp: own_job_def list_predicate_def scan_job_def)
  show ?thesis
    by (auto simp: list_jobs_def op_simps sql_repository_def split: option.splits sum.splits
        intro!: store_jobs_wp dest: listed)
qed

lemma job_for_action_own:
  "wp (job_for_action k (module_service check a h) ctx jq permission)
     (\<lambda>j w'. w_db w' = w_db w \<and> own_job ctx j \<and> j_id j = trim_space (jq_job_id jq) \<and>
        (\<exists>row \<in> set (db_jobs (w_db w)). j = scan_job row)) (\<lambda>_ w'. w_db w' = w_db w) w"
proof (cases "resolve_job_access (cx_principal ctx) jq permission")
  case (Inr access)
  have "wp (store_job jq access)
      (\<lambda>j w'. w_db w' = w_db w \<and> own_job ctx j \<and> j_id j = trim_space (jq_job_id jq) \<and>
        (\<exists>row \<in> set (db_jobs (w_db w)). j = scan_job row)) (\<lambda>_ w'. w_db w' = w_db w) w"
    by (rule store_job_wp) (use selected_job [OF _ Inr] in blast)
  with Inr show ?thesis
    by (auto simp: job_for_action_def op_simps sql_repository_def split: option.splits)
qed (auto simp: job_for_action_def op_simps split: option.splits)

lemma cancel_job_own:
  "wp (cancel_job k (module_service check a h) ctx jq)
     (\<lambda>j _. own_job ctx j \<and> j_id j = trim_space (jq_job_id jq)) (\<lambda>_ _. True) w"
  by (auto simp: cancel_job_def op_simps sql_repository_def split: option.splits sum.splits
      intro!: store_cancel_wp dest: selected_job)

text \<open>
  C24: Whatever job a caller lists, reads or cancels through the module is in the workspace and belongs
  to the actor of the authenticated principal, whatever the request names; a single job has the
  requested id.
\<close>

theorem callers_see_their_own_jobs:
  "wp (list_jobs k (module_service check a h) ctx jl)
     (\<lambda>js _. list_all (own_job ctx) js) (\<lambda>_ _. True) w \<and>
   wp (job_for_action k (module_service check a h) ctx jq permission)
     (\<lambda>j w'. w_db w' = w_db w \<and> own_job ctx j \<and> j_id j = trim_space (jq_job_id jq)) (\<lambda>_ _. True) w \<and>
   wp (cancel_job k (module_service check a h) ctx jq)
     (\<lambda>j _. own_job ctx j \<and> j_id j = trim_space (jq_job_id jq)) (\<lambda>_ _. True) w"
  by (auto intro: list_jobs_own cancel_job_own wp_mono [OF job_for_action_own])

subsection \<open>Erasures that must not happen\<close>

lemma unmarshal_written_holds:
  assumes "\<forall>v \<in> set vs. json_text v"
  shows "unmarshal_holds (json_array vs) = Some vs"
proof -
  have "set_each (set_raw (\<lambda>v _. v)) [] us = Some us" for us :: "bytes list"
    by (induction us) (simp_all add: set_raw_def)
  then show ?thesis
    using document_written [OF json_text_array [OF assms]] array_elements_written [OF assms]
    by (simp add: unmarshal_holds_def unmarshal_def set_slice_def)
qed

text \<open>
  C25: An erasure is neither prepared nor executed while a legal hold is recorded, from a request
  context of another workspace, or without a request id: the use case ends in an error before the
  store is touched. A list of holds is any JSON array with at least one element.
\<close>

theorem blocked_erasure_changes_nothing:
  assumes "u = Use_prepare q \<or> (\<exists>raw. u = Use_erase q raw)"
    "(\<exists>vs. er_legal_holds q = json_array vs \<and> vs \<noteq> [] \<and> (\<forall>v \<in> set vs. json_text v)) \<or>
     er_workspace q \<noteq> cx_workspace ctx \<or> trim_space (er_request q) = [] \<or>
     trim_space (er_subject q) = []"
  shows "\<exists>e. serve k sv csv ctx u w = (Some e, w)"
proof -
  have held: "validate_subject_erasure q \<noteq> None"
    if "er_legal_holds q = json_array vs" "vs \<noteq> []" "\<forall>v \<in> set vs. json_text v" for vs
  proof -
    have "json_array vs \<noteq> []" by (simp add: json_array_def)
    with that show ?thesis by (simp add: validate_subject_erasure_def unmarshal_written_holds)
  qed
  have "validate_subject_erasure q \<noteq> None \<or>
      (\<exists>e. subject_store sv ctx (er_workspace q) (er_subject q) = Inl e)"
  proof -
    have "er_workspace q \<noteq> cx_workspace ctx \<or> trim_space (er_subject q) = [] \<Longrightarrow>
        \<exists>e. subject_store sv ctx (er_workspace q) (er_subject q) = Inl e"
      by (auto simp: subject_store_def)
    moreover have "trim_space (er_request q) = [] \<Longrightarrow> validate_subject_erasure q \<noteq> None"
      by (simp add: validate_subject_erasure_def)
    ultimately show ?thesis using assms(2) held by blast
  qed
  then show ?thesis
    using assms(1)
    by (auto intro!: outcome_stop
        simp: prepare_subject_erasure_def erase_prepared_subject_def op_simps split: option.splits)
qed

theorem blocked_erasure_changes_nothing_witness:
  "\<exists>e. serve sample_sdk (module_service (\<lambda>_. None) sample_application no_providers) sample_codec
     anonymous
     (Use_prepare \<lparr>er_workspace = ''w'', er_subject = ''s'', er_request = ''q'',
        er_legal_holds = ''[\"court\"]''\<rparr>) (calm leased_db 0) = (Some e, calm leased_db 0)"
proof -
  have "''[\"court\"]'' = json_array [json_string ''court'']"
    by (simp add: json_array_def json_string_def escape_ascii_def byte_def)
  moreover have "json_text (json_string ''court'')"
    by (rule json_text_string) (simp add: byte_def)
  ultimately show ?thesis
    by (intro blocked_erasure_changes_nothing) (auto intro!: exI [of _ "[json_string ''court'']"])
qed

subsection \<open>Jobs of others\<close>

text \<open>
  Who may change a job beside the workers: its owner with the grant may cancel it, and the lifecycle of
  its subject may erase it, from the job's workspace and when no legal hold is recorded. Everybody
  else's use cases are \<open>foreign\<close> to it.
\<close>

definition owns :: "principal \<Rightarrow> job_row \<Rightarrow> bool" where
  "owns who row \<longleftrightarrow>
     trim_space (pr_workspace who) = jr_workspace row \<and> trim_space (pr_user who) = jr_actor row"

definition may_cancel :: "sdk \<Rightarrow> request_context \<Rightarrow> job_request \<Rightarrow> job_row \<Rightarrow> bool" where
  "may_cancel k ctx r row \<longleftrightarrow>
     (case (cx_principal ctx, resolve_job_access (cx_principal ctx) r (act_cancel k)) of
        (Some who, Inr access) \<Rightarrow> owns who row
      | _ \<Rightarrow> False)"

definition may_erase :: "request_context \<Rightarrow> erasure_request \<Rightarrow> job_row \<Rightarrow> bool" where
  "may_erase ctx q row \<longleftrightarrow>
     jr_workspace row = cx_workspace ctx \<and> jr_actor row = er_subject q \<and>
     (er_legal_holds q = [] \<or> unmarshal_holds (er_legal_holds q) = Some [])"

fun foreign :: "sdk \<Rightarrow> job_row \<Rightarrow> request_context \<times> use_case \<Rightarrow> bool" where
  "foreign k row (ctx, Use_cancel r) \<longleftrightarrow> \<not> may_cancel k ctx r row"
| "foreign k row (ctx, Use_prepare q) \<longleftrightarrow> \<not> may_erase ctx q row"
| "foreign k row (ctx, Use_erase q raw) \<longleftrightarrow> \<not> may_erase ctx q row"
| "foreign k row (ctx, Use_worker fuel ticks c) \<longleftrightarrow> False"
| "foreign k row (ctx, Use_materialize fuel r) \<longleftrightarrow> False"
| "foreign k row (ctx, Use_heartbeat x ttl) \<longleftrightarrow> False"
| "foreign k row (ctx, u) \<longleftrightarrow> True"

abbreviation present :: "job_row \<Rightarrow> db \<Rightarrow> bool" where
  "present row d \<equiv> row \<in> set (db_jobs d)"

interpretation present: growing_jobs "present row" for row
  by unfold_locales simp_all

lemma present_update: "\<not> p row \<Longrightarrow> keeps (present row) (statement (update_where jobs_table p f))"
  by (rule keeps_statement) (auto simp: update_where_def row_simps set_update_rows)

lemma present_cancel:
  assumes "\<not> (jr_workspace row = ac_workspace (normalized access) \<and> jr_actor row = ac_owner (normalized access))"
  shows "keeps (present row) (store_cancel r access)"
  unfolding store_cancel_def Let_def
  by (intro keeps_rules present_update) (use assms in \<open>auto simp: job_candidate_def\<close>)

lemma present_prepare_jobs:
  assumes "\<not> (jr_workspace row = er_workspace q \<and> jr_actor row = er_subject q)"
  shows "keeps (present row) (prepare_jobs q jids)"
proof (induction jids)
  case (Cons jid jids)
  then show ?case
    unfolding prepare_jobs.simps prepare_job_def
    by (intro keeps_rules present_update) (use assms in auto)
qed (simp add: keeps_rules)

lemma present_erase_jobs:
  assumes "\<not> (jr_workspace row = er_workspace q \<and> jr_actor row = er_subject q)"
  shows "keeps (present row) (erase_jobs q js)"
proof (induction js)
  case (Cons j js)
  then show ?case
    unfolding erase_jobs.simps erase_job_def
    by (intro keeps_rules present_update present.tables_kept) (use assms in auto)
qed (simp add: keeps_rules)

lemma present_lifecycle:
  assumes "\<not> (jr_workspace row = er_workspace q \<and> jr_actor row = er_subject q)"
  shows "keeps (present row) (store_prepare_erasure q)" "keeps (present row) (store_erase_prepared q raw)"
  unfolding store_prepare_erasure_def store_erase_prepared_def
  by (intro keeps_rules present.tables_kept present.lock_kept present_prepare_jobs [OF assms]
      present_erase_jobs [OF assms])+

text \<open>An erasure that comes through is not blocked by a hold, and is of the context's workspace.\<close>

lemma foreign_lifecycle:
  assumes "\<not> may_erase ctx q row"
  shows "keeps (present row) (prepare_subject_erasure (module_service check a h) ctx q)"
    "keeps (present row) (erase_prepared_subject (module_service check a h) ctx q raw)"
proof -
  have other: "\<not> (jr_workspace row = er_workspace q \<and> jr_actor row = er_subject q)"
    if "validate_subject_erasure q = None" "subject_store sv ctx (er_workspace q) (er_subject q) = Inr s" for sv s
    using that assms
    by (auto simp: validate_subject_erasure_def subject_store_def may_erase_def
        split: if_splits option.splits)
  have given: "s = sql_subjects"
    if "subject_store (module_service check a h) ctx (er_workspace q) (er_subject q) = Inr s" for s
    using that by (auto simp: subject_store_def split: if_splits)
  show "keeps (present row) (prepare_subject_erasure (module_service check a h) ctx q)"
    "keeps (present row) (erase_prepared_subject (module_service check a h) ctx q raw)"
    unfolding prepare_subject_erasure_def erase_prepared_subject_def require_def
    by (intro keeps_case_option keeps_lift_then keeps_throw;
        use other given present_lifecycle in \<open>fastforce simp: sql_subjects_def\<close>)+
qed

lemma foreign_cancel:
  assumes "\<not> may_cancel k ctx r row"
  shows "keeps (present row) (cancel_job k (module_service check a h) ctx r)"
proof -
  have "keeps (present row) (store_cancel r access)"
    if "resolve_job_access (cx_principal ctx) r (act_cancel k) = Inr access" for access
    using assms resolved_access [OF that] that
    by (intro present_cancel) (auto simp: may_cancel_def owns_def)
  then show ?thesis
    unfolding cancel_job_def require_def
    by (intro keeps_case_option keeps_lift_then keeps_throw) (simp add: sql_repository_def)
qed

lemma foreign_reads:
  "keeps I (list_jobs k (module_service check a h) ctx jl)"
  "keeps I (job_for_action k (module_service check a h) ctx jq permission)"
  "keeps I (download k (module_service check a h) ctx jq)"
  "keeps I (preview_subject (module_service check a h) ctx workspace subject)"
proof -
  show "keeps I (list_jobs k (module_service check a h) ctx jl)"
    "keeps I (job_for_action k (module_service check a h) ctx jq permission)"
    "keeps I (download k (module_service check a h) ctx jq)"
    unfolding list_jobs_def job_for_action_def download_def require_def module_service_simps
    by (intro keeps_rules; simp add: sql_repository_def store_reads_kept)+
  have "s = sql_subjects"
    if "subject_store (module_service check a h) ctx workspace subject = Inr s" for s
    using that by (auto simp: subject_store_def split: if_splits)
  then show "keeps I (preview_subject (module_service check a h) ctx workspace subject)"
    unfolding preview_subject_def
    by (intro keeps_lift_then) (auto simp: sql_subjects_def store_reads_kept)
qed

lemma foreign_submits:
  "keeps (present row) (submit_import_job k (module_service check a h) im)"
  "keeps (present row) (submit_export_job k (module_service check a h) ex)"
  unfolding submit_import_job_def submit_export_job_def require_def module_service_simps
  by (intro keeps_rules; simp add: sql_repository_def present.submit_kept)+

lemma serve_foreign:
  assumes "foreign k row (ctx, u)" "present row (w_db w)"
  shows "present row (w_db (snd (serve k (module_service check a h) csv ctx u w)))"
  using assms
  by (cases u)
    (simp_all add: outcome_keeps [where I = "present row"] foreign_submits foreign_reads foreign_cancel foreign_lifecycle)

text \<open>
  C18: Jobs of others are out of reach: through any history of use cases, in any order and under whatever
  identities, faults and clock, a job stays exactly as it is as long as nobody cancels it who is its
  owner with the grant, no erasure of its own subject arrives from its own workspace without a legal
  hold, and no worker takes it: submissions, listings, reads, downloads, previews and everybody
  else's cancellations and erasures leave its row alone.
\<close>

theorem others_leave_jobs_alone:
  assumes "row \<in> set (db_jobs (w_db w))" "list_all (foreign k row) us"
  shows "row \<in> set (db_jobs (w_db (serve_all k (module_service check a h) csv us w)))"
  using assms
proof (induction us arbitrary: w)
  case (Cons cu us)
  obtain ctx u where "cu = (ctx, u)" by (cases cu)
  with Cons serve_foreign [of k row ctx u w check a h csv] show ?case by (simp del: serve.simps)
qed simp

text \<open>The job of \<^const>\<open>leased_db\<close> and somebody without a principal, who also erases another subject.\<close>

theorem others_leave_jobs_alone_witness:
  "leased_job 0 \<in> set (db_jobs (w_db (serve_all sample_sdk
     (module_service (\<lambda>_. None) sample_application no_providers) sample_codec
     [(anonymous, Use_cancel \<lparr>jq_scope = sample_scope, jq_job_id = ''j'', jq_provider = [], jq_operation = []\<rparr>),
      (anonymous, Use_submit_export sample_export),
      (anonymous, Use_prepare \<lparr>er_workspace = ''w'', er_subject = ''s'', er_request = ''q'',
         er_legal_holds = []\<rparr>)]
     (calm leased_db 0))))"
  by (rule others_leave_jobs_alone)
    (simp_all add: calm_def leased_db_def leased_job_def default_job_row_def anonymous_def
      may_cancel_def may_erase_def resolve_job_access_def)

end
