(* ===== verification/WorkerLoop.thy ===== *)
theory WorkerLoop
  imports ImportCorrect ServiceCorrect
begin

text \<open>
  What a worker leaves behind when it has finished with a job: a processed job is never left under the worker's lease, unless the
  report of its failure failed too.
\<close>

subsection \<open>Operations that give the job up\<close>

text \<open>
  \<open>releases x ended m\<close>: from a well-formed database, when \<open>m\<close> returns a value that counts as an
  end of the processing, the fence of \<open>x\<close> lets nobody through any more.
\<close>

definition releases :: "work_item \<Rightarrow> ('a \<Rightarrow> bool) \<Rightarrow> 'a op \<Rightarrow> bool" where
  "releases x ended m \<longleftrightarrow>
     (\<forall>w. good_db (w_db w) \<longrightarrow>
        wp m (\<lambda>r w'. good_db (w_db w') \<and> (ended r \<longrightarrow> \<not> passes_fence x (w_db w')))
          (\<lambda>_ w'. good_db (w_db w')) w)"

lemma releasesD:
  "releases x ended m \<Longrightarrow> good_db (w_db w) \<Longrightarrow>
   wp m (\<lambda>r w'. good_db (w_db w') \<and> (ended r \<longrightarrow> \<not> passes_fence x (w_db w')))
     (\<lambda>_ w'. good_db (w_db w')) w"
  by (simp add: releases_def)

named_theorems release_rules \<open>rules that show an operation gives its job up\<close>

lemma releases_after:
  assumes "keeps good_db m" "\<And>v. releases x ended (f v)"
  shows "releases x ended (and_then m f)"
  unfolding releases_def wp_and_then
proof (intro allI impI)
  fix w :: world assume "good_db (w_db w)"
  then show "wp m (\<lambda>v. wp (f v) (\<lambda>r w'. good_db (w_db w') \<and> (ended r \<longrightarrow> \<not> passes_fence x (w_db w')))
      (\<lambda>_ w'. good_db (w_db w'))) (\<lambda>_ w'. good_db (w_db w')) w"
    by (intro wp_mono [OF keeps_wp [OF assms(1)]] releasesD [OF assms(2)])
qed

lemma releases_before_ret:
  assumes "releases x (\<lambda>_. True) m"
  shows "releases x ended (and_then m (\<lambda>_. ret y))"
  unfolding releases_def wp_and_then wp_ret
  by (auto intro!: wp_mono [OF releasesD [OF assms]])

lemma releases_throw [release_rules]: "releases x ended (throw e)"
  by (simp add: releases_def op_simps)

lemma releases_not_ended [release_rules]: "\<not> ended v \<Longrightarrow> releases x ended (ret v)"
  by (simp add: releases_def op_simps)

lemma releases_if [release_rules]:
  "releases x ended m \<Longrightarrow> releases x ended n \<Longrightarrow> releases x ended (if b then m else n)"
  by simp

lemma releases_let [release_rules]: "releases x ended (f a) \<Longrightarrow> releases x ended (let v = a in f v)"
  by simp

lemma releases_option [release_rules]:
  "releases x ended m \<Longrightarrow> (\<And>y. releases x ended (f y)) \<Longrightarrow>
   releases x ended (case v of None \<Rightarrow> m | Some y \<Rightarrow> f y)"
  by (simp split: option.splits)

lemma releases_prod [release_rules]:
  "(\<And>a b. releases x ended (f a b)) \<Longrightarrow> releases x ended (case v of (a, b) \<Rightarrow> f a b)"
  by (simp split: prod.splits)

lemma no_longer_fenced:
  assumes "\<And>r. jr_status (f r) \<noteq> ''running''"
  shows "\<not> passes_fence x (d\<lparr>db_jobs := update_rows (fenced_job x) f rows\<rparr>)"
  using assms by (auto simp: passes_fence_def set_update_rows fenced_job_def)

lemma complete_releases: "releases x ended (complete x art)"
  unfolding releases_def
proof (intro allI impI)
  fix w :: world assume good: "good_db (w_db w)"
  show "wp (complete x art) (\<lambda>r w'. good_db (w_db w') \<and> (ended r \<longrightarrow> \<not> passes_fence x (w_db w')))
      (\<lambda>_ w'. good_db (w_db w')) w"
    by (rule wp_mono [OF wp_conj [OF complete_wp [OF good] keeps_wp [OF keeps_complete]]])
      (use good in \<open>auto simp: no_longer_fenced complete_row_def\<close>)
qed

lemma fail_releases:
  assumes "fp_status plan \<in> {''queued'', ''failed''}"
  shows "releases x ended (fail x plan)"
  unfolding releases_def
proof (intro allI impI)
  fix w :: world assume good: "good_db (w_db w)"
  show "wp (fail x plan) (\<lambda>r w'. good_db (w_db w') \<and> (ended r \<longrightarrow> \<not> passes_fence x (w_db w')))
      (\<lambda>_ w'. good_db (w_db w')) w"
    by (rule wp_mono [OF fail_wp [OF good assms]])
      (use good assms in \<open>auto simp: no_longer_fenced fail_row_def\<close>)
qed

subsection \<open>Processing a job\<close>

lemmas call_kept = keeps_call keeps_lift keeps_ret keeps_case_option

lemma import_releases: "releases x ended (process_import (sql_repository check) h csv x)"
  unfolding process_import_def import_artifact_def import_rows_def sql_repository_simps
    validating_def applying_def
  by (intro release_rules releases_after complete_releases keeps_progress keeps_call
      good_store.read_import_kept good_store.whole_file_kept)

lemma finish_releases:
  "releases x ended (finish_export (sql_repository check) p x filename content_type expires records n)"
  unfolding finish_export_def sql_repository_simps Let_def
  by (intro release_rules releases_after complete_releases call_kept
      result_identity_reads [unfolded reads_only_keeps, rule_format])

lemma pages_release:
  "releases x (\<lambda>r. r = Some ()) (process_pages fuel (sql_repository check) csv p x)"
  unfolding process_pages_def export_plan_of_def Let_def
  by (intro release_rules releases_after releases_before_ret finish_releases call_kept
      good_store.export_pages_kept) simp

lemma artifact_releases: "releases x ended (process_artifact (sql_repository check) p build x)"
  unfolding process_artifact_def Let_def
  by (intro release_rules releases_after finish_releases keeps_if call_kept
      good_store.skip_committed_kept good_store.commit_chunks_kept)

lemma process_releases:
  "releases x (\<lambda>r. r = Some ()) (process fuel (sql_repository check) h csv x)"
  unfolding process_def process_export_def
  by (intro release_rules releases_before_ret import_releases artifact_releases pages_release)

text \<open>
  C26: A worker that has finished with a job does not leave it under its lease: when the processing of
  a claimed job comes to an end without an error, the job was completed, or its failure was recorded
  and it is queued again or failed for good, and nobody passes the fence with this work item any
  more. (The value is \<open>None\<close> when the provider never ended the export within the fuel.)
\<close>

theorem processed_job_is_released:
  assumes "good_db (w_db w)"
  shows "wp (process_claimed fuel (sql_repository check) h csv x)
    (\<lambda>ended w'. good_db (w_db w') \<and> (ended = None \<or> \<not> passes_fence x (w_db w')))
    (\<lambda>_ w'. good_db (w_db w')) w"
  unfolding process_claimed_def wp_and_then [of "attempt _"] wp_attempt
  by (rule wp_mono [OF releasesD [OF process_releases assms]])
      (auto simp: op_simps
        intro!: wp_mono [OF releasesD [where ended = "\<lambda>_. True", OF fail_releases [OF plan_status]]])

text \<open>
  The worker of \<^const>\<open>leased_db\<close> with an item of no known operation: the failure is recorded and the
  job queued again.
\<close>

theorem processed_job_is_released_witness:
  "\<exists>w'. process_claimed 1 (sql_repository (\<lambda>_. None)) no_providers sample_codec (sample_item 1)
       (calm leased_db 0) = (Inr (Some ()), w') \<and> \<not> passes_fence (sample_item 1) (w_db w')"
proof -
  let ?m = "process_claimed 1 (sql_repository (\<lambda>_. None)) no_providers sample_codec (sample_item 1)"
  have good: "good_db (w_db (calm leased_db 0))" using leased_db_good by (simp add: calm_def)
  have "wp ?m (\<lambda>r _. r = Some ()) (\<lambda>_ _. False) (calm leased_db 0)"
    by (simp add: process_claimed_def process_def sample_item_def zero_job_def op_simps fail_def Let_def
        fenced_update_def update_where_def calm_def leased_db_def empty_db_def row_simps fenced_job_def
        leased_job_def default_job_row_def)
  with processed_job_is_released [OF good, of 1 "\<lambda>_. None" no_providers sample_codec "sample_item 1"]
  show ?thesis by (cases "?m (calm leased_db 0)") (auto simp: wp_def split: sum.splits)
qed

end
