(* ===== verification/Leases.thy ===== *)
theory Leases
  imports WorkerLoop Fleet
begin

text \<open>
  How long a worker keeps a job. While it processes the job it renews the lease at every beat of
  \<open>processWithHeartbeat\<close> (\<open>internal/application/dataexchange/service.go\<close>), and all the time other
  workers, clients and the subject lifecycle use the store. Time is part of the state here: what
  happens at an instant reads that instant from its clock.
\<close>

subsection \<open>A worker that renews on time\<close>

record attendance =
  ad_db :: db
  ad_renewed :: instant
  ad_now :: instant

text \<open>
  What may happen beside the heartbeat of the worker's item \<open>x\<close>: everything, but the end of this very
  claim is not reported, and its lease not renewed, by anybody else. Items of other claims of the same
  job may be reported at any time.
\<close>

definition same_claim :: "work_item \<Rightarrow> work_item \<Rightarrow> bool" where
  "same_claim x y \<longleftrightarrow>
     j_id (w_job y) = j_id (w_job x) \<and> j_lease_owner (w_job y) = j_lease_owner (w_job x) \<and>
     j_fencing_token (w_job y) = j_fencing_token (w_job x)"

fun leaves_to_worker :: "work_item \<Rightarrow> store_call \<Rightarrow> bool" where
  "leaves_to_worker x (Complete_job y artifact) = (\<not> same_claim x y)"
| "leaves_to_worker x (Fail_job y code now) = (\<not> same_claim x y)"
| "leaves_to_worker x (Renew_lease y ttl) = (\<not> same_claim x y)"
| "leaves_to_worker x c = True"

inductive attend_step ::
  "(job_request \<Rightarrow> err option) \<Rightarrow> work_item \<Rightarrow> duration \<Rightarrow> attendance \<Rightarrow> attendance \<Rightarrow> bool"
  for check x ttl where
  wait: "ad_now s \<le> now \<Longrightarrow> now \<le> ad_renewed s + 2 * heartbeat_interval ttl \<Longrightarrow> four_digit now \<Longrightarrow>
    attend_step check x ttl s (s\<lparr>ad_now := now\<rparr>)"
| beat: "w_db w = ad_db s \<Longrightarrow> w_clock w = (\<lambda>_. ad_now s) \<Longrightarrow> four_digit (ad_now s + lease_ttl ttl) \<Longrightarrow>
    heartbeat x ttl w = (Inr (), w') \<Longrightarrow>
    attend_step check x ttl s (s\<lparr>ad_db := w_db w', ad_renewed := ad_now s\<rparr>)"
| others: "w_db w = ad_db s \<Longrightarrow> w_clock w = (\<lambda>_. ad_now s) \<Longrightarrow> leaves_to_worker x k \<Longrightarrow>
    attend_step check x ttl s (s\<lparr>ad_db := w_db (snd (run_call check k w))\<rparr>)"

abbreviation attends ::
  "(job_request \<Rightarrow> err option) \<Rightarrow> work_item \<Rightarrow> duration \<Rightarrow> attendance \<Rightarrow> attendance \<Rightarrow> bool" where
  "attends check x ttl \<equiv> (attend_step check x ttl)\<^sup>*\<^sup>*"

subsection \<open>The job stays with its worker\<close>

text \<open>The row of the job is the worker's until \<open>u\<close>, or a client has cancelled it.\<close>

definition held_row :: "work_item \<Rightarrow> bytes \<Rightarrow> job_row \<Rightarrow> bool" where
  "held_row x u r \<longleftrightarrow>
     jr_id r \<noteq> j_id (w_job x) \<or> jr_status r = ''cancelled'' \<or> (fenced_job x r \<and> jr_lease_expires r = u)"

definition held :: "work_item \<Rightarrow> bytes \<Rightarrow> db \<Rightarrow> bool" where
  "held x u d \<longleftrightarrow> j_id (w_job x) \<in> jr_id ` set (db_jobs d) \<and> list_all (held_row x u) (db_jobs d)"

lemma update_rows_ids:
  "(\<And>r. r \<in> set rs \<Longrightarrow> p r \<Longrightarrow> jr_id (f r) = jr_id r) \<Longrightarrow>
   jr_id ` set (update_rows p f rs) = jr_id ` set rs"
  unfolding update_rows_def list.set_map image_image by (rule image_cong) simp_all

lemma update_rows_origin:
  assumes "q \<in> set (update_rows p f rs)"
  obtains r where "r \<in> set rs" "q = (if p r then f r else r)"
  using assms unfolding update_rows_def list.set_map by blast

lemma held_update:
  assumes "held x u d" "\<And>r. r \<in> set (db_jobs d) \<Longrightarrow> p r \<Longrightarrow> jr_id (f r) = jr_id r"
    "\<And>r. r \<in> set (db_jobs d) \<Longrightarrow> p r \<Longrightarrow> held_row x u r \<Longrightarrow> held_row x u (f r)"
  shows "held x u (d\<lparr>db_jobs := update_rows p f (db_jobs d)\<rparr>)"
proof -
  have "jr_id ` set (update_rows p f (db_jobs d)) = jr_id ` set (db_jobs d)"
    by (rule update_rows_ids) (simp add: assms(2))
  then show ?thesis
    using assms(1,3) by (auto simp: held_def list_all_iff update_rows_def)
qed

interpretation holding: client_history "held x u" for x u
proof unfold_locales
  show "held x u d'" if "db_jobs d' = db_jobs d" "held x u d" for d d'
    using that by (simp add: held_def)
  show "held x u (d\<lparr>db_jobs := db_jobs d @ [r]\<rparr>)"
    if "held x u d" "jr_id r \<notin> jr_id ` set (db_jobs d)" for d r
    using that by (auto simp: held_def held_row_def)
  show "held x u (d\<lparr>db_jobs := update_rows p f (db_jobs d)\<rparr>)"
    if "held x u d" "\<And>r. r \<in> set (db_jobs d) \<Longrightarrow> p r \<Longrightarrow> client_step r (f r)" for d p f
  proof (rule held_update [OF that(1)])
    fix r assume r: "r \<in> set (db_jobs d)" "p r"
    from that(2) [OF this] have step: "client_step r (f r)" .
    then show id: "jr_id (f r) = jr_id r"
      using step_identity by (fastforce simp: client_step_def identity_of_def)
    show "held_row x u (f r)" if "held_row x u r"
      using step by (simp add: held_row_def client_step_def)
  qed
qed

text \<open>The worker's own writes leave the lease alone; items of other claims do not pass its fence.\<close>

lemma fenced_held:
  assumes "\<And>r. jr_id (f r) = jr_id r"
    "j_id (w_job y) = j_id (w_job x) \<Longrightarrow> (\<And>r. held_row x u r \<Longrightarrow> fenced_job y r \<Longrightarrow> held_row x u (f r))"
  shows "keeps (held x u) (fenced_update y f e)"
proof -
  have "keeps (held x u) (statement (update_where jobs_table (fenced_job y) f))"
  proof (rule keeps_statement)
    fix d n d' assume d: "held x u d" "update_where jobs_table (fenced_job y) f d = Inr (n, d')"
    then have "d' = d\<lparr>db_jobs := update_rows (fenced_job y) f (db_jobs d)\<rparr>"
      by (simp add: update_where_def row_simps)
    moreover have "held_row x u (f r)" if "fenced_job y r" "held_row x u r" for r
      using that assms by (cases "j_id (w_job y) = j_id (w_job x)") (auto simp: held_row_def fenced_job_def)
    ultimately show "held x u d'" using held_update [OF d(1)] assms(1) by simp
  qed
  then show ?thesis unfolding fenced_update_def by (intro keeps_rules)
qed

lemma commit_held: "keeps (held x u) (commit_result_page y seq content cursor checkpoint count)"
  unfolding commit_result_page_def
  by (intro keeps_rules fenced_held holding.tables_kept)
    (auto simp: commit_row_def held_row_def fenced_job_def)

lemma progress_held: "keeps (held x u) (progress y checkpoint count)"
  unfolding progress_def
  by (intro keeps_rules fenced_held) (auto simp: progress_row_def held_row_def fenced_job_def)

lemma others_held:
  assumes "\<not> same_claim x y"
  shows "keeps (held x u) (complete y artifact)" "keeps (held x u) (fail y plan)"
    "keeps (held x u) (heartbeat y ttl)"
  unfolding complete_def fail_def heartbeat_def Let_def
  using assms
  by (intro keeps_rules fenced_held holding.tables_kept;
      auto simp: complete_row_def fail_row_def heartbeat_row_def same_claim_def held_row_def
        fenced_job_def)+

text \<open>No claim finds the job before its lease ends.\<close>

lemma takes_other:
  assumes "held x u d" "good_db d" "takes workspace owner ttl request now d item d'"
    "\<not> u < format_nano now" "u \<noteq> []"
  shows "held x u d'"
proof -
  obtain r where r: "r \<in> set (db_jobs d)" "claimable (format_nano now) r"
    "d' = d\<lparr>db_jobs := update_rows (\<lambda>x. jr_id x = jr_id r) (claim_row owner now ttl) (db_jobs d)\<rparr>"
    using assms(3) by (auto simp: takes_def claim_candidate_def)
  have "held_row x u r" using assms(1) r(1) by (simp add: held_def list_all_iff)
  then have "jr_id r \<noteq> j_id (w_job x)"
    using r(2) assms(4) by (auto simp: held_row_def claimable_def fenced_job_def)
  then show ?thesis
    unfolding r(3) by (intro held_update assms(1)) (auto simp: claim_row_def held_row_def)
qed

lemma claims_held:
  assumes "held x u (w_db w)" "good_db (w_db w)" "w_clock w = (\<lambda>_. now)" "\<not> u < format_nano now"
    "u \<noteq> []"
  shows "held x u (w_db (snd (run_call check (Claim_any owner ttl) w)))"
    "held x u (w_db (snd (run_call check (Claim_one r owner ttl) w)))"
proof -
  have "wp (claim owner ttl) (\<lambda>_ w'. held x u (w_db w')) (\<lambda>_ w'. held x u (w_db w')) w"
    by (rule wp_mono [OF claim_wp [OF assms(2)]])
      (use assms in \<open>auto intro: takes_other split: option.splits\<close>)
  moreover have "wp (claim_job check r owner ttl) (\<lambda>_ w'. held x u (w_db w')) (\<lambda>_ w'. held x u (w_db w')) w"
    unfolding claim_job_def
    by (auto simp: op_simps assms(1) split: option.splits
        intro!: wp_mono [OF claim_workspace_wp [OF assms(2)]])
      (use assms in \<open>auto intro: takes_other\<close>)
  ultimately show "held x u (w_db (snd (run_call check (Claim_any owner ttl) w)))"
    "held x u (w_db (snd (run_call check (Claim_one r owner ttl) w)))"
    by (simp_all add: outcome_def wp_def split: prod.splits sum.splits)
qed

lemma call_held:
  assumes "held x u (w_db w)" "good_db (w_db w)" "w_clock w = (\<lambda>_. now)" "\<not> u < format_nano now"
    "u \<noteq> []" "leaves_to_worker x k"
  shows "held x u (w_db (snd (run_call check k w)))"
  using assms(6) claims_held [OF assms(1-5), of check]
  by (cases k)
    (simp_all add: outcome_keeps outcome_reads calls_read_only assms(1) holding.submit_kept
      holding.cancel_kept holding.erasure_kept commit_held progress_held others_held)

lemma beat_holds:
  assumes "held x u (w_db w)" "good_db (w_db w)" "w_clock w = (\<lambda>_. now)" "heartbeat x ttl w = (Inr (), w')"
  shows "held x (format_nano (now + lease_ttl ttl)) (w_db w')"
proof -
  let ?d = "w_db w"
  have "wp (heartbeat x ttl) (\<lambda>_ w'.
      w_db w' = ?d\<lparr>db_jobs := update_rows (fenced_job x) (heartbeat_row ttl now) (db_jobs ?d)\<rparr>)
      (\<lambda>_ _. True) w"
    using assms(2,3) by (simp add: heartbeat_def op_simps fenced_update_wp)
  from wp_valueD [OF this assms(4)] have
    d': "db_jobs (w_db w') = update_rows (fenced_job x) (heartbeat_row ttl now) (db_jobs ?d)" by simp
  have "jr_id ` set (db_jobs (w_db w')) = jr_id ` set (db_jobs ?d)"
    unfolding d' by (simp add: update_rows_ids heartbeat_row_def)
  moreover have "held_row x (format_nano (now + lease_ttl ttl)) q" if q: "q \<in> set (db_jobs (w_db w'))" for q
  proof -
    obtain p where p: "p \<in> set (db_jobs ?d)" "q = (if fenced_job x p then heartbeat_row ttl now p else p)"
      using update_rows_origin [OF q [unfolded d']] .
    have "held_row x u p" using assms(1) p(1) by (simp add: held_def list_all_iff)
    then show ?thesis
      using p(2) by (auto simp: held_row_def heartbeat_row_def fenced_job_def)
  qed
  ultimately show ?thesis
    using assms(1) by (simp add: held_def list_all_iff)
qed

text \<open>The lease that a claim or a renewal at \<open>t\<close> left is not over two intervals later.\<close>

lemma lease_lasts:
  assumes "ttl \<le> 0 \<or> 3 * second \<le> ttl" "now \<le> t + 2 * heartbeat_interval ttl"
    "four_digit (t + lease_ttl ttl)" "four_digit now"
  shows "\<not> format_nano (t + lease_ttl ttl) < format_nano now"
proof
  assume "format_nano (t + lease_ttl ttl) < format_nano now"
  then have "t + lease_ttl ttl < now + second"
    using format_nano_lessD [OF _ assms(3,4)] seconds_le_imp by blast
  moreover have "2 * heartbeat_interval ttl + second \<le> lease_ttl ttl"
    using assms(1)
    by (auto simp: heartbeat_interval_def lease_ttl_def default_lease_def second_def Let_def)
  ultimately show False using assms(2) by linarith
qed

definition attended_on_time :: "work_item \<Rightarrow> duration \<Rightarrow> attendance \<Rightarrow> bool" where
  "attended_on_time x ttl s \<longleftrightarrow>
     good_db (ad_db s) \<and> held x (format_nano (ad_renewed s + lease_ttl ttl)) (ad_db s) \<and>
     ad_now s \<le> ad_renewed s + 2 * heartbeat_interval ttl \<and>
     four_digit (ad_now s) \<and> four_digit (ad_renewed s + lease_ttl ttl)"

lemma heartbeat_interval_pos: "0 < heartbeat_interval ttl"
  by (simp add: heartbeat_interval_def Let_def)

lemma attend_step_on_time:
  assumes "attend_step check x ttl s s'" "attended_on_time x ttl s" "ttl \<le> 0 \<or> 3 * second \<le> ttl"
  shows "attended_on_time x ttl s'"
  using assms(1)
proof cases
  case (wait now)
  then show ?thesis using assms(2) by (simp add: attended_on_time_def)
next
  case (beat w w')
  then have "held x (format_nano (ad_now s + lease_ttl ttl)) (w_db w')"
    using beat_holds [OF _ _ beat(3,5)] assms(2) by (auto simp: attended_on_time_def)
  moreover have "good_db (w_db w')"
    using beat assms(2) keepsD [OF keeps_heartbeat, of w x ttl] by (simp add: attended_on_time_def)
  ultimately show ?thesis
    using beat assms(2) heartbeat_interval_pos [of ttl] by (simp add: attended_on_time_def)
next
  case (others w k)
  let ?u = "format_nano (ad_renewed s + lease_ttl ttl)"
  have "\<not> ?u < format_nano (ad_now s)"
    using lease_lasts [OF assms(3)] assms(2) by (simp add: attended_on_time_def)
  then have "held x ?u (w_db (snd (run_call check k w)))"
    using call_held [of x ?u w "ad_now s" k check] others assms(2) by (simp add: attended_on_time_def)
  moreover have "good_db (w_db (snd (run_call check k w)))"
    using others assms(2) call_keeps_good [of w check k] by (simp add: attended_on_time_def)
  ultimately show ?thesis using others assms(2) by (simp add: attended_on_time_def)
qed

lemma attends_on_time:
  "attends check x ttl s s' \<Longrightarrow> attended_on_time x ttl s \<Longrightarrow> ttl \<le> 0 \<or> 3 * second \<le> ttl \<Longrightarrow>
   attended_on_time x ttl s'"
  by (induction rule: rtranclp_induct) (blast intro: attend_step_on_time)+

lemma taken_on_time:
  assumes "good_db d" "good_db d'" "takes workspace owner ttl request t d x d'" "four_digit t"
    "four_digit (t + lease_ttl ttl)"
  shows "attended_on_time x ttl \<lparr>ad_db = d', ad_renewed = t, ad_now = t\<rparr>"
proof -
  obtain r where r: "r \<in> set (db_jobs d)" "x = claimed_item owner r"
    "d' = d\<lparr>db_jobs := update_rows (\<lambda>x. jr_id x = jr_id r) (claim_row owner t ttl) (db_jobs d)\<rparr>"
    using assms(3) by (auto simp: takes_def)
  have "jr_id ` set (db_jobs d') = jr_id ` set (db_jobs d)"
    unfolding r(3) by (simp add: update_rows_ids claim_row_def)
  moreover have "held_row x (format_nano (t + lease_ttl ttl)) q" if q: "q \<in> set (db_jobs d')" for q
  proof -
    obtain p where p: "p \<in> set (db_jobs d)" "q = (if jr_id p = jr_id r then claim_row owner t ttl p else p)"
      by (rule update_rows_origin [of q]) (use q in \<open>auto simp: r(3)\<close>)
    show ?thesis
    proof (cases "jr_id p = jr_id r")
      case True
      then have "p = r" using same_id_same_row [OF assms(1) p(1) r(1)] by simp
      then show ?thesis
        using p(2) r(2)
        by (simp add: held_row_def fenced_job_def claim_row_def claimed_item_def item_of_row_def)
    next
      case False
      then show ?thesis
        using p(2) r(2) by (simp add: held_row_def claimed_item_def item_of_row_def)
    qed
  qed
  ultimately show ?thesis
    using assms(2,4,5) r(1,2) heartbeat_interval_pos [of ttl]
    by (simp add: attended_on_time_def held_def list_all_iff claimed_item_def item_of_row_def)
qed

text \<open>
  C27: A worker that renews its lease in time keeps its job for as long as it works on it: with the
  default lease or one of at least three seconds, from the claim on and through any number of
  renewals, each at most two intervals of the heartbeat after the one before (so that any single beat
  may be missed), and whatever other workers, clients and the subject lifecycle do in between, the
  job passes the fence of this worker and is claimable by nobody, unless a client cancelled it.
\<close>

theorem renewed_lease_holds:
  assumes "good_db d" "good_db d'" "takes workspace owner ttl request t d x d'"
    "ttl \<le> 0 \<or> 3 * second \<le> ttl" "four_digit t" "four_digit (t + lease_ttl ttl)"
    "attends check x ttl \<lparr>ad_db = d', ad_renewed = t, ad_now = t\<rparr> s"
  shows "\<exists>r \<in> set (db_jobs (ad_db s)). jr_id r = j_id (w_job x) \<and>
    (jr_status r = ''cancelled'' \<or> (fenced_job x r \<and> \<not> claimable (format_nano (ad_now s)) r))"
proof -
  have ok: "attended_on_time x ttl s"
    by (rule attends_on_time [OF assms(7) taken_on_time [OF assms(1-3,5,6)] assms(4)])
  then obtain r where "r \<in> set (db_jobs (ad_db s))" "jr_id r = j_id (w_job x)"
    "held_row x (format_nano (ad_renewed s + lease_ttl ttl)) r"
    by (auto simp: attended_on_time_def held_def list_all_iff)
  moreover have "\<not> format_nano (ad_renewed s + lease_ttl ttl) < format_nano (ad_now s)"
    using lease_lasts [OF assms(4)] ok by (simp add: attended_on_time_def)
  ultimately show ?thesis
    by (auto simp: held_row_def claimable_def fenced_job_def intro!: bexI [of _ r])
qed

text \<open>
  Worker \<open>A\<close> claims the job at second 2 with the default lease; twenty seconds later another worker
  looks for work.
\<close>

definition job_of_a_default :: job_row where
  "job_of_a_default = claim_row ''A'' 2000000000 0 waiting_job"

lemma four_digit_attended: "four_digit (2000000000 + lease_ttl 0)" "four_digit 22000000000"
  by code_simp+

theorem renewed_lease_holds_witness:
  "\<exists>s. attends (\<lambda>_. None) item_a 0
       \<lparr>ad_db = db_of job_of_a_default, ad_renewed = 2000000000, ad_now = 2000000000\<rparr> s \<and>
     ad_now s = 22000000000 \<and>
     (\<exists>r \<in> set (db_jobs (ad_db s)). jr_id r = ''j'' \<and> (jr_status r = ''cancelled'' \<or> fenced_job item_a r))"
proof -
  let ?s0 = "\<lparr>ad_db = db_of job_of_a_default, ad_renewed = 2000000000, ad_now = 2000000000\<rparr>"
  let ?s1 = "?s0\<lparr>ad_now := 22000000000\<rparr>"
  let ?w = "calm (db_of job_of_a_default) 22000000000"
  let ?s2 = "?s1\<lparr>ad_db := w_db (snd (run_call (\<lambda>_. None) (Claim_any ''B'' 0) ?w))\<rparr>"
  have "attend_step (\<lambda>_. None) item_a 0 ?s0 ?s1"
    by (rule wait) (simp_all add: heartbeat_interval_def second_def four_digit_attended)
  moreover have "attend_step (\<lambda>_. None) item_a 0 ?s1 ?s2"
    by (rule others) (simp_all add: calm_def)
  ultimately have run: "attends (\<lambda>_. None) item_a 0 ?s0 ?s2"
    by (meson converse_rtranclp_into_rtranclp r_into_rtranclp)
  have good: "good_db (db_of job_of_a_default)"
    by (simp add: good_db_def keyed_def all_rows_def row_simps empty_db_def job_row_ok_def
        job_of_a_default_def claim_row_def waiting_job_def default_job_row_def status_values_def)
  have "takes ''w'' ''A'' 0 None 2000000000 (db_of waiting_job) item_a (db_of job_of_a_default)"
    using candidate_a by (simp add: takes_def item_a_def job_of_a_default_def update_rows_def)
  from renewed_lease_holds [OF waiting_good good this _ four_digit_epoch(1) four_digit_attended(1) run]
  show ?thesis
    using run by (intro exI [of _ ?s2])
      (auto simp: item_a_def claimed_item_def item_of_row_def waiting_job_def)
qed

end
