(* ===== verification/ExportCorrect.thy ===== *)
theory ExportCorrect
  imports WorkerLoop
begin

text \<open>
  Exports: the pages a run commits against the plain list of pages of the provider, and that an
  export that breaks off anywhere and is claimed again continues behind the last committed page.
\<close>

subsection \<open>The commits of an export\<close>

record page_commit =
  pc_seq :: int
  pc_content :: bytes
  pc_cursor :: bytes
  pc_checkpoint :: int
  pc_total :: int

text \<open>
  The reference, for a provider whose page depends on the cursor alone: the commits from a cursor on,
  with the page and row counts at the end; \<open>None\<close> when a page is refused, the cursor stands still or
  \<open>fuel\<close> pages were not enough.
\<close>

fun page_commits ::
  "nat \<Rightarrow> codec \<Rightarrow> (bytes \<Rightarrow> export_page) \<Rightarrow> bytes \<Rightarrow> int \<Rightarrow> int \<Rightarrow> bool \<Rightarrow>
   (page_commit list \<times> int \<times> int) option" where
  "page_commits 0 csv page_of cursor n count header = None"
| "page_commits (Suc fuel) csv page_of cursor n count header =
     (if \<not> (n = 0 \<or> cursor \<noteq> []) then Some ([], n, count)
      else
        let page = page_of cursor; next_cursor = pg_next_cursor page;
            count = count + int (length (pg_rows page)) in
        case encode_page csv header page of
          Inl e \<Rightarrow> None
        | Inr content \<Rightarrow>
          let here = (if content = [] then []
                else [\<lparr>pc_seq = n, pc_content = content, pc_cursor = next_cursor, pc_checkpoint = count,
                       pc_total = pg_total page\<rparr>]);
              n = n + int (length here) in
          if next_cursor = [] then Some (here, n, count)
          else if next_cursor = cursor then None
          else map_option (\<lambda>(cs, r). (here @ cs, r))
                 (page_commits fuel csv page_of next_cursor n count True))"

lemma page_commits_more_fuel:
  "page_commits fuel csv page_of cursor n count header = Some r \<Longrightarrow>
   page_commits (Suc fuel) csv page_of cursor n count header = Some r"
proof (induction fuel arbitrary: cursor n count header r)
  case (Suc fuel)
  note unfold = page_commits.simps(2) [of "Suc fuel"] page_commits.simps(2) [of fuel]
  show ?case
    using Suc.prems
    by (subst unfold(1), subst (asm) unfold(2))
      (auto simp: Let_def Suc.IH simp del: page_commits.simps split: if_splits sum.splits)
qed simp

lemma page_commits_seqs:
  "page_commits fuel csv page_of cursor n count header = Some (cs, n', count') \<Longrightarrow>
   n' = n + int (length cs) \<and> (\<forall>i < length cs. pc_seq (cs ! i) = n + int i)"
proof (induction fuel arbitrary: cursor n count header cs n' count')
  case (Suc fuel)
  show ?case
    using Suc.prems
    by (auto simp: Let_def nth_Cons less_Suc_eq_0_disj split: if_splits sum.splits nat.splits
        dest!: Suc.IH)
qed simp

lemma page_commits_cases:
  assumes "page_commits (Suc fuel) csv page_of cursor n count header = Some (cs, n', count')" "cs \<noteq> []"
  obtains (last) content where "cs = [\<lparr>pc_seq = n, pc_content = content, pc_cursor = [],
      pc_checkpoint = count', pc_total = pg_total (page_of cursor)\<rparr>]" "n' = n + 1"
  | (skip) next_cursor count2 where
      "page_commits fuel csv page_of next_cursor n count2 True = Some (cs, n', count')"
  | (commit) k cs' where "cs = k # cs'" "pc_seq k = n"
      "page_commits fuel csv page_of (pc_cursor k) (n + 1) (pc_checkpoint k) True = Some (cs', n', count')"
  using assms
  by (fastforce simp: Let_def simp del: page_commits.simps simp: page_commits.simps(2)
      split: if_splits sum.splits)

text \<open>
  Resuming: what follows the last of some commits is what a run from its cursor, number and count
  commits.
\<close>

lemma page_commits_resume:
  "page_commits fuel csv page_of cursor n count header = Some (cs, n', count') \<Longrightarrow>
   cs = old @ rest \<Longrightarrow> old \<noteq> [] \<Longrightarrow> 0 \<le> n \<Longrightarrow>
   page_commits fuel csv page_of (pc_cursor (List.last old)) (pc_seq (List.last old) + 1)
     (pc_checkpoint (List.last old)) True = Some (rest, n', count')"
proof (induction fuel arbitrary: cursor n count header cs old)
  case (Suc fuel)
  from Suc.prems(2,3) have "cs \<noteq> []" by simp
  from Suc.prems(1) this show ?case
  proof (cases rule: page_commits_cases)
    case (last content)
    with Suc.prems show ?thesis by (cases old) auto
  next
    case (skip next_cursor count2)
    from Suc.IH [OF this Suc.prems(2,3,4)] show ?thesis by (rule page_commits_more_fuel)
  next
    case (commit k cs')
    with Suc.prems obtain old' where old: "old = k # old'" "cs' = old' @ rest" by (cases old) auto
    show ?thesis
    proof (cases "old' = []")
      case True
      then show ?thesis using commit old page_commits_more_fuel by simp
    next
      case False
      with Suc.IH [OF commit(3) old(2)] Suc.prems(4) old show ?thesis
        by (intro page_commits_more_fuel) simp
    qed
  qed
qed simp

subsection \<open>The pages in the database\<close>

text \<open>What the row of the job says after some commits.\<close>

definition progress_after :: "page_commit list \<Rightarrow> bytes \<times> int \<times> int" where
  "progress_after cs =
     (if cs = [] then ([], 0, 0)
      else (pc_cursor (last cs), pc_seq (last cs) + 1, pc_checkpoint (last cs)))"

definition stored_pages :: "bytes \<Rightarrow> bytes \<Rightarrow> db \<Rightarrow> (int \<times> bytes) list" where
  "stored_pages workspace j d =
     map (\<lambda>c. (ck_sequence c, ck_content c)) (chunk_rows workspace j ''result'' d)"

definition pages_stored :: "bytes \<Rightarrow> bytes \<Rightarrow> page_commit list \<Rightarrow> db \<Rightarrow> bool" where
  "pages_stored workspace j cs d \<longleftrightarrow>
     stored_pages workspace j d = map (\<lambda>k. (pc_seq k, pc_content k)) cs \<and>
     (\<exists>r \<in> set (db_jobs d). jr_id r = j \<and> jr_workspace r = workspace \<and>
        (jr_cursor r, jr_result_chunks r, jr_checkpoint r) = progress_after cs)"

lemma insort_key_snoc: "f a \<le> f c \<Longrightarrow> insort_key f a (xs @ [c]) = insort_key f a xs @ [c]"
  by (induction xs) auto

lemma sort_key_snoc: "(\<And>x. x \<in> set xs \<Longrightarrow> f x \<le> f c) \<Longrightarrow> sort_key f (xs @ [c]) = sort_key f xs @ [c]"
  by (induction xs) (auto simp: insort_key_snoc)

lemma chunk_rows_snoc:
  assumes "\<And>n content. (n, content) \<in> set (stored_pages (sc_workspace (w_scope x)) (j_id (w_job x)) d) \<Longrightarrow> n \<le> seq"
  shows "stored_pages (sc_workspace (w_scope x)) (j_id (w_job x))
      (d\<lparr>db_chunks := db_chunks d @ [result_chunk x seq content now], db_jobs := rows\<rparr>) =
    stored_pages (sc_workspace (w_scope x)) (j_id (w_job x)) d @ [(seq, content)]"
proof -
  let ?p = "\<lambda>c. ck_workspace c = sc_workspace (w_scope x) \<and> ck_job c = j_id (w_job x) \<and> ck_direction c = ''result''"
  have "sort_key ck_sequence (filter ?p (db_chunks d) @ [result_chunk x seq content now]) =
      sort_key ck_sequence (filter ?p (db_chunks d)) @ [result_chunk x seq content now]"
  proof (rule sort_key_snoc)
    fix c assume "c \<in> set (filter ?p (db_chunks d))"
    then have "(ck_sequence c, ck_content c) \<in>
        set (stored_pages (sc_workspace (w_scope x)) (j_id (w_job x)) d)"
      by (force simp: stored_pages_def chunk_rows_def select_where_def)
    then show "ck_sequence c \<le> ck_sequence (result_chunk x seq content now)"
      using assms by (auto simp: result_chunk_def)
  qed
  then show ?thesis
    by (simp add: stored_pages_def chunk_rows_def select_where_def) (simp add: result_chunk_def)
qed

lemma same_job_row:
  "good_db d \<Longrightarrow> r \<in> set (db_jobs d) \<Longrightarrow> r' \<in> set (db_jobs d) \<Longrightarrow> jr_id r = jr_id r' \<Longrightarrow> r = r'"
  using good_jobs_keyed [of d] by (auto simp: distinct_map inj_on_def)

lemma commit_stores:
  assumes "good_db (w_db w)"
    "pages_stored (sc_workspace (w_scope x)) (j_id (w_job x)) cs (w_db w)"
    "\<And>k'. k' \<in> set cs \<Longrightarrow> pc_seq k' \<le> pc_seq k"
  shows "wp (commit_result_page x (pc_seq k) (pc_content k) (pc_cursor k) (pc_checkpoint k) (pc_total k))
    (\<lambda>_ w'. good_db (w_db w') \<and>
       pages_stored (sc_workspace (w_scope x)) (j_id (w_job x)) (cs @ [k]) (w_db w'))
    (\<lambda>_ w'. w_db w' = w_db w) w"
proof (rule wp_mono [OF wp_conj [OF commit_page_wp [OF assms(1)] keeps_wp [OF keeps_commit_page]]], goal_cases)
  case 1
  show ?case by (rule assms(1))
next
  case (2 _ w')
  let ?jobs = "\<lambda>now'. update_rows (fenced_job x)
      (commit_row (pc_seq k) (pc_cursor k) (pc_checkpoint k) (pc_total k) now') (db_jobs (w_db w))"
  from 2 obtain now now' where passes: "passes_fence x (w_db w)" and w': "w_db w' = (w_db w)\<lparr>
      db_chunks := db_chunks (w_db w) @ [result_chunk x (pc_seq k) (pc_content k) now],
      db_jobs := ?jobs now'\<rparr>" by blast
  from passes obtain r where r: "r \<in> set (db_jobs (w_db w))" "fenced_job x r"
    by (auto simp: passes_fence_def)
  from assms(2) obtain r' where r': "r' \<in> set (db_jobs (w_db w))" "jr_id r' = j_id (w_job x)"
      "jr_workspace r' = sc_workspace (w_scope x)"
    by (auto simp: pages_stored_def)
  have "r' = r" using same_job_row [OF assms(1) r'(1) r(1)] r' r by (simp add: fenced_job_def)
  have "commit_row (pc_seq k) (pc_cursor k) (pc_checkpoint k) (pc_total k) now' r \<in> set (db_jobs (w_db w'))"
    using r by (simp add: w' set_update_rows)
  then have "\<exists>r \<in> set (db_jobs (w_db w')). jr_id r = j_id (w_job x) \<and>
      jr_workspace r = sc_workspace (w_scope x) \<and>
      (jr_cursor r, jr_result_chunks r, jr_checkpoint r) = progress_after (cs @ [k])"
    by (rule bexI [rotated]) (use r' \<open>r' = r\<close> in \<open>simp add: commit_row_def progress_after_def\<close>)
  moreover have "stored_pages (sc_workspace (w_scope x)) (j_id (w_job x)) (w_db w') =
      map (\<lambda>k. (pc_seq k, pc_content k)) (cs @ [k])"
    unfolding w' using assms(2,3) by (subst chunk_rows_snoc) (auto simp: pages_stored_def)
  ultimately show ?case using 2 by (simp add: pages_stored_def)
qed simp

subsection \<open>The page loop commits the reference\<close>

abbreviation has_pages :: "work_item \<Rightarrow> page_commit list \<Rightarrow> world \<Rightarrow> bool" where
  "has_pages x cs w \<equiv>
     good_db (w_db w) \<and> pages_stored (sc_workspace (w_scope x)) (j_id (w_job x)) cs (w_db w)"

text \<open>Some of the commits \<open>cs\<close> were added to those before, all of them in order.\<close>

definition some_pages :: "work_item \<Rightarrow> page_commit list \<Rightarrow> page_commit list \<Rightarrow> world \<Rightarrow> bool" where
  "some_pages x old cs w \<longleftrightarrow> (\<exists>m. has_pages x (old @ take m cs) w)"

lemma some_pages_none: "has_pages x old w \<Longrightarrow> some_pages x old cs w"
  by (auto simp: some_pages_def intro: exI [of _ 0])

lemma some_pages_later: "some_pages x (old @ [k]) cs w \<Longrightarrow> some_pages x old (k # cs) w"
  by (auto simp: some_pages_def intro: exI [of _ "Suc m" for m])

lemma wp_ret_fun: "wp (ret x) Q R = Q x"
  by (simp add: fun_eq_iff op_simps)

lemma export_pages_wp:
  assumes "\<And>past q. xp_read_page p past q = Inr (page_of (pr_cursor q))"
  shows "page_commits fuel csv page_of cursor n count header = Some (cs, n', count') \<Longrightarrow>
    has_pages x old w \<Longrightarrow> (\<And>k. k \<in> set old \<Longrightarrow> pc_seq k < n) \<Longrightarrow>
    wp (export_pages fuel (sql_repository check) csv p x expires cursor n count header)
      (\<lambda>r w'. r = Some (n', count') \<and> has_pages x (old @ cs) w')
      (\<lambda>_. some_pages x old cs) w"
proof (induction fuel arbitrary: cursor n count header cs old w)
  case (Suc fuel)
  let ?page = "page_of cursor"
  let ?count = "count + int (length (pg_rows ?page))"
  show ?case
  proof (cases "n = 0 \<or> cursor \<noteq> []")
    case False
    with Suc.prems show ?thesis by (simp add: op_simps)
  next
    case reads: True
    obtain content where content: "encode_page csv header ?page = Inr content"
      using Suc.prems(1) reads by (auto simp: Let_def split: sum.splits)
    let ?k = "\<lparr>pc_seq = n, pc_content = content, pc_cursor = pg_next_cursor ?page,
        pc_checkpoint = ?count, pc_total = pg_total ?page\<rparr>"
    define here where "here = (if content = [] then [] else [?k])"
    let ?rest = "\<lambda>n. if pg_next_cursor ?page = [] then ret (Some (n, ?count))
        else if pg_next_cursor ?page = cursor then throw (Err_msg ''export provider cursor did not advance'')
        else export_pages fuel (sql_repository check) csv p x expires (pg_next_cursor ?page) n ?count True"
    have rest: "wp (?rest m) (\<lambda>r w'. r = Some (n', count') \<and> has_pages x (old @ cs) w')
        (\<lambda>_ v. \<exists>cs'. cs = here @ cs' \<and> some_pages x (old @ here) cs' v) v"
      if "m = n + int (length here)" "has_pages x (old @ here) v" for m v
    proof (cases "pg_next_cursor ?page = []")
      case True
      then show ?thesis
        using Suc.prems(1) reads content that by (auto simp: Let_def here_def op_simps)
    next
      case False
      then obtain cs' where cs': "cs = here @ cs'" "pg_next_cursor ?page \<noteq> cursor"
          "page_commits fuel csv page_of (pg_next_cursor ?page) (n + int (length here)) ?count True =
           Some (cs', n', count')"
        using Suc.prems(1) reads content
        by (auto simp: Let_def here_def split: if_splits)
      have "\<And>k. k \<in> set (old @ here) \<Longrightarrow> pc_seq k < n + int (length here)"
        using Suc.prems(3) by (fastforce simp: here_def split: if_splits)
      from Suc.IH [OF cs'(3) that(2) this] show ?thesis
        using False cs' that(1) by (auto elim!: wp_mono)
    qed
    have committed: "wp (and_then (if content \<noteq> [] then and_then (commit_result_page x n content (pg_next_cursor ?page)
          ?count (pg_total ?page)) (\<lambda>_. ret (n + 1)) else ret n) ?rest)
        (\<lambda>r w'. r = Some (n', count') \<and> has_pages x (old @ cs) w') (\<lambda>_. some_pages x old cs)
        (w\<lparr>w_trace := w_trace w @ [Read_page (page_request_of x expires cursor)]\<rparr>)"
      (is "wp _ ?Q ?R ?w")
    proof (cases "content = []")
      case True
      then have "here = []" by (simp add: here_def)
      with Suc.prems(2) have "wp (?rest n) ?Q ?R ?w"
        by (intro wp_mono [OF rest [of n ?w]]) simp_all
      with True show ?thesis by (simp only: wp_and_then wp_ret_fun simp_thms if_False)
    next
      case False
      then have here: "here = [?k]" by (simp add: here_def)
      have le: "\<And>k. k \<in> set old \<Longrightarrow> pc_seq k \<le> pc_seq ?k"
        using Suc.prems(3) by fastforce
      have start: "good_db (w_db ?w)"
          "pages_stored (sc_workspace (w_scope x)) (j_id (w_job x)) old (w_db ?w)"
        using Suc.prems(2) by simp_all
      have after: "wp (?rest (n + 1)) ?Q ?R v" if "has_pages x (old @ [?k]) v" for v
        by (rule wp_mono [OF rest [of "n + 1" v]]) (use that here in \<open>auto intro: some_pages_later\<close>)
      have "wp (commit_result_page x n content (pg_next_cursor ?page) ?count (pg_total ?page))
          (\<lambda>_ w'. has_pages x (old @ [?k]) w') (\<lambda>_ w'. w_db w' = w_db ?w) ?w"
        using commit_stores [OF start le] by simp
      then have "wp (commit_result_page x n content (pg_next_cursor ?page) ?count (pg_total ?page))
          (\<lambda>_. wp (?rest (n + 1)) ?Q ?R) ?R ?w"
        by (rule wp_mono) (use after start some_pages_none in auto)
      with False show ?thesis by (simp only: wp_and_then wp_ret_fun simp_thms if_True)
    qed
    have "pr_cursor (page_request_of x expires cursor) = cursor" by (simp add: page_request_of_def)
    with reads have "wp (export_pages (Suc fuel) (sql_repository check) csv p x expires cursor n count header) Q R w =
        wp (and_then (if content \<noteq> [] then and_then (commit_result_page x n content (pg_next_cursor ?page)
          ?count (pg_total ?page)) (\<lambda>_. ret (n + 1)) else ret n) ?rest) Q R
          (w\<lparr>w_trace := w_trace w @ [Read_page (page_request_of x expires cursor)]\<rparr>)" for Q R
      by (simp only: export_pages.simps simp_thms if_False wp_and_then [of "call _ _"] wp_call assms sum.case
          wp_and_then [of "lift _"] wp_lift Let_def content sql_repository_simps)
    with committed show ?thesis by (simp only:)
  qed
qed simp

subsection \<open>Claimed again after a crash\<close>

definition item_progress :: "work_item \<Rightarrow> bytes \<times> int \<times> int" where
  "item_progress x =
     (j_cursor (w_job x), j_result_chunks (w_job x), j_checkpoint (w_job x))"

lemma claimed_item_simps [simp]:
  "j_id (w_job (claimed_item owner r)) = jr_id r"
  "sc_workspace (w_scope (claimed_item owner r)) = jr_workspace r"
  "item_progress (claimed_item owner r) = (jr_cursor r, jr_result_chunks r, jr_checkpoint r)"
  by (simp_all add: claimed_item_def item_of_row_def zero_job_def item_progress_def)

lemma claim_finds_pages:
  assumes "good_db d" "takes workspace owner ttl (Some request) now d x d'"
    "pages_stored workspace (trim_space (jq_job_id request)) cs d"
  shows "sc_workspace (w_scope x) = workspace \<and> j_id (w_job x) = trim_space (jq_job_id request) \<and>
    item_progress x = progress_after cs \<and>
    pages_stored workspace (trim_space (jq_job_id request)) cs d'"
proof -
  obtain r where r: "r \<in> set (db_jobs d)" "jr_workspace r = workspace"
      "jr_id r = trim_space (jq_job_id request)" "x = claimed_item owner r"
      "d' = d\<lparr>db_jobs := update_rows (\<lambda>x. jr_id x = jr_id r) (claim_row owner now ttl) (db_jobs d)\<rparr>"
    using assms(2) unfolding takes_def claim_candidate_def requested_def by force
  obtain r' where r': "r' \<in> set (db_jobs d)" "jr_id r' = trim_space (jq_job_id request)"
      "(jr_cursor r', jr_result_chunks r', jr_checkpoint r') = progress_after cs"
    using assms(3) by (auto simp: pages_stored_def)
  have "r' = r" using same_job_row [OF assms(1) r'(1) r(1)] r' r by simp
  have "claim_row owner now ttl r \<in> set (db_jobs d')" using r by (simp add: set_update_rows)
  then have "\<exists>q \<in> set (db_jobs d'). jr_id q = trim_space (jq_job_id request) \<and> jr_workspace q = workspace \<and>
      (jr_cursor q, jr_result_chunks q, jr_checkpoint q) = progress_after cs"
    by (rule bexI [rotated]) (use r r' \<open>r' = r\<close> in \<open>simp add: claim_row_def\<close>)
  moreover have "stored_pages workspace j d' = stored_pages workspace j d" for j
    by (simp add: r(5) stored_pages_def chunk_rows_def select_where_def)
  ultimately show ?thesis
    using assms(3) r r' \<open>r' = r\<close> by (simp add: pages_stored_def)
qed

text \<open>A worker that claims the requested job and reads its export to the end.\<close>

definition claim_and_export ::
  "(job_request \<Rightarrow> err option) \<Rightarrow> nat \<Rightarrow> codec \<Rightarrow> export_provider \<Rightarrow> bytes \<Rightarrow> job_request \<Rightarrow> bytes \<Rightarrow>
   duration \<Rightarrow> instant \<Rightarrow> (int \<times> int) option option op" where
  "claim_and_export check fuel csv p workspace request owner ttl expires =
     and_then (claim_workspace workspace owner ttl (Some request)) (\<lambda>found.
     case found of
       None \<Rightarrow> ret None
     | Some x \<Rightarrow>
       and_then (export_pages fuel (sql_repository check) csv p x expires (j_cursor (w_job x))
           (j_result_chunks (w_job x)) (j_checkpoint (w_job x)) (0 < j_result_chunks (w_job x)))
         (\<lambda>r. ret (Some r)))"

lemma commits_from_start:
  assumes "page_commits fuel csv page_of [] 0 0 False = Some (full, n, count)" "k \<le> length full"
  shows "case progress_after (take k full) of (cursor, seq, checkpoint) \<Rightarrow>
    page_commits fuel csv page_of cursor seq checkpoint (0 < seq) = Some (drop k full, n, count) \<and>
    seq = int k"
proof (cases "k = 0")
  case True
  with assms show ?thesis by (simp add: progress_after_def)
next
  case False
  with assms(2) have some: "take k full \<noteq> []" by auto
  then have newest: "last (take k full) = full ! (k - 1)"
    using False assms(2) by (simp add: last_conv_nth min.absorb2)
  have "pc_seq (full ! (k - 1)) = int (k - 1)"
    using page_commits_seqs [OF assms(1)] False assms(2) by auto
  with False have seq: "pc_seq (last (take k full)) + 1 = int k" using newest by simp
  with page_commits_resume [OF assms(1), of "take k full" "drop k full"] some False
  show ?thesis by (simp add: progress_after_def)
qed

text \<open>
  C19: Every page of an export is stored exactly once, however often it broke off: when the provider's
  pages depend on the cursor alone, the reference has the commits \<open>full\<close> and the first \<open>k\<close> of them are
  stored, a worker that claims the job and reads on either stores all of \<open>full\<close>, with the page and row
  counts of an uninterrupted run, or fails with a longer or equal prefix stored, from which the next
  claim goes on. The fuel of the reference is enough.
\<close>

theorem export_pages_exactly_once:
  assumes "good_db (w_db w)"
    "pages_stored workspace (trim_space (jq_job_id request)) (take k full) (w_db w)" "k \<le> length full"
    "page_commits fuel csv page_of [] 0 0 False = Some (full, n, count)"
    "\<And>past q. xp_read_page p past q = Inr (page_of (pr_cursor q))"
  shows "wp (claim_and_export check fuel csv p workspace request owner ttl expires)
    (\<lambda>r w'. good_db (w_db w') \<and>
       (case r of
          None \<Rightarrow> w_db w' = w_db w
        | Some ended \<Rightarrow> ended = Some (n, count) \<and>
            pages_stored workspace (trim_space (jq_job_id request)) full (w_db w')))
    (\<lambda>_ w'. good_db (w_db w') \<and>
       (\<exists>m \<ge> k. pages_stored workspace (trim_space (jq_job_id request)) (take m full) (w_db w')))
    w"
  unfolding claim_and_export_def wp_and_then
proof (rule wp_mono [OF wp_conj [OF claim_workspace_wp [OF assms(1)] keeps_wp [OF keeps_claim_workspace]]],
    goal_cases)
  case 1
  show ?case by (rule assms(1))
next
  case (2 found v)
  show ?case
  proof (cases found)
    case None
    with 2 show ?thesis using assms(1) by (auto simp: op_simps)
  next
    case (Some x)
    with 2 have "takes workspace owner ttl (Some request) (w_clock w (w_readings w)) (w_db w) x (w_db v)"
      "good_db (w_db v)" by auto
    note x = claim_finds_pages [OF assms(1) this(1) assms(2)] this(2)
    let ?job = "w_job x"
    have commits: "page_commits fuel csv page_of (j_cursor ?job) (j_result_chunks ?job) (j_checkpoint ?job)
        (0 < j_result_chunks ?job) = Some (drop k full, n, count)" "j_result_chunks ?job = int k"
      using commits_from_start [OF assms(4,3)] x by (auto simp: item_progress_def split: prod.splits)
    have before: "pc_seq c < j_result_chunks ?job" if "c \<in> set (take k full)" for c
    proof -
      from that obtain i where "i < k" "i < length full" "c = full ! i"
        using assms(3) by (auto simp: in_set_conv_nth)
      then show ?thesis using page_commits_seqs [OF assms(4)] commits(2) by simp
    qed
    have "has_pages x (take k full) v" using x by simp
    from export_pages_wp [OF assms(5) commits(1) this before, of check expires]
    have "wp (export_pages fuel (sql_repository check) csv p x expires (j_cursor ?job) (j_result_chunks ?job)
        (j_checkpoint ?job) (0 < j_result_chunks ?job))
      (\<lambda>r w'. r = Some (n, count) \<and> has_pages x (take k full @ drop k full) w')
      (\<lambda>_. some_pages x (take k full) (drop k full)) v" .
    moreover have "take k full @ take m (drop k full) = take (k + m) full" for m
      by (simp add: take_add)
    then have "some_pages x (take k full) (drop k full) w' \<Longrightarrow>
        good_db (w_db w') \<and> (\<exists>m \<ge> k. has_pages x (take m full) w')" for w'
      unfolding some_pages_def by (metis le_add1)
    ultimately show ?thesis
      unfolding Some option.case wp_and_then
      by (elim wp_mono) (use x in \<open>auto simp: op_simps\<close>)
  qed
next
  case (3 e v)
  then show ?case using assms(1,2) by auto
qed

text \<open>A provider of two pages, the first of which is stored.\<close>

definition two_pages :: "bytes \<Rightarrow> export_page" where
  "two_pages cursor =
     \<lparr>pg_columns = [''h''], pg_rows = [[''v'']],
      pg_next_cursor = (if cursor = [] then ''c'' else []), pg_total = 2\<rparr>"

definition exporting :: export_provider where
  "exporting =
     \<lparr>xp_read_page = (\<lambda>past q. Inr (two_pages (pr_cursor q))), xp_plan = None, xp_build = None,
      xp_complete = None\<rparr>"

definition both_pages :: "page_commit list" where
  "both_pages =
     [\<lparr>pc_seq = 0, pc_content = ''hv'', pc_cursor = ''c'', pc_checkpoint = 1, pc_total = 2\<rparr>,
      \<lparr>pc_seq = 1, pc_content = ''v'', pc_cursor = [], pc_checkpoint = 2, pc_total = 2\<rparr>]"

definition half_exported_job :: job_row where
  "half_exported_job =
     default_job_row\<lparr>jr_id := ''j'', jr_workspace := ''w'', jr_operation := ''export'',
       jr_status := ''queued'', jr_checkpoint := 1, jr_cursor := ''c'', jr_result_chunks := 1,
       jr_actor := ''a''\<rparr>"

definition half_exported :: "job_row \<Rightarrow> db" where
  "half_exported r =
     empty_db\<lparr>db_jobs := [r],
       db_chunks := [\<lparr>ck_workspace = ''w'', ck_job = ''j'', ck_direction = ''result'', ck_sequence = 0,
         ck_content = ''hv'', ck_sha = hex_encode (sha256 ''hv''), ck_created_at = []\<rparr>]\<rparr>"

definition resumed :: job_request where
  "resumed =
     \<lparr>jq_scope = sample_scope, jq_job_id = ''j'',
      jq_provider = [], jq_operation = []\<rparr>"

lemma half_exported_job_simps [simp]:
  "jr_id half_exported_job = ''j''" "jr_workspace half_exported_job = ''w''"
  "jr_cursor half_exported_job = ''c''" "jr_result_chunks half_exported_job = 1"
  "jr_checkpoint half_exported_job = 1" "jr_fencing_token half_exported_job = 0"
  by (simp_all add: half_exported_job_def default_job_row_def)

lemma half_exported_good: "good_db (half_exported half_exported_job)"
  by (simp add: half_exported_def half_exported_job_def good_db_def keyed_def all_rows_def row_simps
      empty_db_def job_row_ok_def chunk_row_ok_def default_job_row_def status_values_def)

lemma half_exported_pages:
  "pages_stored ''w'' ''j'' (take 1 both_pages) (half_exported half_exported_job)"
  by (simp add: pages_stored_def stored_pages_def chunk_rows_def select_where_def progress_after_def
      both_pages_def half_exported_def empty_db_def row_simps)

lemma two_pages_commits:
  "page_commits 2 one_record_codec two_pages [] 0 0 False = Some (both_pages, 2, 2)"
  by (simp add: numeral_2_eq_2 two_pages_def both_pages_def encode_page_def one_record_codec_def)

lemma trim_resumed: "trim_space ''j'' = ''j''" "trim_space ''a'' = ''a''" "trim_space [] = []"
  by (simp_all add: trim_space_plain)

lemma half_exported_candidate: "claim_candidate ''w'' now (Some resumed) half_exported_job"
  by (simp add: claim_candidate_def claimable_def requested_def resumed_def
      sample_scope_def trim_resumed half_exported_job_def default_job_row_def)

lemma half_exported_selected:
  "claim_select ''w'' now (Some resumed) (half_exported half_exported_job) = Inr half_exported_job"
  by (simp add: claim_select_def select_where_def row_simps half_exported_def first_row_def
      half_exported_candidate)

lemma half_exported_claimed:
  "claim_update ''w'' owner ttl (Some resumed) now ''j'' (half_exported half_exported_job) =
   Inr (1, half_exported (claim_row owner now ttl half_exported_job))"
  by (simp add: claim_update_def update_where_def update_rows_def row_simps half_exported_def
      half_exported_candidate)

lemma half_exported_fenced:
  "fenced_job (claimed_item owner half_exported_job) (claim_row owner now ttl half_exported_job)"
  by (simp add: fenced_job_def claim_row_def claimed_item_def item_of_row_def zero_job_def)

lemma half_exported_item:
  "j_cursor (w_job (claimed_item owner half_exported_job)) = ''c''"
  "j_result_chunks (w_job (claimed_item owner half_exported_job)) = 1"
  "j_checkpoint (w_job (claimed_item owner half_exported_job)) = 1"
  by (simp_all add: claimed_item_def item_of_row_def zero_job_def)

lemma second_page_read:
  "xp_read_page exporting past (page_request_of x expires ''c'') = Inr (two_pages ''c'')"
  by (simp add: exporting_def page_request_of_def)

lemma second_page_encoded:
  "encode_page one_record_codec True (two_pages ''c'') = Inr ''v''"
  "pg_next_cursor (two_pages ''c'') = []"
  "length (pg_rows (two_pages ''c'')) = 1"
  by (simp_all add: encode_page_def one_record_codec_def two_pages_def)

lemma second_page_commits:
  "wp (commit_result_page (claimed_item owner half_exported_job) 1 ''v'' [] 2 t) (\<lambda>_ _. True) (\<lambda>_ _. False)
     \<lparr>w_db = half_exported (claim_row owner now ttl half_exported_job), w_fault = (\<lambda>_. False),
      w_statements = n, w_clock = (\<lambda>_. 0), w_readings = m, w_trace = p\<rparr>"
  unfolding commit_result_page_def
  by (simp add: op_simps insert_into_def fenced_update_def update_where_def row_simps half_exported_fenced
      half_exported_def empty_db_def result_chunk_def)

lemma export_resumes:
  "wp (claim_and_export check 2 one_record_codec exporting ''w'' resumed ''o'' 1 1)
    (\<lambda>r _. r \<noteq> None) (\<lambda>_ _. False) (calm (half_exported half_exported_job) 0)"
  unfolding claim_and_export_def claim_workspace_def sql_repository_simps
  apply (simp add: op_simps calm_def half_exported_selected half_exported_claimed half_exported_item
      numeral_2_eq_2 second_page_read second_page_encoded)
  by (rule wp_mono [OF second_page_commits])
    (simp_all add: op_simps)

theorem export_pages_exactly_once_witness:
  "\<exists>w'. claim_and_export (\<lambda>_. None) 2 one_record_codec exporting ''w'' resumed ''o'' 1 1
       (calm (half_exported half_exported_job) 0) = (Inr (Some (Some (2, 2))), w') \<and>
     stored_pages ''w'' ''j'' (w_db w') = [(0, ''hv''), (1, ''v'')]"
proof -
  let ?m = "claim_and_export (\<lambda>_. None) 2 one_record_codec exporting ''w'' resumed ''o'' 1 1"
  let ?w = "calm (half_exported half_exported_job) 0"
  have job: "trim_space (jq_job_id resumed) = ''j''" by (simp add: resumed_def trim_resumed)
  have good: "good_db (w_db ?w)" using half_exported_good by (simp add: calm_def)
  have one: "pages_stored ''w'' (trim_space (jq_job_id resumed)) (take 1 both_pages) (w_db ?w)"
    using half_exported_pages by (simp add: job calm_def)
  have provider: "xp_read_page exporting past q = Inr (two_pages (pr_cursor q))" for past q
    by (simp add: exporting_def)
  obtain r w' where run: "?m ?w = (Inr r, w')" "r \<noteq> None"
    using export_resumes [of "\<lambda>_. None"] by (cases "?m ?w") (auto simp: wp_def split: sum.splits)
  have "1 \<le> length both_pages" by (simp add: both_pages_def)
  from wp_valueD [OF export_pages_exactly_once [OF good one this two_pages_commits provider] run(1)] run
  show ?thesis by (auto simp: job pages_stored_def both_pages_def)
qed

end
