(* ===== verification/WebText.thy ===== *)
theory WebText
  imports Json
begin

text \<open>
  The texts of HTTP that the handlers read and write through the standard library: the query of the
  URL (\<open>url.ParseQuery\<close>) and the value of \<open>Content-Disposition\<close> (\<open>mime.FormatMediaType\<close>).
\<close>

subsection \<open>Queries\<close>

text \<open>Percent escapes, with \<open>spaces\<close> as in a query, where \<open>+\<close> stands for a space.\<close>

fun unescape :: "bool \<Rightarrow> bytes \<Rightarrow> bytes option" where
  "unescape spaces [] = Some []"
| "unescape spaces (c # s) =
     (if c = CHR ''%'' then
        (case s of
           a # b # t \<Rightarrow>
             (case (hex_value a, hex_value b) of
                (Some x, Some y) \<Rightarrow> map_option (Cons (char_of (16 * x + y))) (unescape spaces t)
              | _ \<Rightarrow> None)
         | _ \<Rightarrow> None)
      else map_option (Cons (if spaces \<and> c = CHR ''+'' then CHR '' '' else c)) (unescape spaces s))"

definition cut :: "char \<Rightarrow> bytes \<Rightarrow> bytes \<times> bytes" where
  "cut c s = (takeWhile (\<lambda>x. x \<noteq> c) s, drop 1 (dropWhile (\<lambda>x. x \<noteq> c) s))"

definition query_pair :: "bytes \<Rightarrow> (bytes \<times> bytes) list" where
  "query_pair s =
     (if s = [] \<or> CHR '';'' \<in> set s then []
      else case cut (CHR ''='') s of (k, v) \<Rightarrow>
        (case (unescape True k, unescape True v) of
           (Some k, Some v) \<Rightarrow> [(k, v)]
         | _ \<Rightarrow> []))"

function parse_query :: "bytes \<Rightarrow> (bytes \<times> bytes) list" where
  "parse_query s =
     (if s = [] then []
      else case cut (CHR ''&'') s of (pair, rest) \<Rightarrow> query_pair pair @ parse_query rest)"
  by pat_completeness auto
termination
proof (relation "measure length", goal_cases)
  case (2 s pair rest)
  then show ?case
    using length_dropWhile_le [of "\<lambda>x. x \<noteq> CHR ''&''" "tl s"] by (cases s) (auto simp: cut_def)
qed simp

declare parse_query.simps [simp del]

text \<open>\<open>Values.Get\<close>: the first value, the empty string when there is none.\<close>

definition query_get :: "bytes \<Rightarrow> (bytes \<times> bytes) list \<Rightarrow> bytes" where
  "query_get k q = (case map_of q k of Some v \<Rightarrow> v | None \<Rightarrow> [])"

subsection \<open>Content-Disposition\<close>

definition tspecials :: bytes where
  "tspecials = ''()<>@,;:'' @ [backslash, quote_char] @ ''/[]?=''"

definition is_token :: "bytes \<Rightarrow> bool" where
  "is_token s \<longleftrightarrow> s \<noteq> [] \<and> list_all (\<lambda>c. 32 < byte c \<and> byte c < 127 \<and> c \<notin> set tspecials) s"

definition needs_encoding :: "bytes \<Rightarrow> bool" where
  "needs_encoding s \<longleftrightarrow> list_ex (\<lambda>c. (byte c < 32 \<or> 126 < byte c) \<and> byte c \<noteq> 9) s"

definition upper_hex :: "nat \<Rightarrow> char" where
  "upper_hex n = (if n < 10 then char_of (48 + n) else char_of (55 + n))"

definition percent :: "char \<Rightarrow> bytes" where
  "percent c =
     (if byte c \<le> 32 \<or> 127 \<le> byte c \<or> c = CHR ''*'' \<or> c = CHR 0x27 \<or> c = CHR ''%'' \<or> c \<in> set tspecials
      then [CHR ''%'', upper_hex (byte c div 16), upper_hex (byte c mod 16)] else [c])"

definition quoted :: "char \<Rightarrow> bytes" where
  "quoted c = (if c = quote_char \<or> c = backslash then [backslash, c] else [c])"

text \<open>A media type without a slash and with one parameter, as the download handler needs it.\<close>

definition format_media_type :: "bytes \<Rightarrow> bytes \<Rightarrow> bytes \<Rightarrow> bytes" where
  "format_media_type t attr v =
     (if \<not> is_token t \<or> \<not> is_token attr then []
      else to_lower t @ ''; '' @ to_lower attr @
        (if needs_encoding v then ''*=utf-8'' @ [CHR 0x27, CHR 0x27] @ concat (map percent v)
         else if is_token v then CHR ''='' # v
         else CHR ''='' # quote_char # concat (map quoted v) @ [quote_char]))"

definition content_disposition :: "bytes \<Rightarrow> bytes" where
  "content_disposition filename = format_media_type ''attachment'' ''filename'' filename"

text \<open>The header as its receiver reads it: the three forms of a parameter.\<close>

fun unquote :: "bytes \<Rightarrow> bytes option" where
  "unquote [] = None"
| "unquote (c # s) =
     (if c = quote_char then (if s = [] then Some [] else None)
      else if c = backslash then
        (case s of [] \<Rightarrow> None | d # t \<Rightarrow> map_option (Cons d) (unquote t))
      else map_option (Cons c) (unquote s))"

fun strip_prefix :: "bytes \<Rightarrow> bytes \<Rightarrow> bytes option" where
  "strip_prefix [] s = Some s"
| "strip_prefix (p # ps) [] = None"
| "strip_prefix (p # ps) (c # s) = (if p = c then strip_prefix ps s else None)"

definition disposition_filename :: "bytes \<Rightarrow> bytes option" where
  "disposition_filename s =
     (case strip_prefix ''attachment; filename'' s of
        None \<Rightarrow> None
      | Some rest \<Rightarrow>
        (case strip_prefix (''*=utf-8'' @ [CHR 0x27, CHR 0x27]) rest of
           Some v \<Rightarrow> unescape False v
         | None \<Rightarrow>
           (case rest of
              e # v \<Rightarrow>
                if e \<noteq> CHR ''='' then None
                else (case v of q # t \<Rightarrow> if q = quote_char then unquote t else Some v | [] \<Rightarrow> None)
            | [] \<Rightarrow> None)))"

declare byte_less [simp]

lemma hex_value_upper: "n < 16 \<Longrightarrow> hex_value (upper_hex n) = Some n"
  by (auto simp: hex_value_def upper_hex_def byte_def Let_def)

lemma high_nibble: "byte c div 16 < 16"
  using byte_less [of c] by (intro less_mult_imp_div_less) simp

lemma unescape_percent: "unescape False (percent c @ s) = map_option (Cons c) (unescape False s)"
proof -
  have "16 * (byte c div 16) + byte c mod 16 = byte c" by simp
  then show ?thesis by (auto simp: high_nibble percent_def hex_value_upper option.map_comp o_def)
qed

lemma unescape_percents: "unescape False (concat (map percent v)) = Some v"
  by (induction v) (simp_all add: unescape_percent)

lemma unquote_quoted: "unquote (concat (map quoted v) @ [quote_char]) = Some v"
  by (induction v) (auto simp: quoted_def)

lemma content_disposition_eq:
  "content_disposition v = ''attachment; filename'' @
     (if needs_encoding v then ''*=utf-8'' @ [CHR 0x27, CHR 0x27] @ concat (map percent v)
      else if is_token v then CHR ''='' # v
      else CHR ''='' # quote_char # concat (map quoted v) @ [quote_char])"
proof -
  have "is_token ''attachment''" "is_token ''filename''" "to_lower ''attachment'' = ''attachment''"
    "to_lower ''filename'' = ''filename''"
    by code_simp+
  then show ?thesis unfolding content_disposition_def format_media_type_def by simp
qed

lemma strip_prefix_append [simp]: "strip_prefix p (p @ s) = Some s"
  by (induction p) simp_all

lemma disposition_filename_of: "disposition_filename (content_disposition v) = Some v"
proof -
  have "is_token v \<Longrightarrow> \<exists>c t. v = c # t \<and> c \<noteq> quote_char"
    by (cases v) (auto simp: is_token_def tspecials_def)
  then show ?thesis
    unfolding disposition_filename_def content_disposition_eq strip_prefix_append option.case
    by (auto simp: unescape_percents unquote_quoted)
qed

definition header_char :: "char \<Rightarrow> bool" where
  "header_char c \<longleftrightarrow> (32 \<le> byte c \<and> byte c \<le> 126) \<or> byte c = 9"

lemma upper_hex_header: "n < 16 \<Longrightarrow> header_char (upper_hex n)"
  by (auto simp: header_char_def upper_hex_def byte_def)

lemma percent_header: "list_all header_char (percent c)"
proof -
  have "header_char (upper_hex (byte c div 16))" "header_char (upper_hex (byte c mod 16))"
    by (simp_all add: upper_hex_header high_nibble)
  moreover have "header_char (CHR ''%'')" by (simp add: header_char_def byte_def)
  moreover have "32 < byte c \<Longrightarrow> byte c < 127 \<Longrightarrow> header_char c" by (simp add: header_char_def)
  ultimately show ?thesis by (simp add: percent_def)
qed

lemma percents_header: "list_all header_char (concat (map percent v))"
  by (induction v) (simp_all add: percent_header)

lemma quoteds_header: "list_all header_char v \<Longrightarrow> list_all header_char (concat (map quoted v))"
  by (induction v) (auto simp: quoted_def header_char_def byte_def)

lemma content_disposition_header: "list_all header_char (content_disposition v)"
proof -
  have "list_all header_char ''attachment; filename''" "list_all header_char (''*=utf-8'' @ [CHR 0x27, CHR 0x27])"
    "header_char (CHR ''='')" "header_char quote_char"
    by (simp_all add: header_char_def byte_def)
  moreover have "list_all header_char v" if "\<not> needs_encoding v"
    using that by (auto simp: needs_encoding_def header_char_def list_ex_iff list_all_iff not_less)
  ultimately show ?thesis
    unfolding content_disposition_eq by (auto simp: percents_header quoteds_header)
qed

text \<open>
  C35: Whatever the name of an exported file, the \<open>Content-Disposition\<close> header of its download holds no
  control character and no byte outside ASCII, so it cannot break out of its line, and a receiver
  reads exactly that name from it.
\<close>

theorem download_filename_round_trip:
  "list_all header_char (content_disposition filename) \<and>
   disposition_filename (content_disposition filename) = Some filename"
  by (simp add: content_disposition_header disposition_filename_of)

end
