(* ===== verification/Http.thy ===== *)
theory Http
  imports Service WebText
begin

text \<open>
  The HTTP adapter both deployments expose (\<open>internal/transport/http/module/adapter.go\<close>): its
  handlers over any binding of the SDK, the projection of jobs, the mapping of errors to responses,
  and the registration of the handlers against the SDK's Action manifest.

  A handler writes one response: the value of the operation. The context of the request is the
  record \<open>request_context\<close>; \<open>apperror.KindOf\<close> and \<open>apperror.CodeOf\<close> of the foundation are the record
  \<open>app_errors\<close>. Times are marshalled as the UTC instants that the store wrote.
\<close>

subsection \<open>Requests and responses\<close>

record http_request =
  hq_context :: request_context
  hq_job_id :: bytes
  hq_query :: bytes
  hq_request_id :: bytes

record http_response =
  hr_status :: nat
  hr_headers :: "(bytes \<times> bytes) list"
  hr_body :: bytes

record app_errors =
  ae_kind :: "err \<Rightarrow> error_kind"
  ae_code :: "err \<Rightarrow> bytes"

text \<open>The binding's optional interfaces are options (type assertions of the code).\<close>

record job_binding =
  bd_job :: "request_context \<Rightarrow> job_request \<Rightarrow> job op"
  bd_cancel :: "request_context \<Rightarrow> job_request \<Rightarrow> job op"
  bd_download :: "request_context \<Rightarrow> job_request \<Rightarrow> artifact op"
  bd_jobs :: "(request_context \<Rightarrow> job_list_request \<Rightarrow> job list op) option"
  bd_job_for_action :: "(request_context \<Rightarrow> job_request \<Rightarrow> bytes \<Rightarrow> job op) option"

text \<open>
  What the adapter asks of a provider: \<open>JobProjector\<close>, whose value is given by its JSON (\<open>None\<close> when
  it has none), and \<open>JobArtifactOpener\<close>.
\<close>

record presenter =
  ps_project :: "(event list \<Rightarrow> job \<Rightarrow> scope \<Rightarrow> err + bytes option) option"
  ps_open :: "(event list \<Rightarrow> job \<Rightarrow> scope \<Rightarrow> err + artifact) option"

record host_view =
  hv_import :: "bytes \<Rightarrow> presenter option"
  hv_export :: "bytes \<Rightarrow> presenter option"

record adapter =
  ad_binding :: job_binding
  ad_host :: "host_view option"

subsection \<open>Writing\<close>

text \<open>\<open>json.Encoder\<close> ends a value with a line feed and writes nothing when it fails.\<close>

definition write_json :: "nat \<Rightarrow> bytes option \<Rightarrow> http_response" where
  "write_json status encoded =
     \<lparr>hr_status = status,
      hr_headers = [(''Content-Type'', ''application/json''), (''Cache-Control'', ''no-store'')],
      hr_body = (case encoded of None \<Rightarrow> [] | Some v \<Rightarrow> v @ [CHR 0x0A])\<rparr>"

definition code_json :: "bytes \<Rightarrow> bytes option" where
  "code_json code = Some (json_object [(''code'', json_string code)])"

fun errors_is :: "err \<Rightarrow> err \<Rightarrow> bool" where
  "errors_is target (Err_joined a b) \<longleftrightarrow>
     target = Err_joined a b \<or> errors_is target a \<or> errors_is target b"
| "errors_is target e \<longleftrightarrow> target = e"

definition status_of_kind :: "error_kind \<Rightarrow> nat" where
  "status_of_kind kind =
     (case kind of
        Kind_bad_request \<Rightarrow> 400 | Kind_forbidden \<Rightarrow> 403 | Kind_not_found \<Rightarrow> 404
      | Kind_conflict \<Rightarrow> 409 | Kind_rate_limited \<Rightarrow> 429 | Kind_unavailable \<Rightarrow> 503
      | Kind_internal \<Rightarrow> 500)"

definition write_error :: "app_errors \<Rightarrow> err \<Rightarrow> http_response" where
  "write_error er e =
     (if errors_is Err_artifact_expired e
      then write_json 409 (code_json ''backend.data_exchange.artifact_expired'')
      else if errors_is Err_job_not_found e
      then write_json 404 (code_json ''backend.data_exchange.job_not_found'')
      else
        let status = status_of_kind (ae_kind er e); code = ae_code er e;
            code = (if code = [] \<or> status = 500 then ''backend.data_exchange.internal'' else code)
        in write_json status (code_json code))"

text \<open>An operation whose error becomes a response, and which goes on with its value otherwise.\<close>

definition answering :: "app_errors \<Rightarrow> 'a op \<Rightarrow> ('a \<Rightarrow> http_response op) \<Rightarrow> http_response op" where
  "answering er m f =
     and_then (attempt m) (\<lambda>r. case r of Inl e \<Rightarrow> ret (write_error er e) | Inr x \<Rightarrow> f x)"

subsection \<open>Jobs as the client sees them\<close>

record job_response =
  jo_id :: bytes
  jo_provider :: bytes
  jo_operation :: bytes
  jo_status :: bytes
  jo_object_key :: bytes
  jo_checkpoint :: int
  jo_total :: int
  jo_artifact_id :: bytes
  jo_error_code :: bytes
  jo_reference :: bytes
  jo_created_at :: instant
  jo_updated_at :: instant

definition job_response_of :: "job \<Rightarrow> job_response" where
  "job_response_of j =
     \<lparr>jo_id = j_id j, jo_provider = j_provider j, jo_operation = j_operation j, jo_status = j_status j,
      jo_object_key = j_object_key j, jo_checkpoint = j_checkpoint j, jo_total = j_total j,
      jo_artifact_id = j_artifact_id j, jo_error_code = j_error_code j, jo_reference = j_reference j,
      jo_created_at = j_created_at j, jo_updated_at = j_updated_at j\<rparr>"

text \<open>\<open>Time.MarshalJSON\<close> refuses years outside 0 to 9999.\<close>

definition time_json :: "instant \<Rightarrow> bytes option" where
  "time_json t = (if four_digit t then Some (quote_char # format_nano t @ [quote_char]) else None)"

definition unless_empty :: "bytes \<Rightarrow> bytes \<Rightarrow> (bytes \<times> bytes) list" where
  "unless_empty name s = (if s = [] then [] else [(name, json_string s)])"

definition marshal_job :: "job_response \<Rightarrow> bytes option" where
  "marshal_job r =
     (case (time_json (jo_created_at r), time_json (jo_updated_at r)) of
        (Some created, Some updated) \<Rightarrow>
          Some (json_object
            ([(''id'', json_string (jo_id r)), (''provider'', json_string (jo_provider r)),
              (''operation'', json_string (jo_operation r)), (''status'', json_string (jo_status r)),
              (''object_key'', json_string (jo_object_key r)),
              (''checkpoint'', int_decimal (jo_checkpoint r)), (''total'', int_decimal (jo_total r))] @
             unless_empty ''artifact_id'' (jo_artifact_id r) @
             unless_empty ''error_code'' (jo_error_code r) @
             unless_empty ''reference_id'' (jo_reference r) @
             [(''created_at'', created), (''updated_at'', updated)]))
      | _ \<Rightarrow> None)"

definition job_presenter :: "host_view option \<Rightarrow> job \<Rightarrow> presenter option" where
  "job_presenter host j =
     (case host of
        None \<Rightarrow> None
      | Some h \<Rightarrow>
        if j_operation j = ''import'' then hv_import h (j_provider j)
        else if j_operation j = ''export'' then hv_export h (j_provider j)
        else None)"

text \<open>The method \<open>projectJob\<close>: the provider's projection if it has one.\<close>

definition project_job :: "adapter \<Rightarrow> job \<Rightarrow> scope \<Rightarrow> bytes option op" where
  "project_job a j scope =
     (case job_presenter (ad_host a) j of
        Some p \<Rightarrow>
          (case ps_project p of
             Some project \<Rightarrow> call (\<lambda>past. project past j scope) (Project_job j scope)
           | None \<Rightarrow> ret (marshal_job (job_response_of j)))
      | None \<Rightarrow> ret (marshal_job (job_response_of j)))"

subsection \<open>Handlers\<close>

definition request_scope :: "http_request \<Rightarrow> principal \<Rightarrow> scope" where
  "request_scope q who =
     \<lparr>sc_workspace = trim_space (pr_workspace who), sc_actor = trim_space (pr_user who),
      sc_role = trim_space (pr_role who), sc_request = trim_space (hq_request_id q)\<rparr>"

definition query_value :: "bytes \<Rightarrow> http_request \<Rightarrow> bytes" where
  "query_value k q = trim_space (query_get k (parse_query (hq_query q)))"

definition unauthenticated :: http_response where
  "unauthenticated = write_json 401 (code_json ''backend.authentication_required'')"

definition invalid_job_request :: http_response where
  "invalid_job_request = write_json 400 (code_json ''backend.data_exchange.invalid_job_request'')"

definition invalid_list_request :: http_response where
  "invalid_list_request = write_json 400 (code_json ''backend.data_exchange.invalid_job_list_request'')"

definition http_job_request ::
  "app_errors \<Rightarrow> sdk \<Rightarrow> http_request \<Rightarrow> bytes \<Rightarrow> http_response + job_request" where
  "http_job_request er k q permission =
     (case cx_principal (hq_context q) of
        None \<Rightarrow> Inl unauthenticated
      | Some who \<Rightarrow>
        let r = \<lparr>jq_scope = request_scope q who, jq_job_id = trim_space (hq_job_id q),
                 jq_provider = query_value ''provider'' q, jq_operation = query_value ''operation'' q\<rparr>
        in case sdk_job k r of
             Some e \<Rightarrow> Inl invalid_job_request
           | None \<Rightarrow>
             (case resolve_job_access (cx_principal (hq_context q)) r permission of
                Inl e \<Rightarrow> Inl (write_error er e)
              | Inr _ \<Rightarrow> Inr r))"

definition http_get_job :: "app_errors \<Rightarrow> sdk \<Rightarrow> adapter \<Rightarrow> http_request \<Rightarrow> http_response op" where
  "http_get_job er k a q =
     (case http_job_request er k q (act_get k) of
        Inl answer \<Rightarrow> ret answer
      | Inr r \<Rightarrow>
        answering er (bd_job (ad_binding a) (hq_context q) r) (\<lambda>j.
        answering er (project_job a j (jq_scope r)) (\<lambda>projection.
        ret (write_json 200 projection))))"

definition http_cancel_job :: "app_errors \<Rightarrow> sdk \<Rightarrow> adapter \<Rightarrow> http_request \<Rightarrow> http_response op" where
  "http_cancel_job er k a q =
     (case http_job_request er k q (act_cancel k) of
        Inl answer \<Rightarrow> ret answer
      | Inr r \<Rightarrow>
        answering er (bd_cancel (ad_binding a) (hq_context q) r) (\<lambda>j.
        answering er (project_job a j (jq_scope r)) (\<lambda>projection.
        ret (write_json 200 projection))))"

text \<open>The projections of a list, up to the first that fails; the list has no JSON if one of them has none.\<close>

fun project_jobs :: "adapter \<Rightarrow> scope \<Rightarrow> job list \<Rightarrow> bytes option list op" where
  "project_jobs a scope [] = ret []"
| "project_jobs a scope (j # js) =
     and_then (project_job a j scope) (\<lambda>v.
     and_then (project_jobs a scope js) (\<lambda>vs. ret (v # vs)))"

definition items_json :: "bytes option list \<Rightarrow> bytes option" where
  "items_json vs =
     (if None \<in> set vs then None
      else Some (json_object [(''items'', json_array (map the vs))]))"

definition http_list_request :: "http_request \<Rightarrow> principal \<Rightarrow> int \<Rightarrow> job_list_request" where
  "http_list_request q who page_limit =
     \<lparr>jl_scope = request_scope q who, jl_provider = query_value ''provider'' q,
      jl_operation = query_value ''operation'' q, jl_status = query_value ''status'' q,
      jl_limit = page_limit\<rparr>"

definition http_list_jobs :: "app_errors \<Rightarrow> sdk \<Rightarrow> adapter \<Rightarrow> http_request \<Rightarrow> http_response op" where
  "http_list_jobs er k a q =
     (case cx_principal (hq_context q) of
        None \<Rightarrow> ret unauthenticated
      | Some who \<Rightarrow>
        (case (if query_value ''limit'' q = [] then Some 0 else parse_int64 (query_value ''limit'' q)) of
           None \<Rightarrow> ret invalid_list_request
         | Some page_limit \<Rightarrow>
           let r = http_list_request q who page_limit in
           (case sdk_list k r of
              Some e \<Rightarrow> ret invalid_list_request
            | None \<Rightarrow>
              (case bd_jobs (ad_binding a) of
                 None \<Rightarrow> ret (write_error er
                   (Err_app Kind_unavailable ''backend.data_exchange.job_list_unavailable'' []))
               | Some jobs \<Rightarrow>
                 answering er (jobs (hq_context q) r) (\<lambda>js.
                 answering er (project_jobs a (jl_scope r) js) (\<lambda>items.
                 ret (write_json 200 (items_json items))))))))"

definition open_artifact :: "adapter \<Rightarrow> http_request \<Rightarrow> job \<Rightarrow> scope \<Rightarrow> artifact op" where
  "open_artifact a q j scope =
     (let downloaded = bd_download (ad_binding a) (hq_context q)
            \<lparr>jq_scope = scope, jq_job_id = j_id j, jq_provider = j_provider j,
             jq_operation = j_operation j\<rparr> in
      case ad_host a of
        Some h \<Rightarrow>
          if j_operation j = ''export''
          then (case hv_export h (j_provider j) of
                  None \<Rightarrow> throw (Err_app Kind_unavailable
                    ''backend.data_exchange.export_provider_unavailable'' [])
                | Some p \<Rightarrow>
                  (case ps_open p of
                     Some opener \<Rightarrow> call (\<lambda>past. opener past j scope) (Open_artifact j scope)
                   | None \<Rightarrow> downloaded))
          else downloaded
      | None \<Rightarrow> downloaded)"

definition not_blank :: "bytes \<Rightarrow> bytes \<Rightarrow> bytes" where
  "not_blank s other = (if trim_space s = [] then other else trim_space s)"

text \<open>The headers and the body of a download, with the buffers that copy it.\<close>

definition artifact_response :: "nat list \<Rightarrow> artifact \<Rightarrow> content \<Rightarrow> http_response" where
  "artifact_response buffers af content =
     \<lparr>hr_status = 200,
      hr_headers =
        [(''Content-Type'', not_blank (af_content_type af) ''application/octet-stream''),
         (''Content-Disposition'',
           content_disposition (not_blank (af_filename af) ''data-exchange-export'')),
         (''Cache-Control'', ''no-store, private'')] @
        (if 0 < af_size af then [(''Content-Length'', int_decimal (af_size af))] else []),
      hr_body = fst (copy_content buffers content)\<rparr>"

definition http_download_job ::
  "nat list \<Rightarrow> app_errors \<Rightarrow> sdk \<Rightarrow> adapter \<Rightarrow> http_request \<Rightarrow> http_response op" where
  "http_download_job buffers er k a q =
     (case http_job_request er k q (act_download k) of
        Inl answer \<Rightarrow> ret answer
      | Inr r \<Rightarrow>
        answering er
          (case bd_job_for_action (ad_binding a) of
             Some scoped \<Rightarrow> scoped (hq_context q) r (act_download k)
           | None \<Rightarrow> bd_job (ad_binding a) (hq_context q) r) (\<lambda>j.
        if j_operation j \<noteq> ''export'' \<or> j_status j \<noteq> ''completed''
        then ret (write_error er (Err_app Kind_conflict ''backend.data_exchange.result_not_ready'' []))
        else
        answering er (open_artifact a q j (jq_scope r)) (\<lambda>af.
        case af_content af of
          None \<Rightarrow> ret (write_error er (Err_msg ''Data Exchange artifact content is unavailable''))
        | Some content \<Rightarrow>
          if is_zero (af_expires_at af) then ret (artifact_response buffers af content)
          else and_then time_now (\<lambda>now.
            if \<not> now < af_expires_at af then ret (write_error er Err_artifact_expired)
            else ret (artifact_response buffers af content)))))"

subsection \<open>Registration\<close>

datatype handler = Handle_list | Handle_get | Handle_cancel | Handle_download

text \<open>The handlers are few: statements over all of them are checked one by one.\<close>

instantiation handler :: enum
begin

definition enum_handler :: "handler list" where
  "enum_handler = [Handle_list, Handle_get, Handle_cancel, Handle_download]"

definition enum_all_handler :: "(handler \<Rightarrow> bool) \<Rightarrow> bool" where
  "enum_all_handler P \<longleftrightarrow> P Handle_list \<and> P Handle_get \<and> P Handle_cancel \<and> P Handle_download"

definition enum_ex_handler :: "(handler \<Rightarrow> bool) \<Rightarrow> bool" where
  "enum_ex_handler P \<longleftrightarrow> P Handle_list \<or> P Handle_get \<or> P Handle_cancel \<or> P Handle_download"

instance
proof
  have all: "h \<in> {Handle_list, Handle_get, Handle_cancel, Handle_download}" for h
    by (cases h) simp_all
  then show "(UNIV :: handler set) = set Enum.enum"
    by (auto simp: enum_handler_def)
  show "distinct (Enum.enum :: handler list)" by (simp add: enum_handler_def)
  fix P :: "handler \<Rightarrow> bool"
  show "Enum.enum_all P = Ball UNIV P" "Enum.enum_ex P = Bex UNIV P"
    unfolding enum_all_handler_def enum_ex_handler_def by (metis UNIV_I handler.exhaust)+
qed

end

datatype lifecycle = Lifecycle_active | Lifecycle_other bytes

record permission_definition =
  pm_key :: bytes
  pm_owner :: bytes
  pm_resource :: bytes
  pm_operation :: bytes
  pm_label :: bytes
  pm_description :: bytes
  pm_category :: bytes
  pm_lifecycle :: lifecycle

record action_definition =
  an_key :: bytes
  an_owner :: bytes
  an_label :: bytes
  an_operation_label :: bytes
  an_capability_label :: bytes
  an_permission :: "permission_definition option"

record route =
  rt_action :: action_definition
  rt_pattern :: bytes

text \<open>
  The foundation's \<open>NormalizeDefinition\<close> and \<open>RouteFromAction\<close> and the SDK's manifest: the declared
  Actions and the patterns of the OpenAPI operations.
\<close>

record manifest =
  mf_normalize :: "action_definition \<Rightarrow> err + action_definition"
  mf_route :: "action_definition \<Rightarrow> err + route"
  mf_actions :: "action_definition list"
  mf_operations :: "bytes list"

definition exact_permission_action ::
  "manifest \<Rightarrow> action_definition \<Rightarrow> err + action_definition" where
  "exact_permission_action mf a =
     (let key = an_key a; separator = last_index_byte (trim_space key) (CHR ''.'') in
      if separator \<le> 0 \<or> separator = int (length key) - 1
      then Inl (Err_msg (''Data Exchange Action '' @ key @ '' cannot define an exact Permission''))
      else
        let own = \<lparr>pm_key = key, pm_owner = an_owner a, pm_resource = take (nat separator) key,
                   pm_operation = drop (nat separator + 1) key, pm_label = an_label a,
                   pm_description = an_operation_label a, pm_category = an_capability_label a,
                   pm_lifecycle = Lifecycle_active\<rparr>;
            permission = (case an_permission a of None \<Rightarrow> own | Some p \<Rightarrow> p)
        in if pm_key permission \<noteq> key
           then Inl (Err_msg (''Data Exchange Action '' @ key @ '' must use its same-key Permission''))
           else mf_normalize mf (a\<lparr>an_permission := Some permission\<rparr>))"

fun routes_of :: "manifest \<Rightarrow> action_definition list \<Rightarrow> err + route list" where
  "routes_of mf [] = Inr []"
| "routes_of mf (declared # rest) =
     (case exact_permission_action mf declared of
        Inl e \<Rightarrow> Inl e
      | Inr a \<Rightarrow>
        (case mf_route mf a of
           Inl e \<Rightarrow> Inl (Err_msg (''project Data Exchange Action '' @ an_key declared))
         | Inr r \<Rightarrow> (case routes_of mf rest of Inl e \<Rightarrow> Inl e | Inr rs \<Rightarrow> Inr (r # rs))))"

definition data_exchange_routes :: "manifest \<Rightarrow> err + route list" where
  "data_exchange_routes mf = routes_of mf (mf_actions mf)"

definition handlers_of :: "sdk \<Rightarrow> (bytes \<times> handler) list" where
  "handlers_of k =
     [(act_list k, Handle_list), (act_get k, Handle_get), (act_cancel k, Handle_cancel),
      (act_download k, Handle_download)]"

text \<open>
  The registration of the routes: the mux so far, and the handlers and operations not used up yet.
\<close>

fun register ::
  "route list \<Rightarrow> (bytes \<times> handler) list \<Rightarrow> (bytes \<times> handler) list \<Rightarrow> bytes list \<Rightarrow>
   err + (bytes \<times> handler) list \<times> (bytes \<times> handler) list \<times> bytes list" where
  "register [] mux handlers operations = Inr (mux, handlers, operations)"
| "register (r # rs) mux handlers operations =
     (let key = trim_space (an_key (rt_action r)) in
      case map_of handlers key of
        None \<Rightarrow> Inl (Err_msg (''Data Exchange Action '' @ key @ '' has no HTTP handler''))
      | Some h \<Rightarrow>
        if rt_pattern r \<notin> set operations
        then Inl (Err_msg (''Data Exchange Action '' @ key @ '' has no OpenAPI operation''))
        else register rs (mux @ [(rt_pattern r, h)]) (filter (\<lambda>(a, _). a \<noteq> key) handlers)
               (filter (\<lambda>p. p \<noteq> rt_pattern r) operations))"

fun spaced :: "bytes list \<Rightarrow> bytes" where
  "spaced [] = []"
| "spaced [s] = s"
| "spaced (s # ss) = s @ CHR '' '' # spaced ss"

definition left_over :: "(bytes \<times> handler) list \<Rightarrow> bytes list \<Rightarrow> err" where
  "left_over handlers operations =
     Err_msg (''Data Exchange implementations have no Action manifest entries: ['' @
       spaced (sort (map (\<lambda>(key, _). ''handler:'' @ key) handlers @
         map (\<lambda>pattern. ''openapi:'' @ pattern) operations)) @ '']'')"

text \<open>The adapter that is built, with the routes its mux serves.\<close>

definition new_adapter ::
  "sdk \<Rightarrow> manifest \<Rightarrow> job_binding option \<Rightarrow> host_view option \<Rightarrow>
   err + adapter \<times> route list \<times> (bytes \<times> handler) list" where
  "new_adapter k mf binding host =
     (case binding of
        None \<Rightarrow> Inl (Err_msg ''Data Exchange HTTP binding is unavailable'')
      | Some b \<Rightarrow>
        (case data_exchange_routes mf of
           Inl e \<Rightarrow> Inl e
         | Inr routes \<Rightarrow>
           (case register routes [] (handlers_of k) (mf_operations mf) of
              Inl e \<Rightarrow> Inl e
            | Inr (mux, handlers, operations) \<Rightarrow>
              if handlers \<noteq> [] \<or> operations \<noteq> [] then Inl (left_over handlers operations)
              else Inr (\<lparr>ad_binding = b, ad_host = host\<rparr>, routes, mux))))"

text \<open>What the mux does with a request it has matched.\<close>

definition serve_http ::
  "nat list \<Rightarrow> app_errors \<Rightarrow> sdk \<Rightarrow> adapter \<Rightarrow> handler \<Rightarrow> http_request \<Rightarrow> http_response op" where
  "serve_http buffers er k a h q =
     (case h of
        Handle_list \<Rightarrow> http_list_jobs er k a q
      | Handle_get \<Rightarrow> http_get_job er k a q
      | Handle_cancel \<Rightarrow> http_cancel_job er k a q
      | Handle_download \<Rightarrow> http_download_job buffers er k a q)"

end
