(* ===== verification/Disclosure.thy ===== *)
theory Disclosure
  imports Http
begin

text \<open>
  The capability contract of the module (\<open>capability/contract.go\<close>): what it tells a host about the
  operations of its routes, the schemas of its requests and its place among other modules. The
  foundation's constructors, which check and index these documents, are the record \<open>foundation\<close>;
  documents are given by their JSON.
\<close>

subsection \<open>Operations\<close>

record capability =
  cp_summary :: "err + bytes"
  cp_category :: "bytes \<Rightarrow> err + bytes"
  cp_validate :: "bytes \<Rightarrow> err + bytes"

text \<open>
  What the disclosure says of one route. The decision on idempotency, the authorization strategy, the
  audiences and the effect class are further fields of the SDK's Action, read by \<open>disclosed\<close>.
\<close>

record disclosed =
  dc_idempotency :: bytes
  dc_strategy :: bytes
  dc_audiences :: "bytes list"
  dc_effect :: bytes

record operation_extension =
  ox_owner :: bytes
  ox_strategy :: bytes
  ox_permission :: bytes
  ox_audiences :: "bytes list"
  ox_scope :: bytes
  ox_effect :: bytes
  ox_idempotency :: bytes
  ox_key_source :: bytes

definition operation_extension_of ::
  "sdk \<Rightarrow> (action_definition \<Rightarrow> disclosed) \<Rightarrow> route \<Rightarrow> operation_extension option" where
  "operation_extension_of k disclose r =
     (let a = rt_action r; d = disclose a in
      case an_permission a of
        None \<Rightarrow> None
      | Some p \<Rightarrow> Some
          \<lparr>ox_owner = ''data_exchange'', ox_strategy = dc_strategy d, ox_permission = pm_key p,
           ox_audiences = dc_audiences d, ox_scope = ''authenticated_workspace'',
           ox_effect = dc_effect d, ox_idempotency = dc_idempotency d,
           ox_key_source = (if an_key a = act_cancel k then ''path.jobID'' else [])\<rparr>)"

text \<open>
  The overrides by route pattern, the last of two equal patterns winning. A route without a Permission
  would be a nil dereference: \<open>None\<close>.
\<close>

fun capability_overrides ::
  "sdk \<Rightarrow> (action_definition \<Rightarrow> disclosed) \<Rightarrow> route list \<Rightarrow> (bytes \<rightharpoonup> operation_extension) \<Rightarrow>
   (bytes \<rightharpoonup> operation_extension) option" where
  "capability_overrides k disclose [] m = Some m"
| "capability_overrides k disclose (r # rs) m =
     (case operation_extension_of k disclose r of
        None \<Rightarrow> None
      | Some x \<Rightarrow> capability_overrides k disclose rs (m(rt_pattern r \<mapsto> x)))"

subsection \<open>Candidates\<close>

text \<open>
  The request envelopes whose JSON Schema is disclosed, as the reflection of the foundation sees the
  structs: per field the name in JSON, the type, and whether it may be omitted.
\<close>

datatype go_type = Go_string | Go_int64

type_synonym candidate = "(bytes \<times> go_type \<times> bool) list"

definition import_candidate :: candidate where
  "import_candidate =
     [(''provider'', Go_string, False), (''object_key'', Go_string, False),
      (''idempotency_key'', Go_string, False), (''filename'', Go_string, True),
      (''content_type'', Go_string, True), (''max_bytes'', Go_int64, True)]"

definition export_candidate :: candidate where
  "export_candidate =
     [(''provider'', Go_string, False), (''object_key'', Go_string, False),
      (''idempotency_key'', Go_string, False), (''reference_id'', Go_string, True)]"

definition job_selector_candidate :: candidate where
  "job_selector_candidate =
     [(''job_id'', Go_string, False), (''provider'', Go_string, True), (''operation'', Go_string, True)]"

subsection \<open>Categories and the summary\<close>

record category_summary =
  cs_key :: bytes
  cs_name :: bytes
  cs_description :: bytes
  cs_chains :: "bytes list"
  cs_scopes :: "bytes list"

record source_projection =
  sp_kind :: bytes
  sp_key :: bytes
  sp_payload :: bytes

record category_document =
  cd_category :: category_summary
  cd_openapi :: bytes
  cd_paths :: "(bytes \<times> (bytes \<times> bytes) list) list"
  cd_projections :: "source_projection list"

text \<open>What \<open>CategoryFromHTTPRoutes\<close> is given.\<close>

record route_category =
  rg_owner :: bytes
  rg_category :: category_summary
  rg_routes :: "route list"
  rg_operations :: "bytes list"
  rg_scope :: bytes
  rg_overrides :: "bytes \<rightharpoonup> operation_extension"
  rg_components :: "(bytes \<times> (bytes \<times> bytes) list) list"

record module_summary =
  ms_key :: bytes
  ms_source_owner :: bytes
  ms_version :: bytes
  ms_revision :: bytes
  ms_modes :: "bytes list"
  ms_name :: bytes
  ms_description :: bytes
  ms_provided :: "bytes list"
  ms_required :: "bytes list"
  ms_optional :: "bytes list"
  ms_conflicting :: "bytes list"
  ms_chains :: "bytes list"
  ms_scopes :: "bytes list"

text \<open>
  The foundation (\<open>CategoryFromHTTPRoutes\<close>, \<open>JSONSchemaForGoValue\<close> with its marshalling,
  \<open>NewStaticBinding\<close>, the names of the deployment modes) and the protocol version of the SDK.
\<close>

record foundation =
  fd_disclose :: "action_definition \<Rightarrow> disclosed"
  fd_category :: "route_category \<Rightarrow> err + category_document"
  fd_schema :: "candidate \<Rightarrow> err + bytes"
  fd_static :: "module_summary \<Rightarrow> category_document list \<Rightarrow> err + capability"
  fd_modes :: "bytes \<times> bytes"
  fd_protocol :: bytes

definition jobs_category :: category_summary where
  "jobs_category =
     \<lparr>cs_key = ''data_exchange.jobs'', cs_name = ''Data Exchange jobs'',
      cs_description = ''Inspect, cancel, and download only the authenticated actor's workspace-isolated '' @
        ''durable import/export jobs with the current exact Permission and its owner data scope.'',
      cs_chains = [''data_exchange_job_to_file_download''], cs_scopes = []\<rparr>"

definition bearer_components :: "(bytes \<times> (bytes \<times> bytes) list) list" where
  "bearer_components =
     [(''securitySchemes'', [(''BearerAuth'',
        json_object [(''type'', json_string ''http''), (''scheme'', json_string ''bearer''),
          (''bearerFormat'', json_string ''JWT'')])])]"

definition jobs_route_category ::
  "manifest \<Rightarrow> route list \<Rightarrow> (bytes \<rightharpoonup> operation_extension) \<Rightarrow> route_category" where
  "jobs_route_category mf routes overrides =
     \<lparr>rg_owner = ''data_exchange'', rg_category = jobs_category, rg_routes = routes,
      rg_operations = mf_operations mf, rg_scope = ''authenticated_workspace'',
      rg_overrides = overrides, rg_components = bearer_components\<rparr>"

definition transfer_document :: "bytes \<Rightarrow> bytes \<Rightarrow> category_document" where
  "transfer_document import_schema export_schema =
     \<lparr>cd_category =
        \<lparr>cs_key = ''data_exchange.transfer'', cs_name = ''Batch transfer'',
         cs_description = ''Validate common import/export job envelopes before a Records, Report, or '' @
           ''other source owner supplies provider-specific options and content.'',
         cs_chains = [''file_upload_to_data_exchange_import'',
           ''record_or_report_query_to_data_exchange_export''], cs_scopes = []\<rparr>,
      cd_openapi = ''3.1.0'', cd_paths = [],
      cd_projections =
        [\<lparr>sp_kind = ''data_exchange.validation_schema'', sp_key = ''data_exchange.export'',
          sp_payload = export_schema\<rparr>,
         \<lparr>sp_kind = ''data_exchange.validation_schema'', sp_key = ''data_exchange.import'',
          sp_payload = import_schema\<rparr>]\<rparr>"

definition contract_summary :: "foundation \<Rightarrow> module_summary" where
  "contract_summary fd =
     \<lparr>ms_key = ''data_exchange'', ms_source_owner = ''data_exchange'', ms_version = fd_protocol fd,
      ms_revision = ''data-exchange-request-validation-v1'',
      ms_modes = [fst (fd_modes fd), snd (fd_modes fd)],
      ms_name = ''Data Exchange'',
      ms_description = ''Owns durable streaming imports, paged or canonical exports, transfer jobs, chunks, '' @
        ''integrity evidence, cancellation, and artifact lifecycle while business providers own row '' @
        ''and artifact semantics.'',
      ms_provided = [''data_exchange.streaming_import'', ''data_exchange.paged_export'',
        ''data_exchange.canonical_artifact'', ''data_exchange.durable_job'', ''data_exchange.job_cancel'',
        ''data_exchange.artifact_download'', ''data_exchange.integrity_evidence''],
      ms_required = [''identity''], ms_optional = [''audit'', ''report''], ms_conflicting = [],
      ms_chains = [''file_upload_to_data_exchange_import'',
        ''record_or_report_query_to_data_exchange_export'', ''data_exchange_job_to_file_download''],
      ms_scopes = []\<rparr>"

subsection \<open>Opening the contract\<close>

text \<open>\<open>None\<close> is the nil dereference of a route without a Permission.\<close>

definition open_contract :: "sdk \<Rightarrow> manifest \<Rightarrow> foundation \<Rightarrow> (err + capability) option" where
  "open_contract k mf fd =
     (case data_exchange_routes mf of
        Inl e \<Rightarrow> Some (Inl (Err_msg ''project Data Exchange capability routes''))
      | Inr routes \<Rightarrow>
        (case capability_overrides k (fd_disclose fd) routes Map.empty of
           None \<Rightarrow> None
         | Some overrides \<Rightarrow> Some (
           case fd_category fd (jobs_route_category mf routes overrides) of
             Inl e \<Rightarrow> Inl (Err_msg ''project Data Exchange job capability'')
           | Inr jobs \<Rightarrow>
             (case fd_schema fd import_candidate of
                Inl e \<Rightarrow> Inl e
              | Inr import_schema \<Rightarrow>
                (case fd_schema fd export_candidate of
                   Inl e \<Rightarrow> Inl e
                 | Inr export_schema \<Rightarrow>
                   fd_static fd (contract_summary fd)
                     [jobs, transfer_document import_schema export_schema])))))"

end
