(* ===== verification/Schema.thy ===== *)
theory Schema
  imports Model
begin

text \<open>
  The database engines (\<open>internal/infrastructure/persistence/engine.go\<close> and the packages \<open>sqlite\<close>,
  \<open>mysql\<close>, \<open>postgres\<close>, \<open>base\<close> below it) and the migrations that the module owns
  (\<open>internal/infrastructure/persistence/database/schema/definition.go\<close>). The released DDL of v1 and
  v2 is text of this program; the statements of later versions are rendered by the ORM, which is the
  record \<open>orm\<close>. The rows of the tables are the records of the theory \<open>Db\<close>.
\<close>

subsection \<open>Engines\<close>

datatype dialect = Sqlite | Mysql | Postgres | Unknown_dialect bytes

datatype engine = Sqlite_engine | Mysql_engine | Postgres_engine

record historical_schema =
  hs_text :: bytes
  hs_key :: bytes
  hs_large :: bytes
  hs_qualify :: bool

definition sqlite_schema :: historical_schema where
  "sqlite_schema =
     \<lparr>hs_text = ''TEXT'', hs_key = ''TEXT'', hs_large = ''TEXT'', hs_qualify = False\<rparr>"

definition mysql_schema :: historical_schema where
  "mysql_schema =
     \<lparr>hs_text = ''VARCHAR(512)'', hs_key = ''VARCHAR(191)'', hs_large = ''LONGTEXT'', hs_qualify = True\<rparr>"

definition postgres_schema :: historical_schema where
  "postgres_schema =
     \<lparr>hs_text = ''TEXT'', hs_key = ''TEXT'', hs_large = ''TEXT'', hs_qualify = True\<rparr>"

definition historical_schema_of :: "engine \<Rightarrow> historical_schema" where
  "historical_schema_of e =
     (case e of
        Sqlite_engine \<Rightarrow> sqlite_schema | Mysql_engine \<Rightarrow> mysql_schema
      | Postgres_engine \<Rightarrow> postgres_schema)"

definition engine_factories :: "dialect \<Rightarrow> engine option" where
  "engine_factories d =
     (case d of
        Sqlite \<Rightarrow> Some Sqlite_engine | Mysql \<Rightarrow> Some Mysql_engine
      | Postgres \<Rightarrow> Some Postgres_engine | Unknown_dialect _ \<Rightarrow> None)"

text \<open>\<open>dialect.Parse\<close> of the ORM is the parameter \<open>parse\<close>.\<close>

definition new_engine :: "(bytes \<Rightarrow> err + dialect) \<Rightarrow> bytes \<Rightarrow> err + engine" where
  "new_engine parse driver =
     (case parse driver of
        Inl e \<Rightarrow> Inl (Err_msg (''Data Exchange database driver '' @ driver @ '' is unsupported''))
      | Inr d \<Rightarrow>
        (case engine_factories d of
           None \<Rightarrow> Inl (Err_msg (''Data Exchange database driver '' @ driver @ '' is unsupported''))
         | Some e \<Rightarrow> Inr e))"

definition qualified_table :: "historical_schema \<Rightarrow> bytes \<Rightarrow> bytes \<Rightarrow> bytes" where
  "qualified_table profile schema table =
     (if hs_qualify profile \<and> trim_space schema \<noteq> []
      then trim_space schema @ ''.'' @ table else table)"

subsection \<open>Migrations\<close>

datatype orm_type = Orm_integer | Orm_text_key nat | Orm_text

text \<open>A column of the ORM: its name, its type, and the default after \<open>NOT NULL\<close>, if any.\<close>

record orm_column =
  oc_name :: bytes
  oc_type :: orm_type
  oc_default :: "bytes option"

record orm =
  or_add_column :: "engine \<Rightarrow> bytes \<Rightarrow> bytes \<Rightarrow> orm_column \<Rightarrow> err + bytes"
  or_new_table :: "engine \<Rightarrow> bytes \<Rightarrow> bytes \<Rightarrow> orm_column list \<Rightarrow> bytes list \<Rightarrow> err + bytes"

fun joined :: "bytes list \<Rightarrow> bytes" where
  "joined [] = []"
| "joined [s] = s"
| "joined (s # ss) = s @ '', '' @ joined ss"

definition column :: "bytes \<Rightarrow> bytes \<Rightarrow> bytes \<Rightarrow> bytes" where
  "column name kind attributes = name @ '' '' @ kind @ attributes"

definition not_null :: bytes where "not_null = '' NOT NULL''"
definition default_zero :: bytes where "default_zero = '' NOT NULL DEFAULT 0''"
definition default_empty :: bytes where
  "default_empty = '' NOT NULL DEFAULT '' @ [CHR 0x27, CHR 0x27]"

definition create_table :: "bytes \<Rightarrow> bytes list \<Rightarrow> bytes" where
  "create_table table clauses =
     ''CREATE TABLE IF NOT EXISTS '' @ table @ '' ('' @ joined clauses @ '')''"

definition jobs_ddl :: "historical_schema \<Rightarrow> bytes \<Rightarrow> bytes" where
  "jobs_ddl p table =
     (let key = hs_key p in create_table table
       [column ''id'' key '' PRIMARY KEY'', column ''workspace_id'' key not_null,
        column ''provider'' key not_null, column ''operation'' key not_null,
        column ''object_key'' key not_null, column ''idempotency_key'' key not_null,
        column ''request_sha256'' key not_null, column ''request_payload'' (hs_large p) not_null,
        column ''status'' key not_null, column ''checkpoint_value'' ''INTEGER'' default_zero,
        column ''checkpoint_cursor'' key default_empty, column ''total_value'' ''INTEGER'' default_zero,
        column ''result_chunks'' ''INTEGER'' default_zero, column ''source_sha256'' key default_empty,
        column ''source_bytes'' ''BIGINT'' default_zero, column ''source_chunks'' ''INTEGER'' default_zero,
        column ''artifact_id'' key default_empty, column ''error_code'' key default_empty,
        column ''lease_owner'' key default_empty, column ''lease_expires_at'' key default_empty,
        column ''fencing_token'' ''BIGINT'' default_zero, column ''actor_id'' key not_null,
        column ''role_key'' key default_empty, column ''created_at'' key not_null,
        column ''updated_at'' key not_null])"

definition chunks_ddl :: "historical_schema \<Rightarrow> bytes \<Rightarrow> bytes" where
  "chunks_ddl p table =
     (let key = hs_key p in create_table table
       [column ''workspace_id'' key not_null, column ''job_id'' key not_null,
        column ''direction'' key not_null, column ''sequence_no'' ''INTEGER'' not_null,
        column ''content'' (hs_large p) not_null, column ''content_sha256'' key not_null,
        column ''created_at'' key not_null,
        ''PRIMARY KEY(workspace_id, job_id, direction, sequence_no)''])"

definition artifacts_ddl :: "historical_schema \<Rightarrow> bytes \<Rightarrow> bytes" where
  "artifacts_ddl p table =
     (let key = hs_key p in create_table table
       [column ''id'' key '' PRIMARY KEY'', column ''workspace_id'' key not_null,
        column ''job_id'' key not_null, column ''filename'' (hs_text p) not_null,
        column ''content_type'' (hs_text p) not_null, column ''content_sha256'' key not_null,
        column ''size_bytes'' ''BIGINT'' not_null, column ''expires_at'' key not_null,
        column ''created_at'' key not_null])"

definition queue_scopes_ddl :: "historical_schema \<Rightarrow> bytes \<Rightarrow> bytes" where
  "queue_scopes_ddl p table =
     create_table table
       [column ''scope_key'' (hs_key p) '' PRIMARY KEY'', column ''updated_at'' (hs_key p) not_null]"

definition reference_ddl :: "historical_schema \<Rightarrow> bytes \<Rightarrow> bytes" where
  "reference_ddl p table =
     ''ALTER TABLE '' @ table @ '' ADD COLUMN '' @ column ''reference_id'' (hs_key p) default_empty"

definition key_column :: "bytes \<Rightarrow> bytes option \<Rightarrow> orm_column" where
  "key_column name default_value =
     \<lparr>oc_name = name, oc_type = Orm_text_key 191, oc_default = default_value\<rparr>"

definition text_column :: "bytes \<Rightarrow> orm_column" where
  "text_column name = \<lparr>oc_name = name, oc_type = Orm_text, oc_default = None\<rparr>"

definition attempts_column :: orm_column where
  "attempts_column =
     \<lparr>oc_name = ''attempt_count'', oc_type = Orm_integer, oc_default = Some ''0''\<rparr>"

definition next_attempt_column :: orm_column where
  "next_attempt_column = key_column ''next_attempt_at'' (Some [])"

definition fence_columns :: "orm_column list" where
  "fence_columns =
     [key_column ''workspace_id'' None, key_column ''subject_id'' None,
      key_column ''request_id'' (Some [])]"

definition receipt_columns :: "orm_column list" where
  "receipt_columns =
     [key_column ''workspace_id'' None, key_column ''request_id'' None, key_column ''subject_id'' None,
      text_column ''plan_json'', text_column ''result_json'']"

text \<open>The migrations, id and statement, in the order they are applied.\<close>

definition schema_migrations :: "orm \<Rightarrow> engine option \<Rightarrow> bytes \<Rightarrow> err + (bytes \<times> bytes) list" where
  "schema_migrations o' engine schema =
     (case engine of
        None \<Rightarrow> Inl (Err_msg ''Data Exchange database engine is required'')
      | Some e \<Rightarrow>
        let p = historical_schema_of e; table = qualified_table p schema;
            jobs = table ''_data_exchange_jobs'' in
        (case or_add_column o' e schema ''_data_exchange_jobs'' attempts_column of Inl err \<Rightarrow> Inl err
         | Inr attempts \<Rightarrow>
        (case or_add_column o' e schema ''_data_exchange_jobs'' next_attempt_column of Inl err \<Rightarrow> Inl err
         | Inr next_attempt \<Rightarrow>
        (case or_new_table o' e schema ''_data_exchange_subject_erasure_fences'' fence_columns
                [''workspace_id'', ''subject_id''] of Inl err \<Rightarrow> Inl err
         | Inr fences \<Rightarrow>
        (case or_new_table o' e schema ''_data_exchange_subject_erasure_receipts'' receipt_columns
                [''workspace_id'', ''request_id''] of Inl err \<Rightarrow> Inl err
         | Inr receipts \<Rightarrow>
        Inr [(''data_exchange_jobs_v1'', jobs_ddl p jobs),
             (''data_exchange_job_chunks_v1'', chunks_ddl p (table ''_data_exchange_job_chunks'')),
             (''data_exchange_artifacts_v1'', artifacts_ddl p (table ''_data_exchange_artifacts'')),
             (''data_exchange_queue_scopes_v1'', queue_scopes_ddl p (table ''_data_exchange_queue_scopes'')),
             (''data_exchange_job_owner_reference_v2'', reference_ddl p jobs),
             (''data_exchange_job_attempt_count_v3'', attempts),
             (''data_exchange_job_next_attempt_v4'', next_attempt),
             (''data_exchange_subject_erasure_fences_v5'', fences),
             (''data_exchange_subject_erasure_receipts_v6'', receipts)])))))"

end
