(* ===== verification/Assembly.thy ===== *)
theory Assembly
  imports Disclosure Schema
begin

text \<open>
  How the two deployments put the parts together: the SDK binding around the service
  (\<open>internal/adapter/dataexchangesdk/binding.go\<close>), the in-process module
  (\<open>internal/assembly/module/factory.go\<close>, opened through \<open>module/module.go\<close>) and the SaaS client
  (\<open>internal/assembly/saas/factory.go\<close>, \<open>subject_lifecycle.go\<close>, opened through
  \<open>remote/factory.go\<close>).

  Documents of the capability contract are given by their JSON.
\<close>

subsection \<open>The SDK binding\<close>

record module_binding =
  mb_service :: service
  mb_capability :: "capability option"
  mb_adapters :: "(adapter \<times> route list \<times> (bytes \<times> handler) list) list"

definition new_service ::
  "application \<Rightarrow> host \<Rightarrow> repository \<Rightarrow> subject_repository option \<Rightarrow> service" where
  "new_service a h store subjects =
     \<lparr>sv_application = a, sv_host = h, sv_store = store, sv_subjects = subjects\<rparr>"

definition new_binding ::
  "application \<Rightarrow> host \<Rightarrow> repository \<Rightarrow> subject_repository option \<Rightarrow> capability list \<Rightarrow>
   module_binding" where
  "new_binding a h store subjects capabilities =
     \<lparr>mb_service = new_service a h store subjects,
      mb_capability = (case capabilities of [] \<Rightarrow> None | c # _ \<Rightarrow> Some c), mb_adapters = []\<rparr>"

definition capability_unavailable :: err where
  "capability_unavailable = Err_msg ''Data Exchange capability binding is unavailable''"

definition capability_summary :: "module_binding \<Rightarrow> err + bytes" where
  "capability_summary b =
     (case mb_capability b of None \<Rightarrow> Inl capability_unavailable | Some c \<Rightarrow> cp_summary c)"

definition capability_category :: "module_binding \<Rightarrow> bytes \<Rightarrow> err + bytes" where
  "capability_category b key =
     (case mb_capability b of None \<Rightarrow> Inl capability_unavailable | Some c \<Rightarrow> cp_category c key)"

definition validate_capability_candidate :: "module_binding \<Rightarrow> bytes \<Rightarrow> err + bytes" where
  "validate_capability_candidate b request =
     (case mb_capability b of None \<Rightarrow> Inl capability_unavailable | Some c \<Rightarrow> cp_validate c request)"

definition set_http_adapters ::
  "(adapter \<times> route list \<times> (bytes \<times> handler) list) list \<Rightarrow> module_binding \<Rightarrow> module_binding" where
  "set_http_adapters adapters b = b\<lparr>mb_adapters := adapters\<rparr>"

text \<open>The service as the adapter sees it: the binding embeds it, with its optional interfaces.\<close>

definition service_binding :: "sdk \<Rightarrow> service \<Rightarrow> job_binding" where
  "service_binding k sv =
     \<lparr>bd_job = get_job k sv, bd_cancel = cancel_job k sv, bd_download = download k sv,
      bd_jobs = Some (list_jobs k sv), bd_job_for_action = Some (job_for_action k sv)\<rparr>"

subsection \<open>The module\<close>

text \<open>
  The Runtime host: whether it has a database, its migration port, and its providers. The text of the
  driver and of the schema come from the port.
\<close>

text \<open>
  The store over the host's database. The workspace context of the host, which \<open>Scoped\<close> applies, only
  carries the tenant to the driver.
\<close>

definition new_store :: "sdk \<Rightarrow> engine option \<Rightarrow> err + repository" where
  "new_store k engine =
     (case engine of
        None \<Rightarrow> Inl (Err_msg ''Data Exchange database engine is required'')
      | Some _ \<Rightarrow> Inr (sql_repository (sdk_job k)))"

record migration_port =
  mp_driver :: bytes
  mp_schema :: bytes
  mp_apply_owned :: "event list \<Rightarrow> (bytes \<times> bytes) list \<Rightarrow> err + unit"

record module_host =
  mh_database :: bool
  mh_migrations :: "migration_port option"
  mh_host :: host
  mh_view :: host_view

definition open_module_plain :: "err + module_binding" where
  "open_module_plain = Inl (Err_msg ''Data Exchange Module host is required'')"

text \<open>\<open>opened\<close> is the result of \<^const>\<open>open_contract\<close>, which always returns (\<open>AssemblyCorrect\<close>).\<close>

definition open_module ::
  "(bytes \<Rightarrow> err + dialect) \<Rightarrow> orm \<Rightarrow> sdk \<Rightarrow> manifest \<Rightarrow> (application \<Rightarrow> err option) \<Rightarrow> err + capability \<Rightarrow>
   application \<Rightarrow> module_host option \<Rightarrow> module_binding op" where
  "open_module parse o' k mf check opened app host =
     require (check app)
       (case host of
          None \<Rightarrow> throw (Err_msg ''Data Exchange Module host is incomplete'')
        | Some h \<Rightarrow>
          (case mh_migrations h of
             None \<Rightarrow> throw (Err_msg ''Data Exchange Module host is incomplete'')
           | Some port \<Rightarrow>
             if \<not> mh_database h then throw (Err_msg ''Data Exchange Module host is incomplete'')
             else
             and_then (lift (new_engine parse (mp_driver port))) (\<lambda>engine.
             and_then (lift (schema_migrations o' (Some engine) (mp_schema port))) (\<lambda>migrations.
             and_then (attempt (call (\<lambda>past. mp_apply_owned port past migrations)
                 (Apply_migrations migrations))) (\<lambda>applied.
             case applied of
               Inl e \<Rightarrow> throw (Err_msg ''apply Data Exchange Module migrations'')
             | Inr _ \<Rightarrow>
               and_then (lift (new_store k (Some engine))) (\<lambda>store.
               case opened of
                  Inl e \<Rightarrow> throw (Err_msg ''build Data Exchange capability disclosure'')
                | Inr c \<Rightarrow>
                  let b = new_binding app (mh_host h) store (Some sql_subjects) [c]
                  in and_then (lift (new_adapter k mf (Some (service_binding k (mb_service b)))
                         (Some (mh_view h)))) (\<lambda>adapter.
                     ret (set_http_adapters [adapter] b))))))))"

subsection \<open>The SaaS client\<close>

datatype deployment_mode = Mode_module | Mode_saas | Mode_other bytes

record descriptor =
  ds_protocol :: bytes
  ds_mode :: deployment_mode
  ds_capabilities :: "bytes list"

text \<open>The module's own descriptor, for the SDK's protocol version.\<close>

definition module_descriptor :: "bytes \<Rightarrow> descriptor" where
  "module_descriptor protocol =
     \<lparr>ds_protocol = protocol, ds_mode = Mode_module,
      ds_capabilities = [''streaming_import'', ''paged_export'', ''durable_chunks'',
        ''artifact_lifecycle'', ''subject_erasure'']\<rparr>"

record subject_transport =
  st_preview :: "application \<Rightarrow> bytes \<Rightarrow> bytes \<Rightarrow> bytes op"
  st_export :: "application \<Rightarrow> bytes \<Rightarrow> bytes \<Rightarrow> bytes op"
  st_prepare :: "application \<Rightarrow> erasure_request \<Rightarrow> bytes op"
  st_erase :: "application \<Rightarrow> erasure_request \<Rightarrow> bytes \<Rightarrow> bytes op"

text \<open>\<open>tr_verify\<close> is the foundation's \<open>VerifyPinnedBinding\<close> on the transport.\<close>

record transport =
  tr_capability :: capability
  tr_verify :: "event list \<Rightarrow> bytes \<Rightarrow> err + unit"
  tr_descriptor :: "event list \<Rightarrow> err + descriptor"
  tr_connect :: "event list \<Rightarrow> err + unit"
  tr_close :: "event list \<Rightarrow> err + unit"
  tr_submit_import :: "request_context \<Rightarrow> application \<Rightarrow> import_request \<Rightarrow> (job \<times> bool) op"
  tr_submit_export :: "request_context \<Rightarrow> application \<Rightarrow> export_request \<Rightarrow> (job \<times> bool) op"
  tr_job :: "request_context \<Rightarrow> application \<Rightarrow> job_request \<Rightarrow> job op"
  tr_cancel :: "request_context \<Rightarrow> application \<Rightarrow> job_request \<Rightarrow> job op"
  tr_download :: "request_context \<Rightarrow> application \<Rightarrow> job_request \<Rightarrow> artifact op"
  tr_subjects :: "subject_transport option"

record saas_binding =
  sb_application :: application
  sb_transport :: transport
  sb_descriptor :: descriptor
  sb_adapters :: "(adapter \<times> route list \<times> (bytes \<times> handler) list) list"
  sb_closed :: bool

definition saas_submit_import ::
  "saas_binding \<Rightarrow> request_context \<Rightarrow> import_request \<Rightarrow> (job \<times> bool) op" where
  "saas_submit_import b ctx r = tr_submit_import (sb_transport b) ctx (sb_application b) r"

definition saas_submit_export ::
  "saas_binding \<Rightarrow> request_context \<Rightarrow> export_request \<Rightarrow> (job \<times> bool) op" where
  "saas_submit_export b ctx r = tr_submit_export (sb_transport b) ctx (sb_application b) r"

definition saas_job :: "saas_binding \<Rightarrow> request_context \<Rightarrow> job_request \<Rightarrow> job op" where
  "saas_job b ctx r = tr_job (sb_transport b) ctx (sb_application b) r"

definition saas_cancel :: "saas_binding \<Rightarrow> request_context \<Rightarrow> job_request \<Rightarrow> job op" where
  "saas_cancel b ctx r = tr_cancel (sb_transport b) ctx (sb_application b) r"

definition saas_download :: "saas_binding \<Rightarrow> request_context \<Rightarrow> job_request \<Rightarrow> artifact op" where
  "saas_download b ctx r = tr_download (sb_transport b) ctx (sb_application b) r"

text \<open>It has neither \<open>Jobs\<close> nor \<open>JobForAction\<close>.\<close>

definition saas_job_binding :: "saas_binding \<Rightarrow> job_binding" where
  "saas_job_binding b =
     \<lparr>bd_job = saas_job b, bd_cancel = saas_cancel b, bd_download = saas_download b,
      bd_jobs = None, bd_job_for_action = None\<rparr>"

definition saas_capability_summary :: "saas_binding \<Rightarrow> err + bytes" where
  "saas_capability_summary b = cp_summary (tr_capability (sb_transport b))"

definition saas_capability_category :: "saas_binding \<Rightarrow> bytes \<Rightarrow> err + bytes" where
  "saas_capability_category b key = cp_category (tr_capability (sb_transport b)) key"

definition saas_validate_candidate :: "saas_binding \<Rightarrow> bytes \<Rightarrow> err + bytes" where
  "saas_validate_candidate b request = cp_validate (tr_capability (sb_transport b)) request"

text \<open>No worker runs in the client: \<open>Start\<close> returns a closed channel.\<close>

definition saas_start :: "saas_binding \<Rightarrow> worker_config \<Rightarrow> nat list option op" where
  "saas_start b c = ret (Some [])"

text \<open>\<open>closeOnce\<close>: only the first call reaches the transport and can return an error.\<close>

definition saas_close :: "saas_binding \<Rightarrow> (err option \<times> saas_binding) op" where
  "saas_close b =
     (if sb_closed b then ret (None, b)
      else and_then (attempt (call (tr_close (sb_transport b)) Close_transport)) (\<lambda>r.
        ret (case r of Inl e \<Rightarrow> Some e | Inr _ \<Rightarrow> None, b\<lparr>sb_closed := True\<rparr>)))"

definition open_saas_plain :: "err + saas_binding" where
  "open_saas_plain = Inl (Err_msg ''Data Exchange SaaS requires Runtime host capabilities'')"

text \<open>
  \<open>local\<close> is the source capability: opening it may fail, and so may its summary, whose contract SHA-256
  is pinned. \<open>check_descriptor\<close> is \<open>Descriptor.Validate\<close>.
\<close>

definition open_saas ::
  "sdk \<Rightarrow> manifest \<Rightarrow> (application \<Rightarrow> err option) \<Rightarrow> (descriptor \<Rightarrow> err option) \<Rightarrow> err + (err + bytes) \<Rightarrow>
   application \<Rightarrow> transport option \<Rightarrow> host_view option \<Rightarrow> saas_binding op" where
  "open_saas k mf check check_descriptor local app transport host =
     require (check app)
       (case (transport, host) of
          (Some t, Some view) \<Rightarrow>
            (case local of
               Inl e \<Rightarrow> throw (Err_msg ''open Data Exchange source capability'')
             | Inr summary \<Rightarrow>
               (case summary of
                  Inl e \<Rightarrow> throw (Err_msg ''load Data Exchange source capability summary'')
                | Inr sha \<Rightarrow>
                  and_then (attempt (call (\<lambda>past. tr_verify t past sha) (Verify_capability sha))) (\<lambda>verified.
                  case verified of
                    Inl e \<Rightarrow> throw (Err_msg ''verify Data Exchange SaaS capability'')
                  | Inr _ \<Rightarrow>
                    and_then (call (tr_descriptor t) Ask_descriptor) (\<lambda>d.
                    if check_descriptor d \<noteq> None \<or> ds_mode d \<noteq> Mode_saas
                    then throw (Err_msg ''Data Exchange SaaS descriptor is incompatible'')
                    else
                    and_then (attempt (call (tr_connect t) Connect_transport)) (\<lambda>connected.
                    case connected of
                      Inl e \<Rightarrow> throw (Err_msg ''connect Data Exchange SaaS provider bridge'')
                    | Inr _ \<Rightarrow>
                      let b = \<lparr>sb_application = app, sb_transport = t, sb_descriptor = d,
                               sb_adapters = [], sb_closed = False\<rparr> in
                      (case new_adapter k mf (Some (saas_job_binding b)) (Some view) of
                         Inl e \<Rightarrow>
                           and_then (attempt (call (tr_close t) Close_transport)) (\<lambda>_. throw e)
                       | Inr adapter \<Rightarrow> ret (b\<lparr>sb_adapters := [adapter]\<rparr>)))))))
        | _ \<Rightarrow> throw (Err_msg ''Data Exchange SaaS transport and host are required''))"

subsection \<open>The subject lifecycle over the transport\<close>

definition saas_subjects :: "saas_binding \<Rightarrow> err + subject_transport" where
  "saas_subjects b =
     (case tr_subjects (sb_transport b) of
        None \<Rightarrow> Inl (Err_msg ''Data Exchange SaaS subject lifecycle transport unavailable'')
      | Some t \<Rightarrow> Inr t)"

definition saas_preview_subject :: "saas_binding \<Rightarrow> bytes \<Rightarrow> bytes \<Rightarrow> bytes op" where
  "saas_preview_subject b workspace subject =
     and_then (lift (saas_subjects b)) (\<lambda>t. st_preview t (sb_application b) workspace subject)"

definition saas_export_subject :: "saas_binding \<Rightarrow> bytes \<Rightarrow> bytes \<Rightarrow> bytes op" where
  "saas_export_subject b workspace subject =
     and_then (lift (saas_subjects b)) (\<lambda>t. st_export t (sb_application b) workspace subject)"

definition saas_prepare_erasure :: "saas_binding \<Rightarrow> erasure_request \<Rightarrow> bytes op" where
  "saas_prepare_erasure b q =
     and_then (lift (saas_subjects b)) (\<lambda>t. st_prepare t (sb_application b) q)"

definition saas_erase_prepared :: "saas_binding \<Rightarrow> erasure_request \<Rightarrow> bytes \<Rightarrow> bytes op" where
  "saas_erase_prepared b q plan =
     and_then (lift (saas_subjects b)) (\<lambda>t. st_erase t (sb_application b) q plan)"

end
