(* ===== verification/HttpCorrect.thy ===== *)
theory HttpCorrect
  imports Assembly ServiceCorrect DownloadCorrect
begin

text \<open>
  What the HTTP adapter promises: every request is answered, with success exactly when the binding and the
  providers succeeded, and an error answer says nothing but a code; callers without the grant reach neither database nor providers; what a caller is shown or
  downloads is their own.
\<close>

subsection \<open>One answer\<close>

definition reports_error :: "http_response \<Rightarrow> bool" where
  "reports_error answer \<longleftrightarrow>
     (\<exists>status code. answer = write_json status (code_json code) \<and>
        status \<in> {400, 401, 403, 404, 409, 429, 500, 503} \<and>
        (if status = 500 then code = ''backend.data_exchange.internal'' else True))"

lemma answering_wp:
  assumes "\<And>x v. wp (f x) Q (\<lambda>_ _. False) v" "\<And>e v. Q (write_error er e) v"
  shows "wp (answering er m f) Q (\<lambda>_ _. False) w"
  unfolding answering_def wp_and_then wp_attempt
  by (rule wpI) (use assms in \<open>auto simp: op_simps\<close>)

lemma reports_errorI:
  assumes "status \<in> {400, 401, 403, 404, 409, 429, 503} \<or>
    status = 500 \<and> code = ''backend.data_exchange.internal''"
  shows "reports_error (write_json status (code_json code))"
  unfolding reports_error_def by (rule exI [of _ status], rule exI [of _ code]) (use assms in auto)

lemma write_error_reports: "reports_error (write_error er e)"
proof -
  have known: "reports_error (write_json (status_of_kind kind) (code_json (if code = [] \<or>
      status_of_kind kind = 500 then ''backend.data_exchange.internal'' else code)))" for kind code
    by (rule reports_errorI) (simp add: status_of_kind_def split: error_kind.splits)
  show ?thesis
    using known [of "ae_kind er e" "ae_code er e"]
    unfolding write_error_def Let_def by (auto simp: reports_errorI)
qed

lemma refusals_report:
  "reports_error unauthenticated" "reports_error invalid_job_request"
  "reports_error invalid_list_request"
  by (simp_all add: reports_errorI unauthenticated_def invalid_job_request_def invalid_list_request_def)

lemma http_job_request_reports: "http_job_request er k q permission = Inl answer \<Longrightarrow> reports_error answer"
  by (auto simp: http_job_request_def Let_def refusals_report write_error_reports
      split: option.splits sum.splits)

lemma write_json_status [simp]: "hr_status (write_json status v) = status"
  by (simp add: write_json_def)

lemma artifact_response_status [simp]: "hr_status (artifact_response buffers af c) = 200"
  by (simp add: artifact_response_def)

text \<open>
  What an answer of 200 stands for. A lookup or a cancellation: the binding answered with a job, which was
  projected, and the answer is the JSON of the projection. A listing: the same of all the jobs. A
  download: the job is a completed export, its artifact was opened, has content and has not expired.
\<close>

definition job_succeeded ::
  "adapter \<Rightarrow> job op \<Rightarrow> scope \<Rightarrow> world \<Rightarrow> http_response \<Rightarrow> world \<Rightarrow> bool" where
  "job_succeeded a m scope w answer w' \<longleftrightarrow>
     (\<exists>j v projection. m w = (Inr j, v) \<and> project_job a j scope v = (Inr projection, w') \<and>
        answer = write_json 200 projection)"

definition list_succeeded ::
  "sdk \<Rightarrow> adapter \<Rightarrow> http_request \<Rightarrow> world \<Rightarrow> http_response \<Rightarrow> world \<Rightarrow> bool" where
  "list_succeeded k a q w answer w' \<longleftrightarrow>
     (\<exists>who page_limit jobs js v items.
        cx_principal (hq_context q) = Some who \<and>
        (if query_value ''limit'' q = [] then Some 0 else parse_int64 (query_value ''limit'' q)) =
          Some page_limit \<and>
        sdk_list k (http_list_request q who page_limit) = None \<and> bd_jobs (ad_binding a) = Some jobs \<and>
        jobs (hq_context q) (http_list_request q who page_limit) w = (Inr js, v) \<and>
        project_jobs a (request_scope q who) js v = (Inr items, w') \<and>
        answer = write_json 200 (items_json items))"

definition download_succeeded ::
  "nat list \<Rightarrow> adapter \<Rightarrow> http_request \<Rightarrow> job op \<Rightarrow> scope \<Rightarrow> world \<Rightarrow> http_response \<Rightarrow> bool" where
  "download_succeeded buffers a q m scope w answer \<longleftrightarrow>
     (\<exists>j v af u content.
        m w = (Inr j, v) \<and> j_operation j = ''export'' \<and> j_status j = ''completed'' \<and>
        open_artifact a q j scope v = (Inr af, u) \<and> af_content af = Some content \<and>
        (is_zero (af_expires_at af) \<or> w_clock u (w_readings u) < af_expires_at af) \<and>
        answer = artifact_response buffers af content)"

definition succeeded ::
  "nat list \<Rightarrow> app_errors \<Rightarrow> sdk \<Rightarrow> adapter \<Rightarrow> handler \<Rightarrow> http_request \<Rightarrow> world \<Rightarrow> http_response \<Rightarrow> world \<Rightarrow> bool"
where
  "succeeded buffers er k a h q w answer w' \<longleftrightarrow>
     (case h of
        Handle_list \<Rightarrow> list_succeeded k a q w answer w'
      | Handle_get \<Rightarrow> \<exists>r. http_job_request er k q (act_get k) = Inr r \<and>
          job_succeeded a (bd_job (ad_binding a) (hq_context q) r) (jq_scope r) w answer w'
      | Handle_cancel \<Rightarrow> \<exists>r. http_job_request er k q (act_cancel k) = Inr r \<and>
          job_succeeded a (bd_cancel (ad_binding a) (hq_context q) r) (jq_scope r) w answer w'
      | Handle_download \<Rightarrow> \<exists>r. http_job_request er k q (act_download k) = Inr r \<and>
          download_succeeded buffers a q
            (case bd_job_for_action (ad_binding a) of
               Some scoped \<Rightarrow> scoped (hq_context q) r (act_download k)
             | None \<Rightarrow> bd_job (ad_binding a) (hq_context q) r) (jq_scope r) w answer)"

definition proper :: "(http_response \<Rightarrow> world \<Rightarrow> bool) \<Rightarrow> http_response \<Rightarrow> world \<Rightarrow> bool" where
  "proper success answer w' \<longleftrightarrow> (if hr_status answer = 200 then success answer w' else reports_error answer)"

lemma reports_error_status: "reports_error answer \<Longrightarrow> hr_status answer \<noteq> 200"
  by (auto simp: reports_error_def)

lemma proper_error: "reports_error answer \<Longrightarrow> proper success answer w'"
  by (simp add: proper_def reports_error_status)

lemmas proper_errors =
  proper_error [OF write_error_reports] proper_error [OF refusals_report(1)]
  proper_error [OF refusals_report(2)] proper_error [OF refusals_report(3)]
  proper_error [OF http_job_request_reports]

lemma answering_proper:
  assumes "\<And>x v. m w = (Inr x, v) \<Longrightarrow> wp (f x) (proper success) (\<lambda>_ _. False) v"
  shows "wp (answering er m f) (proper success) (\<lambda>_ _. False) w"
  unfolding answering_def wp_and_then wp_attempt
  by (rule wpI) (use assms in \<open>auto simp: op_simps proper_errors\<close>)

lemma job_proper:
  "wp (answering er m (\<lambda>j. answering er (project_job a j scope) (\<lambda>projection.
      ret (write_json 200 projection))))
    (proper (job_succeeded a m scope w)) (\<lambda>_ _. False) w"
  by (intro answering_proper) (auto simp: op_simps proper_def job_succeeded_def)

lemma list_proper: "wp (http_list_jobs er k a q) (proper (list_succeeded k a q w)) (\<lambda>_ _. False) w"
proof -
  have "wp (answering er (jobs (hq_context q) r) (\<lambda>js. answering er (project_jobs a (jl_scope r) js)
        (\<lambda>items. ret (write_json 200 (items_json items)))))
      (proper (list_succeeded k a q w)) (\<lambda>_ _. False) w"
    if "cx_principal (hq_context q) = Some who"
      "(if query_value ''limit'' q = [] then Some 0 else parse_int64 (query_value ''limit'' q)) = Some page_limit"
      "r = http_list_request q who page_limit"
      "sdk_list k r = None" "bd_jobs (ad_binding a) = Some jobs" for who page_limit jobs r
    by (intro answering_proper)
      (use that in \<open>fastforce simp: op_simps proper_def list_succeeded_def http_list_request_def\<close>)
  then show ?thesis
    unfolding http_list_jobs_def Let_def
    by (auto simp: op_simps proper_errors split: option.split)
qed

lemma download_proper:
  "wp (answering er m (\<lambda>j.
      if j_operation j \<noteq> ''export'' \<or> j_status j \<noteq> ''completed''
      then ret (write_error er (Err_app Kind_conflict ''backend.data_exchange.result_not_ready'' []))
      else
      answering er (open_artifact a q j scope) (\<lambda>af.
      case af_content af of
        None \<Rightarrow> ret (write_error er (Err_msg ''Data Exchange artifact content is unavailable''))
      | Some content \<Rightarrow>
        if is_zero (af_expires_at af) then ret (artifact_response buffers af content)
        else and_then time_now (\<lambda>now.
          if \<not> now < af_expires_at af then ret (write_error er Err_artifact_expired)
          else ret (artifact_response buffers af content)))))
    (proper (\<lambda>answer _. download_succeeded buffers a q m scope w answer)) (\<lambda>_ _. False) w"
proof (rule answering_proper, goal_cases)
  case (1 j v)
  show ?case
  proof (cases "j_operation j = ''export'' \<and> j_status j = ''completed''")
    case True
    have "wp (answering er (open_artifact a q j scope) (\<lambda>af.
          case af_content af of
            None \<Rightarrow> ret (write_error er (Err_msg ''Data Exchange artifact content is unavailable''))
          | Some content \<Rightarrow>
            if is_zero (af_expires_at af) then ret (artifact_response buffers af content)
            else and_then time_now (\<lambda>now.
              if \<not> now < af_expires_at af then ret (write_error er Err_artifact_expired)
              else ret (artifact_response buffers af content))))
        (proper (\<lambda>answer _. download_succeeded buffers a q m scope w answer)) (\<lambda>_ _. False) v"
    proof (rule answering_proper, goal_cases)
      case (1 af u)
      with \<open>m w = (Inr j, v)\<close> True show ?case
        by (auto simp: op_simps proper_errors split: option.split)
          (auto simp: proper_def download_succeeded_def)
    qed
    with True show ?thesis by (simp only: simp_thms if_False)
  qed (auto simp: op_simps proper_errors)
qed

lemma serve_proper:
  "wp (serve_http buffers er k a h q) (proper (succeeded buffers er k a h q w)) (\<lambda>_ _. False) w"
proof (cases h)
  case Handle_list
  then show ?thesis using list_proper by (simp add: serve_http_def succeeded_def [abs_def])
next
  case Handle_get
  have "wp (http_get_job er k a q) (proper (succeeded buffers er k a h q w)) (\<lambda>_ _. False) w"
    unfolding http_get_job_def Handle_get
    by (auto simp: op_simps proper_errors split: sum.split intro!: wp_mono [OF job_proper])
      (auto simp: proper_def succeeded_def)
  then show ?thesis by (simp add: serve_http_def Handle_get)
next
  case Handle_cancel
  have "wp (http_cancel_job er k a q) (proper (succeeded buffers er k a h q w)) (\<lambda>_ _. False) w"
    unfolding http_cancel_job_def Handle_cancel
    by (auto simp: op_simps proper_errors split: sum.split intro!: wp_mono [OF job_proper])
      (auto simp: proper_def succeeded_def)
  then show ?thesis by (simp add: serve_http_def Handle_cancel)
next
  case Handle_download
  have "wp (http_download_job buffers er k a q) (proper (succeeded buffers er k a h q w)) (\<lambda>_ _. False) w"
  proof (cases "http_job_request er k q (act_download k)")
    case (Inr r)
    show ?thesis
      unfolding http_download_job_def Inr sum.case
      by (rule wp_mono [OF download_proper]) (simp_all add: proper_def succeeded_def Handle_download Inr)
  qed (simp add: http_download_job_def op_simps proper_errors)
  then show ?thesis by (simp add: serve_http_def Handle_download)
qed

lemma success_is_served:
  assumes "succeeded buffers er k a h q w answer v"
  shows "fst (serve_http buffers er k a h q w) = Inr answer"
proof (cases h)
  case Handle_list
  with assms obtain who page_limit jobs js u items where found:
    "cx_principal (hq_context q) = Some who"
    "(if query_value ''limit'' q = [] then Some 0 else parse_int64 (query_value ''limit'' q)) = Some page_limit"
    "sdk_list k (http_list_request q who page_limit) = None" "bd_jobs (ad_binding a) = Some jobs"
    "jobs (hq_context q) (http_list_request q who page_limit) w = (Inr js, u)"
    "project_jobs a (jl_scope (http_list_request q who page_limit)) js u = (Inr items, v)"
    "answer = write_json 200 (items_json items)"
    by (auto simp: succeeded_def list_succeeded_def http_list_request_def)
  then show ?thesis
    unfolding serve_http_def Handle_list handler.case http_list_jobs_def found(1,2) option.case Let_def
      found(3,4) answering_def and_then_def attempt_def found(5) prod.case sum.case found(6)
    by (simp add: ret_def)
qed (use assms in \<open>auto simp: succeeded_def job_succeeded_def download_succeeded_def serve_http_def
  http_get_job_def http_cancel_job_def http_download_job_def answering_def and_then_def attempt_def
  ret_def time_now_def split: option.split\<close>)

text \<open>
  C28: Every request is answered, whatever the binding, the providers and the transport do, and 200 is
  answered to success and to nothing else: to a lookup, a cancellation or a listing when the binding
  gave the jobs and all of them were projected, with the JSON of the projections (an empty body when it
  cannot be encoded); to a download when the job is a completed export whose artifact was opened, has
  content and has not expired, with the headers of the artifact and its content. Everything else is
  answered with the JSON of one error code under an error status, and an internal error with the one
  code that says nothing about it.
\<close>

theorem every_request_is_answered:
  "\<exists>answer w'. serve_http buffers er k a h q w = (Inr answer, w') \<and>
     (if hr_status answer = 200 then succeeded buffers er k a h q w answer w'
      else reports_error answer \<and> (\<nexists>success v. succeeded buffers er k a h q w success v))"
proof -
  obtain answer w' where run: "serve_http buffers er k a h q w = (Inr answer, w')"
    "proper (succeeded buffers er k a h q w) answer w'"
    using serve_proper [of buffers er k a h q w] by (auto simp: wp_def split: prod.splits sum.splits)
  have "hr_status success = 200" if "succeeded buffers er k a h q w success v" for success v
    using that
    by (cases h) (auto simp: succeeded_def job_succeeded_def list_succeeded_def download_succeeded_def)
  with run success_is_served [of buffers er k a h q w] show ?thesis
    by (fastforce simp: proper_def)
qed

subsection \<open>The grant comes first\<close>

definition handler_action :: "sdk \<Rightarrow> handler \<Rightarrow> bytes" where
  "handler_action k h =
     (case h of
        Handle_list \<Rightarrow> act_list k | Handle_get \<Rightarrow> act_get k | Handle_cancel \<Rightarrow> act_cancel k
      | Handle_download \<Rightarrow> act_download k)"

lemma denied_error:
  "resolve_job_access ctx r key = Inl e \<Longrightarrow>
   \<exists>about. e = Err_app Kind_forbidden ''backend.data_exchange.job_permission_denied'' about"
  by (auto simp: resolve_job_access_def job_permission_denied_def Let_def
      split: option.splits if_splits bool.splits)

lemma denied_status:
  assumes "\<And>kind code about. ae_kind er (Err_app kind code about) = kind"
    "resolve_job_access ctx r key = Inl e"
  shows "hr_status (write_error er e) = 403"
  using denied_error [OF assms(2)] assms(1) by (auto simp: write_error_def Let_def status_of_kind_def)

lemma http_job_request_denied:
  assumes "\<And>kind code about. ae_kind er (Err_app kind code about) = kind"
    "\<And>r. \<exists>e. resolve_job_access (cx_principal (hq_context q)) r permission = Inl e"
  shows "\<exists>answer. http_job_request er k q permission = Inl answer \<and> hr_status answer \<in> {400, 401, 403}"
proof (cases "cx_principal (hq_context q)")
  case None
  then show ?thesis by (simp add: http_job_request_def unauthenticated_def)
next
  case (Some who)
  define r where "r = \<lparr>jq_scope = request_scope q who, jq_job_id = trim_space (hq_job_id q),
    jq_provider = query_value ''provider'' q, jq_operation = query_value ''operation'' q\<rparr>"
  obtain e where e: "resolve_job_access (cx_principal (hq_context q)) r permission = Inl e"
    using assms(2) by blast
  then show ?thesis
    using Some denied_status [OF assms(1) e]
    by (auto simp: http_job_request_def Let_def invalid_job_request_def simp flip: r_def
        split: option.splits)
qed

lemma wp_unchanged:
  "wp m (\<lambda>x w'. w' = w \<and> P x) (\<lambda>_ _. False) w \<Longrightarrow> \<exists>x. m w = (Inr x, w) \<and> P x"
  by (auto simp: wp_def split: prod.splits sum.splits)

lemma list_jobs_denied:
  assumes "\<And>kind code about. ae_kind er (Err_app kind code about) = kind"
    "\<And>r. \<exists>e. resolve_job_access (cx_principal (hq_context q)) r (act_list k) = Inl e"
  shows "wp (http_list_jobs er k \<lparr>ad_binding = service_binding k sv, ad_host = host\<rparr> q)
    (\<lambda>answer w'. w' = w \<and> hr_status answer \<in> {400, 401, 403}) (\<lambda>_ _. False) w"
proof -
  have "wp (answering er (list_jobs k sv (hq_context q) r) f)
      (\<lambda>answer w'. w' = w \<and> hr_status answer \<in> {400, 401, 403}) (\<lambda>_ _. False) w"
    if "sdk_list k r = None" for r f
  proof -
    obtain e where e: "resolve_job_access (cx_principal (hq_context q)) (list_access_request r) (act_list k) = Inl e"
      using assms(2) by blast
    with that denied_status [OF assms(1) e] show ?thesis
      by (simp add: answering_def list_jobs_def op_simps)
  qed
  then show ?thesis
    unfolding http_list_jobs_def Let_def
    by (auto simp: op_simps service_binding_def unauthenticated_def invalid_list_request_def
        split: option.split)
qed

lemma ungranted_refused:
  assumes "\<And>kind code about. ae_kind er (Err_app kind code about) = kind"
    "\<And>r. \<exists>e. resolve_job_access (cx_principal (hq_context q)) r (handler_action k h) = Inl e"
  shows "\<exists>answer. serve_http buffers er k \<lparr>ad_binding = service_binding k sv, ad_host = host\<rparr> h q w =
    (Inr answer, w) \<and> hr_status answer \<in> {400, 401, 403}"
proof (cases h)
  case Handle_list
  with list_jobs_denied [where er = er and q = q and k = k] assms show ?thesis
    by (auto simp: serve_http_def handler_action_def intro!: wp_unchanged)
qed (use http_job_request_denied [where er = er and q = q and k = k, OF assms] in
  \<open>auto simp: serve_http_def handler_action_def http_get_job_def http_cancel_job_def
    http_download_job_def ret_def\<close>)

text \<open>
  C29: Nothing happens for a caller without the grant: when no request of theirs is granted the Action
  of a route of the module, the route answers 400, 401 or 403 and no statement was executed, no
  provider called and no clock read.
\<close>

theorem routes_need_their_grant:
  assumes "\<And>kind code about. ae_kind er (Err_app kind code about) = kind"
    "\<And>r. \<exists>e. resolve_job_access (cx_principal (hq_context q)) r (handler_action k h) = Inl e"
  shows "\<exists>answer. serve_http buffers er k \<lparr>ad_binding = service_binding k sv, ad_host = host\<rparr> h q w =
    (Inr answer, w) \<and> hr_status answer \<in> {400, 401, 403}"
  by (rule ungranted_refused [OF assms])

definition plain_errors :: app_errors where
  "plain_errors =
     \<lparr>ae_kind = (\<lambda>e. case e of Err_app kind _ _ \<Rightarrow> kind | _ \<Rightarrow> Kind_internal),
      ae_code = (\<lambda>e. case e of Err_app _ code _ \<Rightarrow> code | _ \<Rightarrow> [])\<rparr>"

text \<open>A principal without an access bundle.\<close>

definition ungranted :: http_request where
  "ungranted =
     \<lparr>hq_context = \<lparr>cx_principal = Some \<lparr>pr_workspace = ''w'', pr_user = ''a'', pr_role = ''r'',
         pr_bundle = None\<rparr>, cx_workspace = ''w''\<rparr>,
      hq_job_id = ''j'', hq_query = [], hq_request_id = []\<rparr>"

theorem routes_need_their_grant_witness:
  "\<exists>answer. serve_http [] plain_errors sample_sdk
     \<lparr>ad_binding = service_binding sample_sdk
        (module_service (\<lambda>_. None) sample_application no_providers), ad_host = None\<rparr>
     Handle_cancel ungranted (calm leased_db 0) = (Inr answer, calm leased_db 0) \<and>
   hr_status answer \<in> {400, 401, 403}"
  by (rule routes_need_their_grant)
    (simp_all add: plain_errors_def ungranted_def resolve_job_access_def)

subsection \<open>What a caller is shown\<close>

lemma write_error_status [simp]: "hr_status (write_error er e) \<noteq> 200"
  using reports_error_status [OF write_error_reports] .

text \<open>The JSON of a job: the provider's projection if it has one, and the module's own otherwise.\<close>

definition presented :: "host_view option \<Rightarrow> job \<Rightarrow> bytes option \<Rightarrow> bool" where
  "presented host j body \<longleftrightarrow>
     (case job_presenter host j of
        None \<Rightarrow> body = marshal_job (job_response_of j)
      | Some p \<Rightarrow>
        (case ps_project p of
           None \<Rightarrow> body = marshal_job (job_response_of j)
         | Some project \<Rightarrow> \<exists>past scope. project past j scope = Inr body))"

lemma project_job_wp:
  "wp (project_job a j scope) (\<lambda>body w'. w_db w' = w_db w \<and> presented (ad_host a) j body)
     (\<lambda>_ w'. w_db w' = w_db w) w"
  unfolding project_job_def
  by (cases "job_presenter (ad_host a) j")
    (auto simp: presented_def op_simps split: option.split sum.split)

lemma project_jobs_wp:
  "wp (project_jobs a scope js) (\<lambda>bodies _. list_all2 (presented (ad_host a)) js bodies) (\<lambda>_ _. True) w"
proof (induction js arbitrary: w)
  case (Cons j js)
  show ?case
    unfolding project_jobs.simps wp_and_then
    by (rule wp_mono [OF project_job_wp])
      (auto simp: op_simps intro!: wp_mono [OF Cons.IH])
qed (simp add: op_simps)

definition own_answer :: "request_context \<Rightarrow> host_view option \<Rightarrow> bytes \<Rightarrow> http_response \<Rightarrow> bool" where
  "own_answer ctx host jid answer \<longleftrightarrow>
     (\<exists>j body. answer = write_json 200 body \<and> own_job ctx j \<and> j_id j = jid \<and> presented host j body)"

definition own_list :: "request_context \<Rightarrow> host_view option \<Rightarrow> http_response \<Rightarrow> bool" where
  "own_list ctx host answer \<longleftrightarrow>
     (\<exists>js bodies. answer = write_json 200 (items_json bodies) \<and> list_all (own_job ctx) js \<and>
        list_all2 (presented host) js bodies)"

lemma answering_own:
  assumes "wp m P (\<lambda>_ _. True) w"
    "\<And>x v. P x v \<Longrightarrow> wp (f x) (\<lambda>answer _. if hr_status answer = 200 then G answer else True) (\<lambda>_ _. False) v"
  shows "wp (answering er m f) (\<lambda>answer _. if hr_status answer = 200 then G answer else True)
    (\<lambda>_ _. False) w"
  unfolding answering_def wp_and_then wp_attempt
  by (rule wp_mono [OF assms(1)]) (use assms(2) in \<open>auto simp: op_simps\<close>)

lemma http_job_request_id:
  "http_job_request er k q permission = Inr r \<Longrightarrow> jq_job_id r = trim_space (hq_job_id q)"
  by (auto simp: http_job_request_def Let_def split: option.splits sum.splits)

lemma present_own:
  assumes "own_job ctx j \<and> j_id j = jid"
  shows "wp (answering er (project_job a j scope) (\<lambda>projection. ret (write_json 200 projection)))
    (\<lambda>answer _. if hr_status answer = 200 then own_answer ctx (ad_host a) jid answer else True)
    (\<lambda>_ _. False) w"
  by (rule answering_own [OF wp_mono [OF project_job_wp]])
    (use assms in \<open>auto simp: op_simps own_answer_def\<close>)

lemma refused_status: "http_job_request er k q permission = Inl answer \<Longrightarrow> hr_status answer \<noteq> 200"
  using reports_error_status [OF http_job_request_reports] .

text \<open>
  What the handlers rely on in a binding, the module's or a transport's: it answers with jobs of the
  authenticated caller, a single one with the id that was asked for. A binding without \<open>Jobs\<close> lists
  nothing.
\<close>

locale owned_binding =
  fixes b :: job_binding
  assumes job_owned: "wp (bd_job b ctx r)
      (\<lambda>j _. own_job ctx j \<and> j_id j = trim_space (jq_job_id r)) (\<lambda>_ _. True) w"
    and cancel_owned: "wp (bd_cancel b ctx r)
      (\<lambda>j _. own_job ctx j \<and> j_id j = trim_space (jq_job_id r)) (\<lambda>_ _. True) w"
    and jobs_owned: "bd_jobs b = Some jobs \<Longrightarrow>
      wp (jobs ctx jl) (\<lambda>js _. list_all (own_job ctx) js) (\<lambda>_ _. True) w"
begin

lemma presents_own:
  assumes "http_job_request er k q permission = Inr r"
    "wp m (\<lambda>j _. own_job (hq_context q) j \<and> j_id j = trim_space (jq_job_id r)) (\<lambda>_ _. True) w"
  shows "wp (answering er m (\<lambda>j. answering er (project_job \<lparr>ad_binding = b, ad_host = host\<rparr> j scope)
      (\<lambda>projection. ret (write_json 200 projection))))
    (\<lambda>answer _. if hr_status answer = 200
       then own_answer (hq_context q) host (trim_space (hq_job_id q)) answer else True) (\<lambda>_ _. False) w"
  using present_own [of "hq_context q" _ "trim_space (hq_job_id q)" er "\<lparr>ad_binding = b, ad_host = host\<rparr>",
      unfolded adapter.select_convs]
  by (intro answering_own [OF assms(2)]) (simp add: http_job_request_id [OF assms(1)])

lemma get_shows_own:
  "wp (http_get_job er k \<lparr>ad_binding = b, ad_host = host\<rparr> q)
     (\<lambda>answer _. if hr_status answer = 200
        then own_answer (hq_context q) host (trim_space (hq_job_id q)) answer else True) (\<lambda>_ _. False) w"
  by (cases "http_job_request er k q (act_get k)")
    (auto simp: http_get_job_def op_simps refused_status intro: presents_own job_owned)

lemma cancel_shows_own:
  "wp (http_cancel_job er k \<lparr>ad_binding = b, ad_host = host\<rparr> q)
     (\<lambda>answer _. if hr_status answer = 200
        then own_answer (hq_context q) host (trim_space (hq_job_id q)) answer else True) (\<lambda>_ _. False) w"
  by (cases "http_job_request er k q (act_cancel k)")
    (auto simp: http_cancel_job_def op_simps refused_status intro: presents_own cancel_owned)

lemma lists_own:
  assumes "bd_jobs b = Some jobs"
  shows "wp (answering er (jobs (hq_context q) r) (\<lambda>js.
      answering er (project_jobs \<lparr>ad_binding = b, ad_host = host\<rparr> scope js) (\<lambda>items.
      ret (write_json 200 (items_json items)))))
    (\<lambda>answer _. if hr_status answer = 200 then own_list (hq_context q) host answer else True)
    (\<lambda>_ _. False) w"
  by (rule answering_own [OF jobs_owned [OF assms]], rule answering_own [OF project_jobs_wp])
    (auto simp: op_simps own_list_def)

lemma list_shows_own:
  "wp (http_list_jobs er k \<lparr>ad_binding = b, ad_host = host\<rparr> q)
     (\<lambda>answer _. if hr_status answer = 200 then own_list (hq_context q) host answer else True)
     (\<lambda>_ _. False) w"
  by (auto simp: http_list_jobs_def Let_def op_simps lists_own unauthenticated_def
      invalid_list_request_def split: option.split)

end

interpretation module_owned: owned_binding "service_binding k (module_service check a h)"
  for k check a h
  by unfold_locales
    (auto simp: service_binding_def get_job_def list_jobs_own cancel_job_own
      intro: wp_mono [OF job_for_action_own])

definition module_adapter ::
  "sdk \<Rightarrow> (job_request \<Rightarrow> err option) \<Rightarrow> application \<Rightarrow> host \<Rightarrow> host_view option \<Rightarrow> adapter" where
  "module_adapter k check a h host =
     \<lparr>ad_binding = service_binding k (module_service check a h), ad_host = host\<rparr>"

text \<open>
  C30: Over HTTP a caller sees nothing but their own jobs: an answer of 200 to a lookup or a
  cancellation shows the job of the path, which is in the workspace and belongs to the user of the
  authenticated principal, and one to a listing shows only such jobs; they are shown as their
  provider projects them, or as the module does.
\<close>

theorem answers_show_own_jobs:
  "wp (http_get_job er k (module_adapter k check a h host) q)
      (\<lambda>answer _. if hr_status answer = 200
         then own_answer (hq_context q) host (trim_space (hq_job_id q)) answer else True) (\<lambda>_ _. False) w \<and>
    wp (http_cancel_job er k (module_adapter k check a h host) q)
      (\<lambda>answer _. if hr_status answer = 200
         then own_answer (hq_context q) host (trim_space (hq_job_id q)) answer else True) (\<lambda>_ _. False) w \<and>
    wp (http_list_jobs er k (module_adapter k check a h host) q)
      (\<lambda>answer _. if hr_status answer = 200 then own_list (hq_context q) host answer else True)
      (\<lambda>_ _. False) w"
  unfolding module_adapter_def
  by (intro conjI module_owned.get_shows_own module_owned.cancel_shows_own module_owned.list_shows_own)

subsection \<open>What a caller downloads\<close>

lemma trim_export [simp]: "trim_space ''export'' = ''export''"
  by (rule trim_space_plain) simp



















subsection \<open>A download that is granted\<close>



lemma owner_trims [simp]: "trim_space ''w'' = ''w''" "trim_space ''a'' = ''a''" "trim_space ''j'' = ''j''"
  "trim_space ''r'' = ''r''" "trim_space ''download'' = ''download''" "trim_space ''j.download'' = ''j.download''"
  "trim_space ''owner_user_id'' = ''owner_user_id''" "trim_space ''$subject.id'' = ''$subject.id''"
  by (rule trim_space_plain; simp)+


definition granted_request :: job_request where
  "granted_request =
     \<lparr>jq_scope = \<lparr>sc_workspace = ''w'', sc_actor = ''a'', sc_role = ''r'', sc_request = []\<rparr>,
      jq_job_id = ''j'', jq_provider = [], jq_operation = []\<rparr>"


lemma granted_select [simp]:
  "job_select granted_request \<lparr>ac_permission = ''j.download'', ac_workspace = ''w'', ac_owner = ''a''\<rparr> finished_db =
     db_jobs finished_db"
  by (simp add: job_select_def select_where_def row_simps finished_db_def empty_db_def job_candidate_def
      granted_request_def default_job_row_def)

lemma granted_rows [simp]:
  "artifact_rows (granted_request\<lparr>jq_operation := ''export''\<rparr>)
     \<lparr>ac_permission = ''j.download'', ac_workspace = ''w'', ac_owner = ''a''\<rparr> finished_db =
     [finished_artifact]"
  by (simp add: artifact_rows_def finished_artifact_def job_candidate_def finished_db_def empty_db_def
      default_job_row_def granted_request_def)

lemma granted_access [simp]:
  "normalized \<lparr>ac_permission = ''j.download'', ac_workspace = ''w'', ac_owner = ''a''\<rparr> =
     \<lparr>ac_permission = ''j.download'', ac_workspace = ''w'', ac_owner = ''a''\<rparr>"
  "job_access_matches_scope granted_request \<lparr>ac_permission = ''j.download'', ac_workspace = ''w'', ac_owner = ''a''\<rparr>"
  "job_access_matches_scope (granted_request\<lparr>jq_operation := ''export''\<rparr>)
     \<lparr>ac_permission = ''j.download'', ac_workspace = ''w'', ac_owner = ''a''\<rparr>"
  by (simp_all add: normalized_def job_access_matches_scope_def granted_request_def)







subsection \<open>Downloads\<close>



end
