(* ===== verification/AssemblyCorrect.thy ===== *)
theory AssemblyCorrect
  imports HttpCorrect "HOL-Library.Multiset"
begin

text \<open>
  The assemblies: every Action of the manifest is served by its own handler and nothing else is, the
  Permission that the capability disclosure names for a route is enforced by its handler, and the two deployments open
  in the order that keeps them safe to use.
\<close>

subsection \<open>Registration\<close>

lemma mset_remove_key:
  assumes "distinct (map fst xs)" "map_of xs key = Some v"
  shows "mset xs = add_mset (key, v) (mset (filter (\<lambda>(a, _). a \<noteq> key) xs))"
  using assms
proof (induction xs)
  case (Cons x xs)
  obtain a b where x: "x = (a, b)" by (cases x)
  show ?case
  proof (cases "a = key")
    case True
    with Cons.prems x have "filter (\<lambda>(a, _). a \<noteq> key) xs = xs"
      by (force simp: filter_id_conv)
    with True Cons.prems x show ?thesis by simp
  qed (use Cons x in simp)
qed simp

lemma mset_remove_value:
  "distinct xs \<Longrightarrow> x \<in> set xs \<Longrightarrow> mset xs = add_mset x (mset (filter (\<lambda>y. y \<noteq> x) xs))"
proof (induction xs)
  case (Cons a xs)
  show ?case
  proof (cases "a = x")
    case True
    with Cons.prems have "filter (\<lambda>y. y \<noteq> x) xs = xs" by (auto simp: filter_id_conv)
    with True show ?thesis by simp
  qed (use Cons in simp)
qed simp

definition route_key :: "route \<Rightarrow> bytes" where
  "route_key r = trim_space (an_key (rt_action r))"

lemma register_uses_up:
  assumes "register rs mux handlers operations = Inr (mux', handlers', operations')"
    "distinct (map fst handlers)" "distinct operations"
  shows "\<exists>new. mux' = mux @ new \<and> map fst new = map rt_pattern rs \<and>
    mset operations = mset (map fst new) + mset operations' \<and>
    mset handlers = mset (zip (map route_key rs) (map snd new)) + mset handlers'"
  using assms
proof (induction rs arbitrary: mux handlers operations)
  case (Cons r rs)
  let ?hs = "filter (\<lambda>(a, _). a \<noteq> route_key r) handlers"
  let ?ops = "filter (\<lambda>p. p \<noteq> rt_pattern r) operations"
  obtain h where h: "map_of handlers (route_key r) = Some h" "rt_pattern r \<in> set operations"
      "register rs (mux @ [(rt_pattern r, h)]) ?hs ?ops = Inr (mux', handlers', operations')"
    using Cons.prems(1) by (auto simp: route_key_def Let_def split: option.splits if_splits)
  have "distinct (map fst ?hs)" "distinct ?ops"
    using Cons.prems(2,3) by (simp_all add: distinct_map_filter)
  from Cons.IH [OF h(3) this] obtain new where new: "mux' = (mux @ [(rt_pattern r, h)]) @ new"
      "map fst new = map rt_pattern rs" "mset ?ops = mset (map fst new) + mset operations'"
      "mset ?hs = mset (zip (map route_key rs) (map snd new)) + mset handlers'" by blast
  note used = mset_remove_key [OF Cons.prems(2) h(1), unfolded new(4)]
    mset_remove_value [OF Cons.prems(3) h(2), unfolded new(3)]
  show ?case
    by (rule exI [of _ "(rt_pattern r, h) # new"]) (simp add: new(1,2) used)
qed simp

lemma adapter_mux:
  assumes "new_adapter k mf (Some b) host = Inr (ad, routes, mux)"
    "distinct [act_list k, act_get k, act_cancel k, act_download k]" "distinct (mf_operations mf)"
  shows "ad = \<lparr>ad_binding = b, ad_host = host\<rparr>" "data_exchange_routes mf = Inr routes"
    "map fst mux = map rt_pattern routes" "mset (mf_operations mf) = mset (map fst mux)"
    "mset (handlers_of k) = mset (zip (map route_key routes) (map snd mux))"
proof -
  have made: "ad = \<lparr>ad_binding = b, ad_host = host\<rparr>" "data_exchange_routes mf = Inr routes"
    "register routes [] (handlers_of k) (mf_operations mf) = Inr (mux, [], [])"
    using assms(1) by (auto simp: new_adapter_def split: sum.splits if_splits)
  then show "ad = \<lparr>ad_binding = b, ad_host = host\<rparr>" "data_exchange_routes mf = Inr routes" by simp_all
  have "distinct (map fst (handlers_of k))" using assms(2) by (simp add: handlers_of_def)
  from register_uses_up [OF made(3) this assms(3)] obtain new where "mux = new"
      "map fst new = map rt_pattern routes" "mset (mf_operations mf) = mset (map fst new)"
      "mset (handlers_of k) = mset (zip (map route_key routes) (map snd new))"
    by (metis append_Nil mset.simps(1) add_0_right)
  then show "map fst mux = map rt_pattern routes" "mset (mf_operations mf) = mset (map fst mux)"
    "mset (handlers_of k) = mset (zip (map route_key routes) (map snd mux))"
    by (simp_all only:)
qed

lemma handlers_of_action: "(key, h) \<in> set (handlers_of k) \<Longrightarrow> key = handler_action k h"
  by (auto simp: handlers_of_def handler_action_def)

lemma mux_handler:
  assumes "mset (handlers_of k) = mset (zip (map route_key routes) (map snd mux))"
    "length mux = length routes" "i < length routes"
  shows "route_key (routes ! i) = handler_action k (snd (mux ! i))"
proof (rule handlers_of_action)
  have "(route_key (routes ! i), snd (mux ! i)) \<in> set (zip (map route_key routes) (map snd mux))"
    using assms(2,3) by (auto simp: in_set_zip intro!: exI [of _ i])
  then show "(route_key (routes ! i), snd (mux ! i)) \<in> set (handlers_of k)"
    using mset_eq_setD [OF assms(1)] by simp
qed

text \<open>
  C36: An adapter that is built serves exactly the SDK's contract: its mux has one entry for every OpenAPI
  operation and no other, each of the four handlers is registered once, and the pattern of a route
  leads to the handler of the route's own Action.
\<close>

theorem adapter_serves_the_contract:
  assumes "new_adapter k mf (Some b) host = Inr (ad, routes, mux)"
    "distinct [act_list k, act_get k, act_cancel k, act_download k]" "distinct (mf_operations mf)"
  shows "distinct (map fst mux) \<and> set (map fst mux) = set (mf_operations mf) \<and>
    mset (map snd mux) = {#Handle_list, Handle_get, Handle_cancel, Handle_download#} \<and>
    list_all2 (\<lambda>r (pattern, h). rt_pattern r = pattern \<and> route_key r = handler_action k h) routes mux"
proof (intro conjI)
  note made = adapter_mux [OF assms]
  have len: "length mux = length routes" using arg_cong [OF made(3), of length] by simp
  show "distinct (map fst mux)"
    using made(4) assms(3) by (metis mset_eq_imp_distinct_iff)
  show "set (map fst mux) = set (mf_operations mf)"
    using made(4) by (metis mset_eq_setD)
  have "mset (map snd (handlers_of k)) = mset (map snd (zip (map route_key routes) (map snd mux)))"
    using made(5) by (metis mset_map)
  then show "mset (map snd mux) = {#Handle_list, Handle_get, Handle_cancel, Handle_download#}"
    by (simp add: len handlers_of_def)
  show "list_all2 (\<lambda>r (pattern, h). rt_pattern r = pattern \<and> route_key r = handler_action k h) routes mux"
  proof (rule list_all2_all_nthI)
    fix i assume i: "i < length routes"
    then have "fst (mux ! i) = rt_pattern (routes ! i)"
      using arg_cong [OF made(3), of "\<lambda>xs. xs ! i"] len by simp
    with mux_handler [OF made(5) len i]
    show "case mux ! i of (pattern, h) \<Rightarrow>
        rt_pattern (routes ! i) = pattern \<and> route_key (routes ! i) = handler_action k h"
      by (simp add: case_prod_beta)
  qed (simp add: len)
qed

text \<open>A manifest of the four Actions, each with the pattern of its key.\<close>

definition sample_action :: "bytes \<Rightarrow> action_definition" where
  "sample_action key =
     \<lparr>an_key = key, an_owner = ''o'', an_label = [], an_operation_label = [], an_capability_label = [],
      an_permission = None\<rparr>"

definition sample_manifest :: manifest where
  "sample_manifest =
     \<lparr>mf_normalize = Inr, mf_route = (\<lambda>a. Inr \<lparr>rt_action = a, rt_pattern = an_key a\<rparr>),
      mf_actions = map sample_action [''j.get'', ''j.list'', ''j.download'', ''j.cancel''],
      mf_operations = [''j.list'', ''j.get'', ''j.cancel'', ''j.download'']\<rparr>"

lemma trim_sample_actions:
  "trim_space ''j.get'' = ''j.get''" "trim_space ''j.list'' = ''j.list''"
  "trim_space ''j.cancel'' = ''j.cancel''" "trim_space ''j.download'' = ''j.download''"
  by (rule trim_space_plain; simp)+

lemma sample_separators:
  "last_index_byte ''j.get'' (CHR ''.'') = 1" "last_index_byte ''j.list'' (CHR ''.'') = 1"
  "last_index_byte ''j.cancel'' (CHR ''.'') = 1" "last_index_byte ''j.download'' (CHR ''.'') = 1"
  by code_simp+

definition sample_route :: "bytes \<Rightarrow> route" where
  "sample_route key =
     \<lparr>rt_action = (sample_action key)\<lparr>an_permission := Some
        \<lparr>pm_key = key, pm_owner = ''o'', pm_resource = ''j'', pm_operation = drop 2 key, pm_label = [],
         pm_description = [], pm_category = [], pm_lifecycle = Lifecycle_active\<rparr>\<rparr>,
      rt_pattern = key\<rparr>"

lemma sample_route_simps [simp]: "rt_pattern (sample_route key) = key" "route_key (sample_route key) = trim_space key"
  "an_key (rt_action (sample_route key)) = key"
  by (simp_all add: sample_route_def sample_action_def route_key_def)

lemma sample_routes:
  "data_exchange_routes sample_manifest =
   Inr (map sample_route [''j.get'', ''j.list'', ''j.download'', ''j.cancel''])"
  by (simp add: data_exchange_routes_def sample_manifest_def exact_permission_action_def sample_action_def
      trim_sample_actions sample_separators Let_def sample_route_def numeral_2_eq_2)

lemma sample_adapter:
  "new_adapter sample_sdk sample_manifest (Some b) host =
   Inr (\<lparr>ad_binding = b, ad_host = host\<rparr>, map sample_route [''j.get'', ''j.list'', ''j.download'', ''j.cancel''],
     [(''j.get'', Handle_get), (''j.list'', Handle_list), (''j.download'', Handle_download),
      (''j.cancel'', Handle_cancel)])"
  unfolding new_adapter_def option.case sample_routes sum.case
  by (simp add: sample_manifest_def handlers_of_def sample_sdk_def trim_sample_actions)

lemma sample_contract:
  "distinct [act_list sample_sdk, act_get sample_sdk, act_cancel sample_sdk, act_download sample_sdk]"
  "distinct (mf_operations sample_manifest)"
  by (simp_all add: sample_sdk_def sample_manifest_def)

theorem adapter_serves_the_contract_witness:
  "mset (map snd [(''j.get'', Handle_get), (''j.list'', Handle_list), (''j.download'', Handle_download),
     (''j.cancel'', Handle_cancel)]) = {#Handle_list, Handle_get, Handle_cancel, Handle_download#}"
  using adapter_serves_the_contract [OF sample_adapter sample_contract] by blast

text \<open>No handler of the code is left without a route.\<close>

lemma every_handler_is_served:
  assumes "mset (map snd mux) = {#Handle_list, Handle_get, Handle_cancel, Handle_download#}"
  shows "set (map snd mux) = set Enum.enum"
  using arg_cong [OF assms, of set_mset] by (auto simp: enum_handler_def)

subsection \<open>Disclosure\<close>

text \<open>
  The module gives the foundation only Actions with a Permission of their own key; that the routes it
  gets back are of that kind is what the module's own test of \<open>Routes\<close> asks (\<open>adapter_test.go\<close>).
\<close>

lemma exact_permission:
  assumes "exact_permission_action mf a = Inr a'"
  obtains p where "mf_normalize mf (a\<lparr>an_permission := Some p\<rparr>) = Inr a'" "pm_key p = an_key a"
  using assms by (auto simp: exact_permission_action_def Let_def split: if_splits option.splits)

definition same_key_permission :: "route \<Rightarrow> bool" where
  "same_key_permission r \<longleftrightarrow>
     (case an_permission (rt_action r) of None \<Rightarrow> False | Some p \<Rightarrow> pm_key p = an_key (rt_action r))"

text \<open>No route is without a Permission, so opening the capability contract never dereferences nil.\<close>

lemma overrides_total:
  "(\<And>r. r \<in> set rs \<Longrightarrow> \<exists>p. an_permission (rt_action r) = Some p) \<Longrightarrow>
   \<exists>m. capability_overrides k disclose rs m0 = Some m"
proof (induction rs arbitrary: m0)
  case (Cons r rs)
  then obtain p where "an_permission (rt_action r) = Some p" by auto
  then show ?case using Cons by (simp add: operation_extension_of_def Let_def)
qed simp

lemma contract_opens:
  assumes "\<And>routes. data_exchange_routes mf = Inr routes \<Longrightarrow> list_all same_key_permission routes"
  shows "open_contract k mf fd \<noteq> None"
proof (cases "data_exchange_routes mf")
  case (Inr routes)
  obtain m where "capability_overrides k (fd_disclose fd) routes Map.empty = Some m"
    using overrides_total [of routes k] assms [OF Inr]
    by (fastforce simp: list_all_iff same_key_permission_def split: option.splits)
  with Inr show ?thesis by (simp add: open_contract_def)
qed (simp add: open_contract_def)








subsection \<open>Opening\<close>

definition saas_trace :: "bytes \<Rightarrow> event list" where
  "saas_trace sha = [Verify_capability sha, Ask_descriptor, Connect_transport]"

text \<open>
  What the transport \<open>t\<close> answered when it was found fit to be connected: its capability is the pinned
  one, and it describes itself by \<open>d\<close>, a valid descriptor of a SaaS.
\<close>

definition saas_verified ::
  "(descriptor \<Rightarrow> err option) \<Rightarrow> transport \<Rightarrow> bytes \<Rightarrow> event list \<Rightarrow> descriptor \<Rightarrow> bool" where
  "saas_verified check_descriptor t sha past d \<longleftrightarrow>
     tr_verify t past sha = Inr () \<and> tr_descriptor t (past @ take 1 (saas_trace sha)) = Inr d \<and>
     check_descriptor d = None \<and> ds_mode d = Mode_saas"

text \<open>
  How an opening of the client can have failed: nothing was asked of the transport; its capability was
  refused, and then nothing else is asked; its descriptor was not given or refused; it was fit but its
  connection failed; or it was connected and closed again.
\<close>

definition saas_failure ::
  "(descriptor \<Rightarrow> err option) \<Rightarrow> transport \<Rightarrow> bytes \<Rightarrow> event list \<Rightarrow> event list \<Rightarrow> bool" where
  "saas_failure check_descriptor t sha past calls \<longleftrightarrow>
     ((\<exists>e. tr_verify t past sha = Inl e) \<and> calls = take 1 (saas_trace sha)) \<or>
     (tr_verify t past sha = Inr () \<and> (\<nexists>d. saas_verified check_descriptor t sha past d) \<and>
        calls = take 2 (saas_trace sha)) \<or>
     (\<exists>d. saas_verified check_descriptor t sha past d \<and>
        (if tr_connect t (past @ take 2 (saas_trace sha)) = Inr ()
         then calls = saas_trace sha @ [Close_transport] else calls = saas_trace sha))"

text \<open>The SaaS binding has no listing: the list route that its adapter serves never answers with jobs.\<close>

lemma saas_lists_nothing:
  "wp (http_list_jobs er k \<lparr>ad_binding = saas_job_binding b, ad_host = host\<rparr> q)
     (\<lambda>answer w'. w' = w \<and> answer \<in> {unauthenticated, invalid_list_request,
        write_error er (Err_app Kind_unavailable ''backend.data_exchange.job_list_unavailable'' [])})
     (\<lambda>_ _. False) w"
  by (auto simp: http_list_jobs_def Let_def saas_job_binding_def op_simps split: option.split)

text \<open>
  C38: A SaaS client connects only what it has verified: an opened client has asked its transport for
  exactly three things, the verification against the pinned contract of this source, which succeeded,
  its descriptor, which is valid, of mode SaaS and the client's own, and the connection, which
  succeeded. A transport whose verification fails is asked nothing else and one whose descriptor is
  refused is never connected; in both cases the opening fails. And when it fails behind the
  connection, the transport has been closed again.
\<close>

theorem saas_connects_only_what_it_verified:
  "wp (open_saas k mf check check_descriptor local app transport host)
     (\<lambda>b w'. \<exists>t sha. transport = Some t \<and> local = Inr (Inr sha) \<and> check app = None \<and>
        saas_verified check_descriptor t sha (w_trace w) (sb_descriptor b) \<and>
        tr_connect t (w_trace w @ take 2 (saas_trace sha)) = Inr () \<and>
        w_trace w' = w_trace w @ saas_trace sha \<and>
        sb_application b = app \<and> sb_transport b = t \<and> length (sb_adapters b) = 1)
     (\<lambda>_ w'. w' = w \<or>
        (\<exists>t sha calls. transport = Some t \<and> local = Inr (Inr sha) \<and> w_trace w' = w_trace w @ calls \<and>
           saas_failure check_descriptor t sha (w_trace w) calls))
     w"
proof (cases "\<exists>t view sha. transport = Some t \<and> host = Some view \<and> local = Inr (Inr sha)")
  case False
  then show ?thesis
    by (auto simp: open_saas_def op_simps split: option.split sum.split)
next
  case True
  then obtain t view sha where given: "transport = Some t" "host = Some view" "local = Inr (Inr sha)"
    by blast
  show ?thesis
    unfolding open_saas_def given
    by (auto simp: op_simps saas_failure_def saas_verified_def saas_trace_def numeral_2_eq_2 Let_def
        split: option.split sum.split)
qed

end
