(* ===== verification/JobJson.thy ===== *)
theory JobJson
  imports Http SubjectErasure
begin

text \<open>
  The JSON of a job that the HTTP adapter answers with, read back by a client as the same
  \<open>jobResponse\<close>: nothing of it is lost or mixed up by the encoding.
\<close>

lemma escape_plain: "(\<forall>c \<in> set s. byte c < 128 \<and> escape_ascii c = [c]) \<Longrightarrow> escape s = s"
  by (induction s) (auto simp: Let_def simp del: utf8_len.simps)

lemma digit_plain:
  assumes "is_digit c"
  shows "byte c < 128 \<and> escape_ascii c = [c]"
proof -
  have "48 \<le> byte c" "byte c \<le> 57" using assms by (auto simp: is_digit_def byte_def digit_value_def Let_def split: if_splits)
  then have "c \<noteq> d" if "\<not> (48 \<le> byte d \<and> byte d \<le> 57)" for d using that by blast
  with \<open>48 \<le> byte c\<close> \<open>byte c \<le> 57\<close> show ?thesis by (simp add: escape_ascii_def byte_def)
qed

lemma plain_punctuation:
  "byte c < 128 \<and> escape_ascii c = [c]" if "c \<in> {CHR ''-'', CHR '':'', CHR ''T'', CHR ''.'', CHR ''Z''}"
  using that by (auto simp: escape_ascii_def byte_def)

lemma format_nano_plain:
  assumes "four_digit t" "c \<in> set (format_nano t)"
  shows "byte c < 128 \<and> escape_ascii c = [c]"
proof -
  have "c \<in> set (drop_trailing_zeros s) \<Longrightarrow> c \<in> set s" for c s
    using set_dropWhileD by (fastforce simp: drop_trailing_zeros_def)
  note zeros = pad_decimal_is_digit [OF this]
  then have "is_digit c \<or> c \<in> {CHR ''-'', CHR '':'', CHR ''T'', CHR ''.'', CHR ''Z''}"
    using assms
    by (auto simp: format_nano_def format_seconds_def format_date_def format_year_def format_clock_def
        format_fraction_def four_digit_def pad_decimal_is_digit dest: zeros split: if_splits)
  then show ?thesis using digit_plain plain_punctuation by blast
qed

lemma time_json_string:
  assumes "four_digit t"
  shows "time_json t = Some (json_string (format_nano t))" "valid_utf8 (format_nano t)"
  using escape_plain [of "format_nano t"] ascii_valid [of "format_nano t"] format_nano_plain [OF assms] assms
  by (auto simp: time_json_def json_string_def)

subsection \<open>The client's struct\<close>

definition set_time :: "(instant \<Rightarrow> 'r \<Rightarrow> 'r) \<Rightarrow> 'r setter" where
  "set_time put v r =
     (case read_string v of
        None \<Rightarrow> None
      | Some (s, rest) \<Rightarrow> map_option (\<lambda>t. put t r) (parse_nano s))"

definition zero_job_response :: job_response where
  "zero_job_response =
     \<lparr>jo_id = [], jo_provider = [], jo_operation = [], jo_status = [], jo_object_key = [],
      jo_checkpoint = 0, jo_total = 0, jo_artifact_id = [], jo_error_code = [], jo_reference = [],
      jo_created_at = zero_time, jo_updated_at = zero_time\<rparr>"

definition job_response_fields :: "(bytes \<times> job_response setter) list" where
  "job_response_fields =
     [(''id'', set_string (\<lambda>v r. r\<lparr>jo_id := v\<rparr>)),
      (''provider'', set_string (\<lambda>v r. r\<lparr>jo_provider := v\<rparr>)),
      (''operation'', set_string (\<lambda>v r. r\<lparr>jo_operation := v\<rparr>)),
      (''status'', set_string (\<lambda>v r. r\<lparr>jo_status := v\<rparr>)),
      (''object_key'', set_string (\<lambda>v r. r\<lparr>jo_object_key := v\<rparr>)),
      (''checkpoint'', set_int (\<lambda>v r. r\<lparr>jo_checkpoint := v\<rparr>)),
      (''total'', set_int (\<lambda>v r. r\<lparr>jo_total := v\<rparr>)),
      (''artifact_id'', set_string (\<lambda>v r. r\<lparr>jo_artifact_id := v\<rparr>)),
      (''error_code'', set_string (\<lambda>v r. r\<lparr>jo_error_code := v\<rparr>)),
      (''reference_id'', set_string (\<lambda>v r. r\<lparr>jo_reference := v\<rparr>)),
      (''created_at'', set_time (\<lambda>v r. r\<lparr>jo_created_at := v\<rparr>)),
      (''updated_at'', set_time (\<lambda>v r. r\<lparr>jo_updated_at := v\<rparr>))]"

definition unmarshal_job :: "bytes \<Rightarrow> job_response option" where
  "unmarshal_job = unmarshal (set_struct job_response_fields) zero_job_response"

lemma set_time_written:
  assumes "four_digit t"
  shows "set_time put (json_string (format_nano t)) r = Some (put t r)"
  using read_json_string [OF time_json_string(2) [OF assms], of "[]"] parse_format_nano [OF assms]
  by (simp add: set_time_def)

text \<open>Texts in UTF-8, counts that an \<open>int\<close> holds, times of the years 0 to 9999.\<close>

definition response_valid :: "job_response \<Rightarrow> bool" where
  "response_valid r \<longleftrightarrow>
     list_all valid_utf8 [jo_id r, jo_provider r, jo_operation r, jo_status r, jo_object_key r,
       jo_artifact_id r, jo_error_code r, jo_reference r] \<and>
     int64 (jo_checkpoint r) \<and> int64 (jo_total r) \<and>
     four_digit (jo_created_at r) \<and> four_digit (jo_updated_at r)"

lemma set_fields_append:
  "set_fields setters (ms @ ns) r =
     (case set_fields setters ms r of None \<Rightarrow> None | Some r' \<Rightarrow> set_fields setters ns r')"
  by (induction ms arbitrary: r) (auto split: option.splits)

lemma set_fields_unless_empty:
  assumes "field_setter setters name = Some (set_string put)" "valid_utf8 s"
  shows "set_fields setters (unless_empty name s) r = Some (if s = [] then r else put s r)"
  using assms by (simp add: unless_empty_def set_string_written)

definition job_members :: "job_response \<Rightarrow> (bytes \<times> bytes) list" where
  "job_members r =
     [(''id'', json_string (jo_id r)), (''provider'', json_string (jo_provider r)),
      (''operation'', json_string (jo_operation r)), (''status'', json_string (jo_status r)),
      (''object_key'', json_string (jo_object_key r)),
      (''checkpoint'', int_decimal (jo_checkpoint r)), (''total'', int_decimal (jo_total r))] @
     unless_empty ''artifact_id'' (jo_artifact_id r) @
     unless_empty ''error_code'' (jo_error_code r) @
     unless_empty ''reference_id'' (jo_reference r) @
     [(''created_at'', json_string (format_nano (jo_created_at r))),
      (''updated_at'', json_string (format_nano (jo_updated_at r)))]"

lemma marshal_job_members:
  "response_valid r \<Longrightarrow> marshal_job r = Some (json_object (job_members r))"
  by (simp add: marshal_job_def job_members_def response_valid_def time_json_string(1))

lemma job_members_ok:
  assumes "response_valid r"
  shows "\<forall>kv \<in> set (job_members r). member_ok kv"
  using assms time_json_string(2)
  by (auto simp: job_members_def response_valid_def unless_empty_def member_ok_def json_text_string
      json_text_int byte_def simp del: valid_utf8.simps)

lemma job_response_setters:
  "field_setter job_response_fields ''artifact_id'' = Some (set_string (\<lambda>v r. r\<lparr>jo_artifact_id := v\<rparr>))"
  "field_setter job_response_fields ''error_code'' = Some (set_string (\<lambda>v r. r\<lparr>jo_error_code := v\<rparr>))"
  "field_setter job_response_fields ''reference_id'' = Some (set_string (\<lambda>v r. r\<lparr>jo_reference := v\<rparr>))"
  by (simp_all add: field_setter_def job_response_fields_def)

lemma set_job_members:
  assumes "response_valid r"
  shows "set_fields job_response_fields (job_members r) zero_job_response = Some r"
proof -
  have "set_fields job_response_fields
      [(''id'', json_string (jo_id r)), (''provider'', json_string (jo_provider r)),
       (''operation'', json_string (jo_operation r)), (''status'', json_string (jo_status r)),
       (''object_key'', json_string (jo_object_key r)),
       (''checkpoint'', int_decimal (jo_checkpoint r)), (''total'', int_decimal (jo_total r))]
      zero_job_response =
    Some (r\<lparr>jo_artifact_id := [], jo_error_code := [], jo_reference := [],
      jo_created_at := zero_time, jo_updated_at := zero_time\<rparr>)"
    using assms
    by (simp add: response_valid_def job_response_fields_def field_setter_def set_string_written
        set_int_written zero_job_response_def)
  moreover have "set_fields job_response_fields
      [(''created_at'', json_string (format_nano (jo_created_at r))),
       (''updated_at'', json_string (format_nano (jo_updated_at r)))] q =
    Some (q\<lparr>jo_created_at := jo_created_at r, jo_updated_at := jo_updated_at r\<rparr>)" for q
    using assms
    by (simp add: response_valid_def job_response_fields_def field_setter_def set_time_written)
  ultimately show ?thesis
    using assms unfolding job_members_def set_fields_append
    by (simp add: set_fields_unless_empty [OF job_response_setters(1)]
        set_fields_unless_empty [OF job_response_setters(2)]
        set_fields_unless_empty [OF job_response_setters(3)] response_valid_def)
qed

text \<open>
  C34: The JSON of a job is read back by a client as exactly the job that was shown: with UTF-8 texts,
  counts that fit an \<open>int\<close> and times of the years 0 to 9999 it can be encoded, and decoding it into
  the same struct gives every field back, the omitted empty ones included.
\<close>

theorem job_answer_round_trip:
  assumes "response_valid r"
  shows "\<exists>text. marshal_job r = Some text \<and> unmarshal_job text = Some r"
proof -
  note ok = job_members_ok [OF assms]
  have "document (json_object (job_members r)) = Some (json_object (job_members r))"
    by (rule document_written [OF json_text_object [OF ok]])
  then show ?thesis
    by (simp add: marshal_job_members [OF assms] unmarshal_job_def unmarshal_def set_struct_def
        object_members_written [OF ok] set_job_members [OF assms])
qed

definition sample_response :: job_response where
  "sample_response =
     zero_job_response\<lparr>jo_id := ''j'', jo_status := ''queued'', jo_error_code := ''e'',
       jo_total := - 3, jo_created_at := 5000000000, jo_updated_at := 2000000000\<rparr>"

theorem job_answer_round_trip_witness:
  "\<exists>text. marshal_job sample_response = Some text \<and> unmarshal_job text = Some sample_response"
proof (rule job_answer_round_trip)
  have "four_digit 5000000000" "four_digit 2000000000" by code_simp+
  then show "response_valid sample_response"
    by (simp add: response_valid_def sample_response_def zero_job_response_def int64_def byte_def
        del: valid_utf8.simps)
qed

end
