(* ===== verification/SubmissionCorrect.thy ===== *)
theory SubmissionCorrect
  imports DownloadCorrect
begin

text \<open>
  What a submission does: one job per request key, whose immutable fingerprint a repeated submission
  is compared with; a replay changes nothing.
\<close>

text \<open>
  The answer to a submission under an id and a fingerprint: a replay of the row of the same request,
  or a new queued row behind all others.
\<close>

definition submitted ::
  "bytes \<Rightarrow> (job_row \<Rightarrow> bool) \<Rightarrow> bytes \<Rightarrow> db \<Rightarrow> job \<times> bool \<Rightarrow> db \<Rightarrow> bool" where
  "submitted jid same hash d answer d' \<longleftrightarrow>
     (if snd answer
      then d' = d \<and> (\<exists>row \<in> set (db_jobs d). same row \<and> jr_request_sha row = hash \<and>
             fst answer = scan_job row)
      else jid \<notin> jr_id ` set (db_jobs d) \<and>
           (\<exists>row. db_jobs d' = db_jobs d @ [row] \<and> jr_id row = jid \<and> same row \<and>
             jr_request_sha row = hash \<and> jr_status row = ''queued'' \<and> j_id (fst answer) = jid))"

lemma jobs_kept:
  "keeps (\<lambda>d. db_jobs d = js) (check_subject_submission scope)"
  "keeps (\<lambda>d. db_jobs d = js) (register_scope workspace)"
  "keeps (\<lambda>d. db_jobs d = js) (store_source limit workspace staging n c h reads)"
proof -
  have other: "keeps (\<lambda>d. db_jobs d = js) (statement (upsert_into fences_table r f))"
    "keeps (\<lambda>d. db_jobs d = js) (statement (upsert_into scopes_table s g))"
    "keeps (\<lambda>d. db_jobs d = js) (statement (insert_into chunks_table c))" for r f s g c
    by (auto simp: keeps_iff_wp op_simps upsert_into_def insert_into_def row_simps)
  show "keeps (\<lambda>d. db_jobs d = js) (check_subject_submission scope)"
    unfolding check_subject_submission_def lock_subject_scope_def by (intro keeps_rules other)
  show "keeps (\<lambda>d. db_jobs d = js) (register_scope workspace)"
    unfolding register_scope_def by (intro keeps_rules other)
  show "keeps (\<lambda>d. db_jobs d = js) (store_source limit workspace staging n c h reads)"
    by (induction reads arbitrary: n c h)
      (auto simp: Let_def intro!: keeps_rules other split: prod.split read_status.split)
qed

lemma one_job_per_id:
  "good_db d \<Longrightarrow> r \<in> set (db_jobs d) \<Longrightarrow> r' \<in> set (db_jobs d) \<Longrightarrow> jr_id r = jr_id r' \<Longrightarrow> r = r'"
  using good_jobs_keyed [of d] by (auto simp: distinct_map inj_on_def)

lemma first_selected:
  "first_row (select_where jobs_table p d) = Inr row \<Longrightarrow> row \<in> set (db_jobs d) \<and> p row"
  by (auto simp: first_row_def select_where_def row_simps split: list.splits dest: filter_eq_ConsD)

lemma scan_job_id [simp]: "j_id (scan_job r) = jr_id r"
  by (simp add: scan_job_def)

text \<open>The lookup of a replay, in a database where ids are unique.\<close>

lemma replay_wp:
  assumes "good_db (w_db w)"
    "\<And>row. row \<in> set (db_jobs (w_db w)) \<Longrightarrow> same_request_key scope provider operation object_key key row \<Longrightarrow>
      jr_request_sha row = hash \<Longrightarrow> Q (scan_job row)"
    "\<And>job. decide job (Inr hash) = ret (job, True)"
    "\<And>job h. h \<noteq> Inr hash \<Longrightarrow> \<exists>e. decide job h = throw e"
  shows "wp (and_then (lookup_idempotent scope provider operation object_key key) (\<lambda>existing.
       case existing of
         None \<Rightarrow> throw e
       | Some job \<Rightarrow> and_then (attempt (request_hash (j_id job))) (decide job)))
    (\<lambda>answer w'. w_db w' = w_db w \<and> snd answer \<and> Q (fst answer)) (\<lambda>_ _. True) w"
proof (cases "first_row (select_where jobs_table (same_request_key scope provider operation object_key key) (w_db w))")
  case (Inl e)
  then show ?thesis by (simp add: lookup_idempotent_def op_simps del: first_row_none)
next
  case (Inr row)
  note row = first_selected [OF Inr]
  have decided: "wp (decide (scan_job row) h)
      (\<lambda>answer w'. w_db w' = w_db w \<and> snd answer \<and> Q (fst answer)) (\<lambda>_ _. True) v"
    if "w_db v = w_db w" "h = Inr hash \<Longrightarrow> jr_request_sha row = hash" for h v
  proof (cases "h = Inr hash")
    case True
    then show ?thesis using that assms(2) [of row] row by (simp add: assms(3) op_simps)
  next
    case False
    then obtain e where "decide (scan_job row) h = throw e" using assms(4) by blast
    then show ?thesis by (simp add: op_simps)
  qed
  have same: "jr_request_sha row' = jr_request_sha row"
    if "first_row (select_where jobs_table (\<lambda>r. jr_id r = jr_id row) (w_db w)) = Inr row'" for row'
    using first_selected [OF that] one_job_per_id [OF assms(1)] row by metis
  show ?thesis
    by (auto simp: lookup_idempotent_def request_hash_def op_simps Inr intro!: decided dest: same
        split: sum.split)
qed

lemma fingerprint_nonempty: "fingerprint parts \<noteq> []" "[] \<noteq> fingerprint parts"
proof -
  have "length (fingerprint parts) = 64" by (simp add: fingerprint_def hash_sum_def)
  then show "fingerprint parts \<noteq> []" "[] \<noteq> fingerprint parts" by auto
qed

lemma with_tx_wp:
  assumes "\<And>v. w_db v = w_db w \<Longrightarrow> wp (body (w_db w)) Q (\<lambda>_ _. True) v"
  shows "wp (with_tx body) Q (\<lambda>_ w'. w_db w' = w_db w) w"
  unfolding wp_with_tx using assms by (auto intro: wp_mono)

lemma insert_job_wp:
  assumes "db_jobs (w_db w) = js"
  shows "wp (attempt (statement (insert_into jobs_table row)))
    (\<lambda>inserted w'. case inserted of Inl e \<Rightarrow> True | Inr _ \<Rightarrow>
       db_jobs (w_db w') = js @ [row] \<and> jr_id row \<notin> jr_id ` set js) (\<lambda>_ _. True) w"
  using assms by (auto simp: op_simps insert_into_def row_simps)

lemma submit_export_wp:
  assumes "good_db (w_db w)"
  shows "wp (submit_export r)
    (\<lambda>answer w'. submitted
       (job_id (ex_scope r) (ex_provider r) ''export'' (ex_object_key r) (ex_idempotency_key r))
       (same_request_key (ex_scope r) (ex_provider r) ''export'' (ex_object_key r) (ex_idempotency_key r))
       (export_hash r) (w_db w) answer (w_db w'))
    (\<lambda>_ w'. w_db w' = w_db w) w"
    (is "wp _ ?Q _ _")
proof -
  let ?js = "db_jobs (w_db w)"
  let ?same = "same_request_key (ex_scope r) (ex_provider r) ''export'' (ex_object_key r) (ex_idempotency_key r)"
  let ?now = "w_clock w (w_readings w)"
  have replay: "wp (and_then (rollback_tx (w_db w)) (\<lambda>_.
         and_then (lookup_idempotent (ex_scope r) (ex_provider r) ''export'' (ex_object_key r)
             (ex_idempotency_key r)) (\<lambda>existing.
         case existing of
           None \<Rightarrow> throw e
         | Some job \<Rightarrow>
             and_then (attempt (request_hash (j_id job))) (\<lambda>h.
               if (case h of Inl _ \<Rightarrow> [] | Inr existing_hash \<Rightarrow> existing_hash) \<noteq> export_hash r
               then throw (Err_key_reused ''request'') else ret (job, True))))) ?Q (\<lambda>_ _. True) v" for e v
    unfolding wp_and_then [of "rollback_tx _"] wp_rollback
    by (rule wp_mono [OF replay_wp [where hash = "export_hash r" and
          Q = "\<lambda>j. \<exists>row \<in> set ?js. ?same row \<and> jr_request_sha row = export_hash r \<and> j = scan_job row"]])
      (use assms fingerprint_nonempty in \<open>auto simp: submitted_def export_hash_def split: sum.splits\<close>)
  have created: "wp (and_then (register_scope (sc_workspace (ex_scope r))) (\<lambda>_.
         and_then commit_tx (\<lambda>_. ret (submitted_export r ?now, False)))) ?Q (\<lambda>_ _. True) v"
    if "db_jobs (w_db v) = ?js @ [export_job_row r ?now]" "jr_id (export_job_row r ?now) \<notin> jr_id ` set ?js" for v
    unfolding wp_and_then [of "register_scope _"]
    by (rule wp_mono [OF keeps_wp [OF jobs_kept(2) that(1)]])
      (use that in \<open>auto simp: op_simps submitted_def export_job_row_def submitted_export_def
        default_job_row_def zero_job_def same_request_key_def\<close>)
  show ?thesis
    unfolding submit_export_def wp_and_then [of time_now] wp_time_now
  proof (rule with_tx_wp [where w = "w\<lparr>w_readings := Suc (w_readings w)\<rparr>", simplified])
    fix v :: world assume v: "w_db v = w_db w"
    show "wp (and_then (check_subject_submission (ex_scope r)) (\<lambda>_.
        and_then (attempt (statement (insert_into jobs_table (export_job_row r ?now)))) (\<lambda>inserted.
        case inserted of
          Inl e \<Rightarrow>
            and_then (rollback_tx (w_db w)) (\<lambda>_.
            and_then (lookup_idempotent (ex_scope r) (ex_provider r) ''export'' (ex_object_key r)
                (ex_idempotency_key r)) (\<lambda>existing.
            case existing of
              None \<Rightarrow> throw e
            | Some job \<Rightarrow>
                and_then (attempt (request_hash (j_id job))) (\<lambda>h.
                  if (case h of Inl _ \<Rightarrow> [] | Inr existing_hash \<Rightarrow> existing_hash) \<noteq> export_hash r
                  then throw (Err_key_reused ''request'') else ret (job, True))))
        | Inr _ \<Rightarrow>
            and_then (register_scope (sc_workspace (ex_scope r))) (\<lambda>_.
            and_then commit_tx (\<lambda>_. ret (submitted_export r ?now, False)))))) ?Q (\<lambda>_ _. True) v"
      unfolding wp_and_then [of "check_subject_submission _"]
    proof (rule wp_mono [OF keeps_wp [OF jobs_kept(1) [where js = ?js]]], goal_cases)
      case (2 _ u)
      show ?case
        unfolding wp_and_then [of "attempt _"]
        by (rule wp_mono [OF insert_job_wp [OF 2]]) (auto split: sum.splits intro: replay created)
    qed (simp_all add: v)
  qed
qed

subsection \<open>Imports\<close>

lemma store_source_wp:
  "wp (store_source limit workspace staging n c h reads)
    (\<lambda>s w'. snd (snd s) = hash_write h (fst (read_all reads)) \<and> db_jobs (w_db w') = db_jobs (w_db w))
    (\<lambda>_ _. True) w"
proof (induction reads arbitrary: n c h w)
  case (Cons r reads)
  obtain part status where r: "r = (part, status)" by (cases r)
  have inserted: "db_jobs d' = db_jobs d"
    if "insert_into chunks_table chunk d = Inr (u, d')" for chunk d u d'
    using that by (auto simp: insert_into_def row_simps split: if_splits)
  have rest: "wp (store_source limit workspace staging n' c' (hash_write h part) reads)
      (\<lambda>s w'. snd (snd s) = hash_write h (part @ fst (read_all reads)) \<and> db_jobs (w_db w') = db_jobs (w_db w))
      (\<lambda>_ _. True) v" if "db_jobs (w_db v) = db_jobs (w_db w)" for n' c' v
    by (rule wp_mono [OF Cons.IH]) (use that in auto)
  show ?case
  proof (cases "part = []")
    case True
    then show ?thesis
      using rest [of w n c] unfolding r
      by (cases status) (simp_all add: op_simps case_prod_beta')
  next
    case False
    then show ?thesis
      unfolding r
      by (cases status) (auto simp: op_simps case_prod_beta' Let_def dest: inserted intro!: rest split: sum.split)
  qed
qed (simp add: op_simps)

definition import_key :: "import_request \<Rightarrow> job_row \<Rightarrow> bool" where
  "import_key r =
     same_request_key (im_scope r) (im_provider r) ''import'' (im_object_key r) (im_idempotency_key r)"

definition import_job_id :: "import_request \<Rightarrow> bytes" where
  "import_job_id r =
     job_id (im_scope r) (im_provider r) ''import'' (im_object_key r) (im_idempotency_key r)"

lemma insert_import_wp:
  assumes "good_db snapshot" "db_jobs (w_db w) = db_jobs snapshot"
  shows "wp (insert_import snapshot r staging hash payload source_hash n c)
    (\<lambda>answer w'. submitted (import_job_id r) (import_key r) hash snapshot answer (w_db w'))
    (\<lambda>_ _. True) w"
    (is "wp _ ?Q _ _")
proof -
  let ?js = "db_jobs snapshot" and ?now = "w_clock w (w_readings w)"
  let ?row = "import_job_row r hash payload source_hash n c ?now"
  have replay: "wp (and_then (rollback_tx snapshot) (\<lambda>_.
         and_then (import_lookup r) (\<lambda>existing.
         case existing of
           None \<Rightarrow> throw e
         | Some job \<Rightarrow>
             and_then (attempt (request_hash (j_id job))) (\<lambda>h.
               if h = Inr hash then ret (job, True) else throw (Err_key_reused ''source'')))))
      ?Q (\<lambda>_ _. True) v" for e v
    unfolding wp_and_then [of "rollback_tx _"] wp_rollback import_lookup_def
    by (rule wp_mono [OF replay_wp [where hash = hash and
          Q = "\<lambda>j. \<exists>row \<in> set ?js. import_key r row \<and> jr_request_sha row = hash \<and> j = scan_job row"]])
      (use assms(1) in \<open>auto simp: submitted_def import_key_def\<close>)
  have created: "wp (and_then (statement (rekey_where chunks_table
             (\<lambda>c. ck_workspace c = sc_workspace (im_scope r) \<and> ck_job c = staging \<and>
                  ck_direction c = ''source'')
             (\<lambda>c. c\<lparr>ck_job := jr_id ?row\<rparr>))) (\<lambda>_.
         and_then (register_scope (sc_workspace (im_scope r))) (\<lambda>_.
         and_then commit_tx (\<lambda>_. ret (submitted_import r ?now, False))))) ?Q (\<lambda>_ _. True) v"
    if "db_jobs (w_db v) = ?js @ [?row]" "jr_id ?row \<notin> jr_id ` set ?js" for v
  proof -
    have rekeyed: "keeps (\<lambda>d. db_jobs d = ?js @ [?row]) (statement (rekey_where chunks_table p f))" for p f
      by (auto simp: keeps_iff_wp op_simps rekey_where_def update_where_def row_simps)
    show ?thesis
      unfolding wp_and_then [of "statement _"]
    proof (rule wp_mono [OF keeps_wp [where I = "\<lambda>d. db_jobs d = ?js @ [?row]"]], goal_cases)
      case (3 _ u)
      show ?case
        unfolding wp_and_then [of "register_scope _"]
        by (rule wp_mono [OF keeps_wp [OF jobs_kept(2) [where js = "?js @ [?row]"] 3]])
          (use that in \<open>auto simp: op_simps submitted_def import_job_row_def submitted_import_def
            default_job_row_def zero_job_def same_request_key_def import_key_def import_job_id_def\<close>)
    qed (use that rekeyed in simp_all)
  qed
  show ?thesis
    unfolding insert_import_def Let_def wp_and_then [of time_now] wp_time_now wp_and_then [of "attempt _"]
    by (rule wp_mono [OF insert_job_wp [where js = ?js]])
      (use assms(2) in \<open>auto split: sum.splits intro: replay created\<close>)
qed

lemma submit_import_wp:
  assumes "good_db (w_db w)"
  shows "wp (submit_import r)
    (\<lambda>answer w'. \<exists>reads payload. im_source r = Some reads \<and>
       marshal_import_payload (import_payload_of r) = Some payload \<and>
       submitted (import_job_id r) (import_key r)
         (import_hash r payload (hex_sha (fst (read_all reads)))) (w_db w) answer (w_db w'))
    (\<lambda>_ w'. w_db w' = w_db w) w"
    (is "wp _ ?Q _ _")
proof -
  let ?js = "db_jobs (w_db w)"
  show ?thesis
    unfolding submit_import_def Let_def wp_and_then [of time_now] wp_time_now
  proof (rule with_tx_wp [where w = "w\<lparr>w_readings := Suc (w_readings w)\<rparr>", simplified], goal_cases)
    case (1 v)
    show ?case
      unfolding wp_and_then [of "check_subject_submission _"]
    proof (rule wp_mono [OF keeps_wp [OF jobs_kept(1) [where js = ?js]]], goal_cases)
      case (2 _ u)
      show ?case
      proof (cases "im_source r")
        case None
        then show ?thesis by (simp add: op_simps)
      next
        case (Some reads)
        show ?thesis
          unfolding Some option.case wp_and_then [of "store_source _ _ _ _ _ _ _"]
        proof (rule wp_mono [OF store_source_wp], goal_cases)
          case (1 source v')
          obtain n c h where source: "source = (n, c, h)" by (cases source)
          have hash: "hex_encode (hash_sum h) = hex_sha (fst (read_all reads))"
            and jobs: "db_jobs (w_db v') = ?js"
            using 1 2 by (simp_all add: source hash_write_def hash_new_def hash_sum_def hex_sha_def)
          show ?case
          proof (cases "marshal_import_payload (import_payload_of r)")
            case None
            then show ?thesis by (simp add: source op_simps)
          next
            case (Some payload)
            let ?hash = "import_hash r payload (hex_sha (fst (read_all reads)))"
            have rows: "select_where jobs_table p d = select_where jobs_table p (w_db w)"
              if "db_jobs d = ?js" for p d
              using that by (simp add: select_where_def row_simps)
            have goal: "submitted (import_job_id r) (import_key r) ?hash (w_db w) answer d \<Longrightarrow>
                \<exists>rs q. Some reads = Some rs \<and> marshal_import_payload (import_payload_of r) = Some q \<and>
                  submitted (import_job_id r) (import_key r) (import_hash r q (hex_sha (fst (read_all rs))))
                    (w_db w) answer d" for answer d
              using Some by auto
            show ?thesis
            proof (rule wp_mono [where Q = "\<lambda>answer u. submitted (import_job_id r) (import_key r) ?hash
                  (w_db w) answer (w_db u)" and R = "\<lambda>_ _. True"], goal_cases)
              case 1
              show ?case
                unfolding source prod.case hash Some option.case wp_and_then [of "attempt _"] wp_attempt wp_query
                  import_key_def [symmetric]
              proof (cases "first_row (select_where jobs_table (import_key r) (w_db v'))", goal_cases)
                case (1 e)
                then show ?case
                  using insert_import_wp [OF assms, of "after_statement v'"] jobs
                  by (simp add: op_simps import_key_def del: first_row_none)
              next
                case (2 row)
                then show ?case
                  using first_selected [OF 2] jobs rows [of "w_db v'"]
                  by (auto simp: op_simps import_lookup_def lookup_idempotent_def submitted_def import_key_def)
              qed
            next
              case (2 answer u)
              then show ?case by (rule goal)
            qed simp
          qed
        qed simp
      qed
    qed (use 1 in simp_all)
  qed
qed

text \<open>
  C32: Submitting is idempotent: in a well-formed database a submission either adds exactly one queued
  job, with the id of its request key, when no job has that id; or it is a replay, which changes
  nothing at all and answers with the stored job of the same workspace, actor, provider, object and
  key, whose fingerprint, for an import over the bytes of its source, is that of the request; or it
  fails and changes nothing.
\<close>

theorem submissions_are_idempotent:
  assumes "good_db (w_db w)"
  shows "wp (submit_export e)
      (\<lambda>answer w'. submitted
         (job_id (ex_scope e) (ex_provider e) ''export'' (ex_object_key e) (ex_idempotency_key e))
         (same_request_key (ex_scope e) (ex_provider e) ''export'' (ex_object_key e) (ex_idempotency_key e))
         (export_hash e) (w_db w) answer (w_db w'))
      (\<lambda>_ w'. w_db w' = w_db w) w \<and>
    wp (submit_import r)
      (\<lambda>answer w'. \<exists>reads payload. im_source r = Some reads \<and>
         marshal_import_payload (import_payload_of r) = Some payload \<and>
         submitted (import_job_id r) (import_key r)
           (import_hash r payload (hex_sha (fst (read_all reads)))) (w_db w) answer (w_db w'))
      (\<lambda>_ w'. w_db w' = w_db w) w"
  by (intro conjI submit_export_wp submit_import_wp assms)

definition sample_import :: import_request where
  "sample_import =
     \<lparr>im_scope = sample_scope, im_provider = ''p'', im_object_key = ''o'', im_idempotency_key = ''k'',
      im_filename = ''f'', im_content_type = ''t'', im_max_bytes = 0, im_options = [],
      im_source = Some [(''ab'', Read_ok), (''c'', Read_eof)]\<rparr>"

theorem submissions_are_idempotent_witness:
  "wp (submit_import sample_import)
     (\<lambda>answer w'. \<exists>payload. submitted (import_job_id sample_import) (import_key sample_import)
        (import_hash sample_import payload (hex_sha ''abc'')) leased_db answer (w_db w'))
     (\<lambda>_ w'. w_db w' = leased_db) (calm leased_db 0)"
proof -
  have "w_db (calm leased_db 0) = leased_db" by (simp add: calm_def)
  then have "good_db (w_db (calm leased_db 0))" using leased_db_good by simp
  from submissions_are_idempotent [OF this] have
    "wp (submit_import sample_import)
      (\<lambda>answer w'. \<exists>reads payload. im_source sample_import = Some reads \<and>
         marshal_import_payload (import_payload_of sample_import) = Some payload \<and>
         submitted (import_job_id sample_import) (import_key sample_import)
           (import_hash sample_import payload (hex_sha (fst (read_all reads))))
           (w_db (calm leased_db 0)) answer (w_db w'))
      (\<lambda>_ w'. w_db w' = w_db (calm leased_db 0)) (calm leased_db 0)" by blast
  then show ?thesis
    by (rule wp_mono) (auto simp: sample_import_def calm_def)
qed

end
