(* ===== verification/ErasureCorrect.thy ===== *)
theory ErasureCorrect
  imports SubmissionCorrect
begin

text \<open>
  What the execution of a prepared erasure does to the database: exactly the planned jobs are redacted
  and lose their chunks and artifacts, everything else stays, and a repetition gives the recorded
  outcome again.
\<close>

definition redacted :: "job_row \<Rightarrow> job_row \<Rightarrow> bool" where
  "redacted r r' \<longleftrightarrow>
     (\<exists>t > jr_fencing_token r. r' = (redacted_row r)\<lparr>jr_fencing_token := t\<rparr>)"

lemma redacted_trans: "redacted r r' \<Longrightarrow> redacted r' r'' \<Longrightarrow> redacted r r''"
  by (cases r) (auto simp: redacted_def redacted_row_def)

lemma redacted_identity:
  "redacted r r' \<Longrightarrow> jr_id r' = jr_id r \<and> jr_workspace r' = jr_workspace r \<and> jr_actor r' = jr_actor r \<and>
   jr_status r' = ''cancelled''"
  by (auto simp: redacted_def redacted_row_def)

text \<open>The jobs \<open>ids\<close> of a subject are erased, and nothing else has changed but the bookkeeping.\<close>

definition erased_job :: "bytes \<Rightarrow> bytes \<Rightarrow> bytes set \<Rightarrow> job_row \<Rightarrow> job_row \<Rightarrow> bool" where
  "erased_job workspace subject ids r r' \<longleftrightarrow>
     (if jr_id r \<in> ids
      then redacted r r' \<and> jr_workspace r = workspace \<and> jr_actor r = subject \<and> jr_status r \<noteq> ''running''
      else r' = r)"

definition erased :: "bytes \<Rightarrow> bytes \<Rightarrow> bytes set \<Rightarrow> db \<Rightarrow> db \<Rightarrow> bool" where
  "erased workspace subject ids d d' \<longleftrightarrow>
     db_chunks d' = filter (\<lambda>c. \<not> (ck_workspace c = workspace \<and> ck_job c \<in> ids)) (db_chunks d) \<and>
     db_artifacts d' = filter (\<lambda>a. \<not> (at_workspace a = workspace \<and> at_job a \<in> ids)) (db_artifacts d) \<and>
     list_all2 (erased_job workspace subject ids) (db_jobs d) (db_jobs d') \<and>
     ids \<subseteq> jr_id ` set (db_jobs d) \<and> db_receipts d' = db_receipts d"

lemma erased_job_trans:
  "erased_job ws s A r r' \<Longrightarrow> erased_job ws s B r' r'' \<Longrightarrow> erased_job ws s (A \<union> B) r r''"
  by (auto simp: erased_job_def dest: redacted_identity intro: redacted_trans split: if_splits)

lemma erased_job_id: "erased_job ws s A r r' \<Longrightarrow> jr_id r' = jr_id r"
  by (auto simp: erased_job_def dest: redacted_identity split: if_splits)

lemma erased_ids: "erased ws s A d d' \<Longrightarrow> map jr_id (db_jobs d') = map jr_id (db_jobs d)"
proof -
  have "list_all2 (erased_job ws s A) rs rs' \<Longrightarrow> map jr_id rs' = map jr_id rs" for rs rs'
    by (induction rule: list_all2_induct) (auto dest: erased_job_id)
  then show "erased ws s A d d' \<Longrightarrow> ?thesis" by (simp add: erased_def)
qed

lemma erased_none:
  "erased ws s {} d d' \<longleftrightarrow> db_chunks d' = db_chunks d \<and> db_artifacts d' = db_artifacts d \<and>
     db_jobs d' = db_jobs d \<and> db_receipts d' = db_receipts d"
proof -
  have "erased_job ws s {} = (=)" by (intro ext) (auto simp: erased_job_def)
  then show ?thesis by (auto simp: erased_def list.rel_eq)
qed

lemma erased_trans:
  assumes "erased ws s A d d'" "erased ws s B d' d''"
  shows "erased ws s (A \<union> B) d d''"
proof -
  have "list_all2 (erased_job ws s (A \<union> B)) (db_jobs d) (db_jobs d'')"
    by (rule list_all2_trans [OF erased_job_trans]) (use assms in \<open>auto simp: erased_def\<close>)
  moreover have "B \<subseteq> jr_id ` set (db_jobs d)"
    using assms erased_ids [OF assms(1)] by (metis erased_def list.set_map)
  ultimately show ?thesis
    using assms by (auto simp: erased_def intro!: filter_cong)
qed

lemma update_one_erases:
  assumes "distinct (map jr_id rs)"
    "length (filter (\<lambda>r. jr_workspace r = ws \<and> jr_id r = jid \<and> jr_actor r = s \<and> jr_status r \<noteq> ''running'') rs) = 1"
  shows "list_all2 (erased_job ws s {jid}) rs (update_rows
      (\<lambda>r. jr_workspace r = ws \<and> jr_id r = jid \<and> jr_actor r = s \<and> jr_status r \<noteq> ''running'') redacted_row rs) \<and>
    jid \<in> jr_id ` set rs"
proof -
  let ?p = "\<lambda>r. jr_workspace r = ws \<and> jr_id r = jid \<and> jr_actor r = s \<and> jr_status r \<noteq> ''running''"
  from assms(2) obtain r where "filter ?p rs = [r]"
    by (cases "filter ?p rs") auto
  then have "r \<in> set (filter ?p rs)" by (simp only: list.set_intros)
  then have r: "r \<in> set rs" "?p r" by simp_all
  have only: "?p r'" if "r' \<in> set rs" "jr_id r' = jid" for r'
  proof -
    have "r' = r" using assms(1) r that by (auto simp: distinct_map inj_on_def)
    with r show ?thesis by simp
  qed
  have "redacted r (redacted_row r)" for r
    by (auto simp: redacted_def redacted_row_def intro!: exI [of _ "jr_fencing_token r + 1"])
  with only have "list_all2 (erased_job ws s {jid}) rs (update_rows ?p redacted_row rs)"
    by (auto simp: update_rows_def list_all2_map2 list_all2_same erased_job_def)
  with r show ?thesis by auto
qed

lemma erase_job_wp:
  assumes "distinct (map jr_id (db_jobs (w_db w)))"
  shows "wp (erase_job q j) (\<lambda>_ w'. erased (er_workspace q) (er_subject q) {sj_id j} (w_db w) (w_db w'))
    (\<lambda>_ _. True) w"
  using update_one_erases [OF assms, of "er_workspace q" "sj_id j" "er_subject q"]
  by (auto simp: erase_job_def op_simps delete_where_def update_where_def row_simps erased_def
      intro!: filter_cong)

lemma erase_jobs_wp:
  "distinct (map jr_id (db_jobs (w_db w))) \<Longrightarrow>
   wp (erase_jobs q js)
     (\<lambda>_ w'. erased (er_workspace q) (er_subject q) (set (map sj_id js)) (w_db w) (w_db w'))
     (\<lambda>_ _. True) w"
proof (induction js arbitrary: w)
  case (Cons j js)
  show ?case
    unfolding erase_jobs.simps wp_and_then
  proof (rule wp_mono [OF erase_job_wp [OF Cons.prems]], goal_cases)
    case (1 _ v)
    then have "distinct (map jr_id (db_jobs (w_db v)))"
      using erased_ids [OF 1] Cons.prems by simp
    from Cons.IH [OF this] show ?case
      by (rule wp_mono) (use erased_trans [OF 1] in auto)
  qed simp
qed (simp add: op_simps erased_none)

subsection \<open>The outcome\<close>

text \<open>What the receipts say of a request: its subject, the durable plan and the outcome.\<close>

definition recorded :: "erasure_request \<Rightarrow> db \<Rightarrow> (bytes \<times> bytes \<times> bytes) option" where
  "recorded q d =
     (case filter (\<lambda>r. rc_workspace r = er_workspace q \<and> rc_request r = er_request q) (db_receipts d) of
        [] \<Rightarrow> None
      | r # _ \<Rightarrow> Some (rc_subject r, rc_plan r, rc_result r))"

lemma recorded_cong: "db_receipts d' = db_receipts d \<Longrightarrow> recorded q d' = recorded q d"
  by (simp add: recorded_def)

lemma erasure_receipt_wp:
  "wp (erasure_receipt q)
    (\<lambda>(plan, result) w'. w_db w' = w_db w \<and> recorded q (w_db w) = Some (er_subject q, plan, result))
    (\<lambda>_ _. True) w"
  by (auto simp: erasure_receipt_def op_simps recorded_def first_row_def select_where_def row_simps
      split: list.splits sum.splits)

lemma recorded_update:
  assumes "recorded q d = Some (er_subject q, plan, result)"
  shows "recorded q (d\<lparr>db_receipts := update_rows
      (\<lambda>r. rc_workspace r = er_workspace q \<and> rc_request r = er_request q \<and> rc_subject r = er_subject q)
      (\<lambda>r. r\<lparr>rc_result := told\<rparr>) (db_receipts d)\<rparr>) = Some (er_subject q, plan, told)"
proof -
  let ?p = "\<lambda>r. rc_workspace r = er_workspace q \<and> rc_request r = er_request q"
  let ?f = "\<lambda>r. if ?p r \<and> rc_subject r = er_subject q then r\<lparr>rc_result := told\<rparr> else r"
  have swap: "filter ?p (map ?f rs) = map ?f (filter ?p rs)" for rs
    by (induction rs) auto
  from assms obtain r rest where found: "filter ?p (db_receipts d) = r # rest"
    and r: "rc_subject r = er_subject q" "rc_plan r = plan"
    by (auto simp: recorded_def split: list.splits)
  have "r \<in> set (filter ?p (db_receipts d))" by (simp only: found list.set_intros)
  then have "?p r" by simp
  have "filter ?p (update_rows (\<lambda>r. ?p r \<and> rc_subject r = er_subject q) (\<lambda>r. r\<lparr>rc_result := told\<rparr>) (db_receipts d))
      = map ?f (r # rest)"
    by (simp only: update_rows_def swap [symmetric] found [symmetric])
  with r \<open>?p r\<close> show ?thesis by (simp add: recorded_def conj_assoc)
qed

lemma lock_keeps_content:
  "keeps (erased ws s {} d) (lock_subject_scope workspace subject)"
  unfolding lock_subject_scope_def
  by (intro keeps_rules) (auto simp: keeps_iff_wp op_simps upsert_into_def row_simps erased_none)

text \<open>The result of a successful execution of the plan, started on the database \<open>d\<close>.\<close>

definition executed ::
  "erasure_request \<Rightarrow> bytes \<Rightarrow> db \<Rightarrow> erasure_plan \<Rightarrow> bytes \<Rightarrow> bytes \<Rightarrow> db \<Rightarrow> bool" where
  "executed q saved d plan result told d' \<longleftrightarrow>
     recorded q d = Some (er_subject q, saved, result) \<and>
     recorded q d' = Some (er_subject q, saved, told) \<and>
     (if result = []
      then told = outcome_text q (ep_jobs plan) \<and>
        erased (er_workspace q) (er_subject q) (set (map sj_id (ep_jobs plan)))
          d (d'\<lparr>db_receipts := db_receipts d\<rparr>)
      else told = result \<and> erased (er_workspace q) (er_subject q) {} d d')"

lemma erased_receipts: "erased ws s ids d d' \<Longrightarrow> recorded q d' = recorded q d"
  by (auto simp: erased_def intro: recorded_cong)

lemma record_outcome_wp:
  assumes "erased (er_workspace q) (er_subject q) (set (map sj_id (ep_jobs plan))) d (w_db v)"
    "recorded q d = Some (er_subject q, saved, [])"
  shows "wp (and_then (statement (update_where receipts_table
      (\<lambda>r. rc_workspace r = er_workspace q \<and> rc_request r = er_request q \<and> rc_subject r = er_subject q)
      (\<lambda>r. r\<lparr>rc_result := outcome_text q (ep_jobs plan)\<rparr>)))
      (\<lambda>_. and_then commit_tx (\<lambda>_. ret (outcome_text q (ep_jobs plan)))))
    (\<lambda>told w'. executed q saved d plan [] told (w_db w')) (\<lambda>_ _. True) v"
proof -
  have "recorded q (w_db v) = Some (er_subject q, saved, [])"
    using erased_receipts [OF assms(1), of q] assms(2) by simp
  from recorded_update [OF this, of "outcome_text q (ep_jobs plan)"] show ?thesis
    using assms
    by (simp add: op_simps update_where_def row_simps executed_def) (simp add: erased_def)
qed

lemma erase_and_record_wp:
  assumes "distinct (map jr_id (db_jobs d))"
    "erased (er_workspace q) (er_subject q) {} d (w_db v)"
    "recorded q d = Some (er_subject q, saved, [])"
  shows "wp (and_then (erase_jobs q (ep_jobs plan)) (\<lambda>_.
      and_then (statement (update_where receipts_table
        (\<lambda>r. rc_workspace r = er_workspace q \<and> rc_request r = er_request q \<and> rc_subject r = er_subject q)
        (\<lambda>r. r\<lparr>rc_result := outcome_text q (ep_jobs plan)\<rparr>)))
      (\<lambda>_. and_then commit_tx (\<lambda>_. ret (outcome_text q (ep_jobs plan))))))
    (\<lambda>told w'. executed q saved d plan [] told (w_db w')) (\<lambda>_ _. True) v"
proof -
  have "distinct (map jr_id (db_jobs (w_db v)))"
    using assms(1) erased_ids [OF assms(2)] by simp
  then show ?thesis
    unfolding wp_and_then [of "erase_jobs _ _"]
    by (intro wp_mono [OF erase_jobs_wp])
      (use erased_trans [OF assms(2)] assms(3) record_outcome_wp in auto)
qed

lemma repeat_outcome_wp:
  assumes "erased (er_workspace q) (er_subject q) {} d (w_db v)"
    "recorded q d = Some (er_subject q, saved, result)" "result \<noteq> []"
  shows "wp (and_then commit_tx (\<lambda>_. ret result))
    (\<lambda>told w'. executed q saved d plan result told (w_db w')) (\<lambda>_ _. True) v"
  using assms erased_receipts [OF assms(1), of q] by (auto simp: op_simps executed_def erased_none)

text \<open>From the receipt on, inside the transaction: only the durable plan is executed.\<close>

lemma receipt_then_wp:
  assumes "distinct (map jr_id (db_jobs d))" "erased (er_workspace q) (er_subject q) {} d (w_db u)"
  shows "wp (and_then (erasure_receipt q) (\<lambda>(saved, result).
      if raw \<noteq> saved
      then throw (Err_msg ''Data Exchange erasure plan differs from durable plan'')
      else if result \<noteq> [] then and_then commit_tx (\<lambda>_. ret result)
      else
        and_then (erase_jobs q (ep_jobs plan)) (\<lambda>_.
        let outcome = outcome_text q (ep_jobs plan) in
        and_then (statement (update_where receipts_table
          (\<lambda>r. rc_workspace r = er_workspace q \<and> rc_request r = er_request q \<and> rc_subject r = er_subject q)
          (\<lambda>r. r\<lparr>rc_result := outcome\<rparr>))) (\<lambda>_.
        and_then commit_tx (\<lambda>_. ret outcome)))))
    (\<lambda>told w'. \<exists>result. executed q raw d plan result told (w_db w')) (\<lambda>_ _. True) u"
  unfolding wp_and_then [of "erasure_receipt _"] Let_def
proof (rule wp_mono [OF erasure_receipt_wp], goal_cases)
  case (1 found v)
  obtain saved result where found: "found = (saved, result)" by (cases found)
  with 1 have v: "erased (er_workspace q) (er_subject q) {} d (w_db v)"
      "recorded q d = Some (er_subject q, saved, result)"
    using assms(2) erased_receipts [OF assms(2), of q] by simp_all
  show ?case
  proof (cases "raw = saved")
    case True
    then show ?thesis
      using v erase_and_record_wp [OF assms(1), of q v saved plan] repeat_outcome_wp [of q d v saved result plan]
      by (cases "result = []") (auto simp: found intro: wp_mono)
  qed (simp add: found op_simps)
qed simp

text \<open>
  C33: Executing a prepared erasure does exactly what its plan says, once: a call that succeeds was given
  the durable plan of its request and subject; if no outcome was recorded, all chunks and artifacts
  of the planned jobs are deleted, their rows, each the subject's own and not running, are redacted
  with a raised fencing token, no other row of these tables changes, and the outcome is recorded; if
  one was recorded, it is answered again and nothing is touched. A call that fails changes nothing.
\<close>

theorem erasure_is_exact_and_repeatable:
  assumes "good_db (w_db w)"
  shows "wp (store_erase_prepared q raw)
    (\<lambda>told w'. \<exists>plan result.
       unmarshal_plan raw = Some plan \<and> ep_subject plan = er_subject q \<and>
       executed q (trim_space raw) (w_db w) plan result told (w_db w'))
    (\<lambda>_ w'. w_db w' = w_db w) w"
proof (cases "unmarshal_plan raw")
  case None
  then show ?thesis by (simp add: store_erase_prepared_def op_simps)
next
  case (Some plan)
  let ?ws = "er_workspace q" and ?s = "er_subject q"
  show ?thesis
  proof (cases "ep_workspace plan = ?ws \<and> ep_subject plan = ?s \<and> ep_request plan = er_request q")
    case False
    then show ?thesis using Some by (auto simp: store_erase_prepared_def op_simps)
  next
    case True
    show ?thesis
      unfolding store_erase_prepared_def Some option.case
    proof (subst if_not_P, use True in simp, rule with_tx_wp, goal_cases)
      case (1 v)
      then have start: "erased ?ws ?s {} (w_db w) (w_db v)" by (simp add: erased_none)
      show ?case
        unfolding wp_and_then [of "lock_subject_scope _ _"]
      proof (rule wp_mono [OF keeps_wp [OF lock_keeps_content [of ?ws ?s "w_db w"] start]], goal_cases)
        case (1 fence u)
        show ?case
          using receipt_then_wp [OF good_jobs_keyed [OF assms] 1, of "trim_space raw" plan] True Some
          by (auto simp: wp_throw intro: wp_mono)
      qed simp
    qed
  qed
qed

text \<open>An execution that succeeds: the plan names the subject's only job.\<close>

definition sample_erasure :: erasure_request where
  "sample_erasure =
     \<lparr>er_workspace = ''w'', er_subject = ''a'', er_request = ''r'', er_legal_holds = []\<rparr>"

definition sample_plan :: erasure_plan where
  "sample_plan =
     \<lparr>ep_workspace = ''w'', ep_subject = ''a'', ep_request = ''r'',
      ep_jobs = [\<lparr>sj_id = ''j'', sj_chunks = 1, sj_artifacts = 0\<rparr>]\<rparr>"

definition erasable_db :: db where
  "erasable_db = empty_db\<lparr>
     db_jobs := [default_job_row\<lparr>jr_id := ''j'', jr_workspace := ''w'', jr_actor := ''a'',
       jr_operation := ''export'',
       jr_status := ''cancelled''\<rparr>],
     db_fences := [\<lparr>fe_workspace = ''w'', fe_subject = ''a'', fe_request = ''r''\<rparr>],
     db_receipts := [\<lparr>rc_workspace = ''w'', rc_request = ''r'', rc_subject = ''a'',
       rc_plan = trim_space (marshal_plan sample_plan), rc_result = []\<rparr>]\<rparr>"

theorem erasure_is_exact_and_repeatable_witness:
  "\<exists>told w'. store_erase_prepared sample_erasure (marshal_plan sample_plan) (calm erasable_db 0) =
       (Inr told, w') \<and>
     told = outcome_text sample_erasure (ep_jobs sample_plan) \<and>
     recorded sample_erasure (w_db w') = Some (''a'', trim_space (marshal_plan sample_plan), told) \<and>
     erased ''w'' ''a'' {''j''} erasable_db (w_db w'\<lparr>db_receipts := db_receipts erasable_db\<rparr>)"
proof -
  let ?w = "calm erasable_db 0" and ?raw = "marshal_plan sample_plan"
  have good: "good_db (w_db ?w)"
    by (simp add: calm_def erasable_db_def good_db_def keyed_def all_rows_def row_simps empty_db_def
        job_row_ok_def default_job_row_def status_values_def)
  have plan: "unmarshal_plan ?raw = Some sample_plan"
    by (rule read_plan) (simp add: plan_valid_def sample_plan_def byte_def int64_def del: valid_utf8.simps)
  have saved: "recorded sample_erasure (w_db ?w) = Some (''a'', trim_space ?raw, [])"
    by (simp add: recorded_def calm_def erasable_db_def empty_db_def sample_erasure_def)
  have "wp (store_erase_prepared sample_erasure ?raw) (\<lambda>_ _. True) (\<lambda>_ _. False) ?w"
    unfolding store_erase_prepared_def plan option.case
    by (simp add: sample_plan_def sample_erasure_def calm_def erasable_db_def empty_db_def
        lock_subject_scope_def erasure_receipt_def erase_job_def op_simps upsert_into_def
        update_where_def delete_where_def select_where_def first_row_def update_rows_def row_simps
        default_job_row_def)
  then obtain told w' where run: "store_erase_prepared sample_erasure ?raw ?w = (Inr told, w')"
    by (cases "store_erase_prepared sample_erasure ?raw ?w") (auto simp: wp_def split: sum.splits)
  show ?thesis
    using erasure_is_exact_and_repeatable [OF good, of sample_erasure ?raw] saved plan run
    by (auto simp: wp_def executed_def sample_erasure_def sample_plan_def calm_def split: if_splits)
qed

end
