(* ===== verification/Heartbeat.thy ===== *)
theory Heartbeat
  imports WorkerLoop
begin

text \<open>
  The goroutine that renews the lease beside the processing of a job (\<open>processWithHeartbeat\<close> of
  \<open>internal/application/dataexchange/service.go\<close>) and the life of the worker (\<open>Start\<close>, \<open>Close\<close>), as
  transition systems: the processing, the heartbeat and everybody else take turns in any order, and
  every call of theirs meets an arbitrary world over the shared database. The steps of the function
  and its goroutine are kept apart from those of everybody else, so that coming to an end can be
  stated of the former alone.
\<close>

subsection \<open>processWithHeartbeat\<close>

text \<open>
  Where the function is: in \<open>Process\<close>; behind it, with its result, before \<open>cancel()\<close>; before
  \<open><-done\<close>; returned.
\<close>

datatype point =
    In_process
  | Before_cancel "err option"
  | Before_done "err option"
  | Returned "err option"

text \<open>
  The context of the processing may be cancelled, and the heartbeat runs or has closed its channel
  \<open>done\<close>.
\<close>

record attended =
  hb_db :: db
  hb_cancelled :: bool
  hb_beating :: bool
  hb_point :: point

definition attend :: "db \<Rightarrow> attended" where
  "attend d = \<lparr>hb_db = d, hb_cancelled = False, hb_beating = True, hb_point = In_process\<rparr>"

text \<open>
  What everybody else does: \<open>Process\<close> itself, other workers and clients use the store, and the worker
  may be shut down, which cancels the parent context.
\<close>

inductive outside_step :: "(job_request \<Rightarrow> err option) \<Rightarrow> attended \<Rightarrow> attended \<Rightarrow> bool" for check where
  act: "w_db w = hb_db s \<Longrightarrow>
    outside_step check s (s\<lparr>hb_db := w_db (snd (run_call check k w))\<rparr>)"
| shut_down: "outside_step check s (s\<lparr>hb_cancelled := True\<rparr>)"

text \<open>
  The ticks of the heartbeat: a renewal that fails cancels the processing and ends the heartbeat.
\<close>

inductive tick_step :: "work_item \<Rightarrow> duration \<Rightarrow> attended \<Rightarrow> attended \<Rightarrow> bool" for x ttl where
  renew: "hb_beating s \<Longrightarrow> w_db w = hb_db s \<Longrightarrow> heartbeat x ttl w = (Inr (), w') \<Longrightarrow>
    tick_step x ttl s (s\<lparr>hb_db := w_db w'\<rparr>)"
| lose: "hb_beating s \<Longrightarrow> w_db w = hb_db s \<Longrightarrow> heartbeat x ttl w = (Inl e, w') \<Longrightarrow>
    tick_step x ttl s (s\<lparr>hb_db := w_db w', hb_cancelled := True, hb_beating := False\<rparr>)"

text \<open>
  The way to the end: the function cancels the context, the heartbeat sees it in its \<open>select\<close> and
  closes \<open>done\<close>, and the function, which waits for that, returns what \<open>Process\<close> returned.
\<close>

inductive closing_step :: "attended \<Rightarrow> attended \<Rightarrow> bool" where
  cancel: "hb_point s = Before_cancel result \<Longrightarrow>
    closing_step s (s\<lparr>hb_cancelled := True, hb_point := Before_done result\<rparr>)"
| observe: "hb_beating s \<Longrightarrow> hb_cancelled s \<Longrightarrow> closing_step s (s\<lparr>hb_beating := False\<rparr>)"
| give_back: "hb_point s = Before_done result \<Longrightarrow> \<not> hb_beating s \<Longrightarrow>
    closing_step s (s\<lparr>hb_point := Returned result\<rparr>)"

inductive attended_step ::
  "(job_request \<Rightarrow> err option) \<Rightarrow> work_item \<Rightarrow> duration \<Rightarrow> attended \<Rightarrow> attended \<Rightarrow> bool"
  for check x ttl where
  outside: "outside_step check s s' \<Longrightarrow> attended_step check x ttl s s'"
| tick: "tick_step x ttl s s' \<Longrightarrow> attended_step check x ttl s s'"
| closing: "closing_step s s' \<Longrightarrow> attended_step check x ttl s s'"
| processed: "hb_point s = In_process \<Longrightarrow>
    attended_step check x ttl s (s\<lparr>hb_point := Before_cancel result\<rparr>)"

inductive_cases attended_stepE: "attended_step check x ttl s s'"

abbreviation attended_reaches ::
  "(job_request \<Rightarrow> err option) \<Rightarrow> work_item \<Rightarrow> duration \<Rightarrow> attended \<Rightarrow> attended \<Rightarrow> bool" where
  "attended_reaches check x ttl \<equiv> (attended_step check x ttl)\<^sup>*\<^sup>*"

text \<open>What holds at any time.\<close>

definition attended_ok :: "attended \<Rightarrow> bool" where
  "attended_ok s \<longleftrightarrow>
     good_db (hb_db s) \<and> (\<not> hb_beating s \<longrightarrow> hb_cancelled s) \<and>
     (case hb_point s of
        Before_done result \<Rightarrow> hb_cancelled s
      | Returned result \<Rightarrow> \<not> hb_beating s
      | _ \<Rightarrow> True)"

lemma outside_step_ok: "outside_step check s s' \<Longrightarrow> attended_ok s \<Longrightarrow> attended_ok s'"
proof (induction rule: outside_step.induct)
  case (act w s k)
  then show ?case
    using call_keeps_good [of w check k] by (auto simp: attended_ok_def split: point.splits)
qed (auto simp: attended_ok_def split: point.splits)

lemma tick_step_ok: "tick_step x ttl s s' \<Longrightarrow> attended_ok s \<Longrightarrow> attended_ok s'"
proof (induction rule: tick_step.induct)
  case (renew s w w')
  then show ?case
    using keepsD [OF keeps_heartbeat, of w x ttl] by (fastforce simp: attended_ok_def split: point.splits)
next
  case (lose s w e w')
  then show ?case
    using keepsD [OF keeps_heartbeat, of w x ttl] by (fastforce simp: attended_ok_def split: point.splits)
qed

lemma closing_step_ok: "closing_step s s' \<Longrightarrow> attended_ok s \<Longrightarrow> attended_ok s'"
  by (induction rule: closing_step.induct) (auto simp: attended_ok_def split: point.splits)

lemma attended_step_ok: "attended_step check x ttl s s' \<Longrightarrow> attended_ok s \<Longrightarrow> attended_ok s'"
  by (induction rule: attended_step.induct)
    (blast intro: outside_step_ok tick_step_ok closing_step_ok, blast intro: tick_step_ok,
     blast intro: closing_step_ok, simp add: attended_ok_def)

lemma attended_reaches_ok:
  "attended_reaches check x ttl s s' \<Longrightarrow> attended_ok s \<Longrightarrow> attended_ok s'"
  by (induction rule: rtranclp_induct) (auto intro: attended_step_ok)

lemma attend_ok: "good_db d \<Longrightarrow> attended_ok (attend d)"
  by (simp add: attended_ok_def attend_def)

subsection \<open>The function returns\<close>

text \<open>The result \<open>Process\<close> had, and the closing steps there are left to take.\<close>

fun result_of :: "point \<Rightarrow> err option option" where
  "result_of In_process = None"
| "result_of (Before_cancel result) = Some result"
| "result_of (Before_done result) = Some result"
| "result_of (Returned result) = Some result"

fun to_return :: "point \<Rightarrow> nat" where
  "to_return In_process = 3"
| "to_return (Before_cancel result) = 2"
| "to_return (Before_done result) = 1"
| "to_return (Returned result) = 0"

definition closing_steps :: "attended \<Rightarrow> nat" where
  "closing_steps s = to_return (hb_point s) + (if hb_beating s then 1 else 0)"

text \<open>Behind \<open>Process\<close> the function is never stuck: a closing step can always be taken.\<close>

lemma never_stuck:
  assumes "attended_ok s" "result_of (hb_point s) = Some result" "hb_point s \<noteq> Returned result"
  shows "\<exists>s'. closing_step s s'"
proof (cases "hb_point s")
  case (Before_cancel r)
  then show ?thesis by (blast intro: closing_step.cancel)
next
  case (Before_done r)
  show ?thesis
  proof (cases "hb_beating s")
    case True
    then show ?thesis using assms(1) Before_done by (auto simp: attended_ok_def intro: closing_step.observe)
  next
    case False
    then show ?thesis using Before_done by (blast intro: closing_step.give_back)
  qed
qed (use assms in simp_all)

lemma closing_progress:
  "closing_step s s' \<Longrightarrow> closing_steps s' < closing_steps s \<and> hb_db s' = hb_db s \<and>
   result_of (hb_point s') = result_of (hb_point s)"
  by (induction rule: closing_step.induct) (simp_all add: closing_steps_def)

text \<open>Nothing else sets it back, and the result stays what it is.\<close>

lemma never_back:
  assumes "attended_step check x ttl s s'"
  shows "closing_steps s' \<le> closing_steps s \<and>
    (result_of (hb_point s) = None \<or> result_of (hb_point s') = result_of (hb_point s))"
  using assms
proof cases
  case outside
  then show ?thesis by cases (simp_all add: closing_steps_def)
next
  case tick
  then show ?thesis by cases (simp_all add: closing_steps_def)
next
  case closing
  then show ?thesis using closing_progress by fastforce
qed (simp add: closing_steps_def)

lemma closes:
  assumes "attended_ok s" "result_of (hb_point s) = Some result"
  shows "\<exists>s'. closing_step\<^sup>*\<^sup>* s s' \<and> hb_point s' = Returned result \<and> \<not> hb_beating s' \<and> hb_db s' = hb_db s"
  using assms
proof (induction "closing_steps s" arbitrary: s rule: less_induct)
  case less
  show ?case
  proof (cases "hb_point s = Returned result")
    case True
    then show ?thesis using less.prems by (auto simp: attended_ok_def intro!: exI [of _ s])
  next
    case False
    then obtain s1 where step: "closing_step s s1" using never_stuck [OF less.prems] by blast
    note progress = closing_progress [OF step]
    from less.hyps [of s1] progress less.prems closing_step_ok [OF step] obtain s' where
      "closing_step\<^sup>*\<^sup>* s1 s'" "hb_point s' = Returned result" "\<not> hb_beating s'" "hb_db s' = hb_db s1"
      by auto
    with step progress show ?thesis by (metis converse_rtranclp_into_rtranclp)
  qed
qed

text \<open>A worker whose fence is gone learns it at the next tick, whatever the world does.\<close>

definition loses_at_tick :: "work_item \<Rightarrow> duration \<Rightarrow> attended \<Rightarrow> bool" where
  "loses_at_tick x ttl s \<longleftrightarrow>
     (\<forall>w. w_db w = hb_db s \<longrightarrow>
        (\<exists>e w'. heartbeat x ttl w = (Inl e, w') \<and> w_db w' = hb_db s \<and>
          tick_step x ttl s (s\<lparr>hb_cancelled := True, hb_beating := False\<rparr>)))"

lemma stale_heartbeat:
  assumes "\<not> passes_fence x (w_db w)"
  shows "\<exists>e w'. heartbeat x ttl w = (Inl e, w') \<and> w_db w' = w_db w"
  using stale_write [of "Renew_lease x ttl" x w "\<lambda>_. None"] assms
  by (auto simp: outcome_def split: prod.splits sum.splits)

lemma lost_fence_ends_heartbeat:
  assumes "hb_beating s" "\<not> passes_fence x (hb_db s)"
  shows "loses_at_tick x ttl s"
  unfolding loses_at_tick_def
proof (intro allI impI)
  fix w :: world assume w: "w_db w = hb_db s"
  with assms stale_heartbeat [of x w ttl] obtain e w' where
    run: "heartbeat x ttl w = (Inl e, w')" "w_db w' = hb_db s" by auto
  with lose [OF assms(1) w run(1)]
  have "tick_step x ttl s (s\<lparr>hb_cancelled := True, hb_beating := False\<rparr>)"
    by (cases s) simp
  with run show "\<exists>e w'. heartbeat x ttl w = (Inl e, w') \<and> w_db w' = hb_db s \<and>
      tick_step x ttl s (s\<lparr>hb_cancelled := True, hb_beating := False\<rparr>)" by blast
qed

text \<open>
  C39: The heartbeat lives exactly as long as the processing needs it: in every interleaving with the
  processing, other workers, clients and the subject lifecycle, the function has only returned after
  the heartbeat has stopped, so no lease is renewed behind its back; the heartbeat never stops with
  the processing not cancelled; once \<open>Process\<close> has returned, the function and its heartbeat alone,
  with no shutdown and no help from the database, come to the end in at most three closing steps
  (cancel the context, see it and close \<open>done\<close>, return), which no other step can set back, and the
  result is that of \<open>Process\<close>; and once the fence of the job is lost, the next tick cancels the processing.
\<close>

theorem heartbeat_ends_with_processing:
  assumes "good_db d" "attended_reaches check x ttl (attend d) s"
  shows "((\<exists>result. hb_point s = Returned result) \<longrightarrow> \<not> hb_beating s) \<and>
    (hb_beating s \<or> hb_cancelled s) \<and>
    (\<forall>result. result_of (hb_point s) = Some result \<longrightarrow>
       (\<exists>s'. closing_step\<^sup>*\<^sup>* s s' \<and> hb_point s' = Returned result \<and> hb_db s' = hb_db s)) \<and>
    (\<forall>s'. closing_step s s' \<longrightarrow> closing_steps s' < closing_steps s) \<and>
    (\<forall>s'. attended_step check x ttl s s' \<longrightarrow> closing_steps s' \<le> closing_steps s \<and>
       (result_of (hb_point s) = None \<or> result_of (hb_point s') = result_of (hb_point s))) \<and>
    (hb_beating s \<and> \<not> passes_fence x (hb_db s) \<longrightarrow> loses_at_tick x ttl s)"
proof -
  have ok: "attended_ok s" by (rule attended_reaches_ok [OF assms(2) attend_ok [OF assms(1)]])
  then have "\<forall>result. result_of (hb_point s) = Some result \<longrightarrow>
       (\<exists>s'. closing_step\<^sup>*\<^sup>* s s' \<and> hb_point s' = Returned result \<and> hb_db s' = hb_db s)"
    using closes by blast
  with ok show ?thesis
    using lost_fence_ends_heartbeat closing_progress never_back by (auto simp: attended_ok_def)
qed

text \<open>The lease of \<^const>\<open>leased_db\<close> is of token 1: a worker with token 0 has lost it before its first tick.\<close>

theorem heartbeat_ends_with_processing_witness:
  "loses_at_tick (sample_item 0) 0 (attend leased_db) \<and>
   (\<exists>s s'. attended_reaches (\<lambda>_. None) (sample_item 0) 0 (attend leased_db) s \<and>
     hb_point s = Before_cancel None \<and> closing_step\<^sup>*\<^sup>* s s' \<and> hb_point s' = Returned None)"
proof -
  let ?s = "(attend leased_db)\<lparr>hb_point := Before_cancel None\<rparr>"
  have lost: "\<not> passes_fence (sample_item 0) (hb_db (attend leased_db))"
    by (simp add: passes_fence_def attend_def leased_db_def leased_job_def fenced_job_def sample_item_def
        zero_job_def default_job_row_def empty_db_def)
  have reach: "attended_reaches (\<lambda>_. None) (sample_item 0) 0 (attend leased_db) ?s"
    by (rule r_into_rtranclp, rule processed) (simp add: attend_def)
  from heartbeat_ends_with_processing [OF leased_db_good this]
  obtain s' where "closing_step\<^sup>*\<^sup>* ?s s'" "hb_point s' = Returned None" by auto
  moreover have "loses_at_tick (sample_item 0) 0 (attend leased_db)"
    using heartbeat_ends_with_processing [OF leased_db_good rtranclp.rtrancl_refl,
        where check = "\<lambda>_. None" and x = "sample_item 0" and ttl = 0] lost
    by (simp add: attend_def)
  ultimately show ?thesis using reach by (intro conjI exI [of _ ?s] exI [of _ s']) simp_all
qed

subsection \<open>Start and Close\<close>

text \<open>
  What \<open>Start\<close> and \<open>Close\<close> share through the service: the \<open>cancel\<close> function, which belongs to the
  context of the last started loop, and \<open>closeOnce\<close>. Contexts are numbered in the order they were
  made, with whether they are cancelled.
\<close>

record worker_life =
  wl_contexts :: "bool list"
  wl_cancel :: "nat option"
  wl_closed :: bool

definition new_life :: worker_life where
  "new_life = \<lparr>wl_contexts = [], wl_cancel = None, wl_closed = False\<rparr>"

text \<open>The context of the loop that is started; none when the worker is disabled and \<open>done\<close> is closed at once.\<close>

definition start_loop :: "worker_config \<Rightarrow> worker_life \<Rightarrow> nat option \<times> worker_life" where
  "start_loop c s =
     (if \<not> wc_enabled c then (None, s)
      else (Some (length (wl_contexts s)),
        s\<lparr>wl_contexts := wl_contexts s @ [False], wl_cancel := Some (length (wl_contexts s))\<rparr>))"

definition close_service :: "worker_life \<Rightarrow> worker_life" where
  "close_service s =
     (if wl_closed s then s
      else case wl_cancel s of
        None \<Rightarrow> s\<lparr>wl_closed := True\<rparr>
      | Some i \<Rightarrow> s\<lparr>wl_closed := True, wl_contexts := (wl_contexts s)[i := True]\<rparr>)"

text \<open>
  The loop itself: a round of claims, and then the \<open>select\<close> between the cancelled context and the
  ticker; \<open>Loop_done\<close> has closed the channel that \<open>Start\<close> returned.
\<close>

datatype loop = Loop_round | Loop_select | Loop_done

inductive loop_step :: "worker_life \<Rightarrow> nat \<Rightarrow> loop \<Rightarrow> loop \<Rightarrow> bool" for s i where
  round_ends: "loop_step s i Loop_round Loop_select"
| tick: "loop_step s i Loop_select Loop_round"
| cancelled: "i < length (wl_contexts s) \<Longrightarrow> wl_contexts s ! i \<Longrightarrow> loop_step s i Loop_select Loop_done"

inductive_simps loop_step_simps: "loop_step s i Loop_select l" "loop_step s i Loop_done l"

text \<open>Closing cancels the loop that was started last; a service that was closed before is not closed again.\<close>

lemma close_cancels:
  assumes "start_loop c s = (Some i, s')" "\<not> wl_closed s"
  shows "loop_step (close_service s') i Loop_select Loop_done"
  using assms
  by (auto simp: start_loop_def close_service_def loop_step_simps split: if_splits)

lemma loop_runs_until_closed:
  assumes "start_loop c s = (Some i, s')"
  shows "\<not> loop_step s' i Loop_select Loop_done"
  using assms by (auto simp: start_loop_def loop_step_simps nth_append split: if_splits)

lemma closed_for_good: "close_service (close_service s) = close_service s"
  by (simp add: close_service_def split: option.splits)

end
