(* ===== verification/TypedAnswers.thy ===== *)
theory TypedAnswers
  imports WorkerLoop
begin

text \<open>
  The types of what the store hands out. The columns \<open>status\<close> and \<open>operation\<close> are texts; in a
  well-formed database every job a client is shown and every item a worker claims has values the code
  knows, so that no reader meets a case it does not handle.
\<close>

subsection \<open>Jobs and work items\<close>

definition typed_job :: "job \<Rightarrow> bool" where
  "typed_job j \<longleftrightarrow> j_status j \<in> status_values \<and> j_operation j \<in> {''import'', ''export''}"

definition typed_item :: "work_item \<Rightarrow> bool" where
  "typed_item x \<longleftrightarrow>
     typed_job (w_job x) \<and> j_status (w_job x) = ''running'' \<and> 0 < j_fencing_token (w_job x)"

text \<open>A page of a listing: as many jobs as were asked for at most, each one as it was asked for.\<close>

definition filter_met :: "bytes \<Rightarrow> bytes \<Rightarrow> bool" where
  "filter_met wanted given \<longleftrightarrow> (if trim_space wanted = [] then True else given = trim_space wanted)"

definition typed_page :: "job_list_request \<Rightarrow> job list \<Rightarrow> bool" where
  "typed_page jl js \<longleftrightarrow>
     length js \<le> (if jl_limit jl = 0 then 50 else nat (jl_limit jl)) \<and>
     list_all (\<lambda>j. typed_job j \<and> filter_met (jl_provider jl) (j_provider j) \<and>
       filter_met (jl_operation jl) (j_operation j) \<and> filter_met (jl_status jl) (j_status j)) js"

lemma good_job_rows: "good_db d \<Longrightarrow> row \<in> set (db_jobs d) \<Longrightarrow> job_row_ok row"
  by (simp add: good_db_def all_rows_def row_simps)

lemma typed_row: "job_row_ok row \<Longrightarrow> typed_job (scan_job row)"
  by (simp add: job_row_ok_def typed_job_def scan_job_def)

lemma typed_claim: "job_row_ok row \<Longrightarrow> typed_item (claimed_item owner row)"
  by (auto simp: job_row_ok_def typed_item_def typed_job_def claimed_item_def item_of_row_def status_values_def)

lemma typed_dispatch:
  "typed_item x \<Longrightarrow> process fuel repo h csv x =
     (if j_operation (w_job x) = ''import''
      then and_then (process_import repo h csv x) (\<lambda>_. ret (Some ()))
      else process_export fuel repo h csv x)"
  by (auto simp: typed_item_def typed_job_def process_def)

subsection \<open>Answers of the store\<close>

lemma listed_row:
  assumes "list_predicate jl access row" "job_row_ok row"
  shows "typed_job (scan_job row) \<and> filter_met (jl_provider jl) (j_provider (scan_job row)) \<and>
    filter_met (jl_operation jl) (j_operation (scan_job row)) \<and>
    filter_met (jl_status jl) (j_status (scan_job row))"
  using assms typed_row [OF assms(2)] by (simp add: list_predicate_def filter_met_def scan_job_def)

lemma typed_rows:
  assumes "\<And>row. row \<in> set rows \<Longrightarrow> list_predicate jl access row \<and> job_row_ok row"
  shows "typed_page jl (map scan_job (take (nat (if jl_limit jl = 0 then 50 else jl_limit jl)) rows))"
  using assms listed_row by (auto simp: typed_page_def list_all_iff dest!: in_set_takeD)

lemma store_jobs_typed:
  assumes "good_db (w_db w)"
  shows "wp (store_jobs jl access) (\<lambda>js _. typed_page jl js) (\<lambda>_ _. True) w"
proof -
  have "typed_page jl (map scan_job (take (nat (if jl_limit jl = 0 then 50 else jl_limit jl))
      (newest_first (select_where jobs_table (list_predicate jl (normalized access)) (w_db w)))))"
    by (rule typed_rows [where access = "normalized access"])
      (use good_job_rows [OF assms] in \<open>auto simp: newest_first_def select_where_def row_simps\<close>)
  then show ?thesis by (simp only: store_jobs_def Let_def op_simps if_cancel simp_thms sum.case)
qed

lemma store_job_typed:
  assumes "good_db (w_db w)"
  shows "wp (store_job r access) (\<lambda>j _. typed_job j) (\<lambda>_ _. True) w"
proof (rule wp_mono [OF store_job_wp [where P = typed_job]], goal_cases)
  case (1 row)
  then have "row \<in> set (db_jobs (w_db w))" by (auto simp: job_select_def select_where_def row_simps)
  then show ?case by (rule typed_row [OF good_job_rows [OF assms]])
qed simp_all

text \<open>A cancellation answers with the row as it left it.\<close>

lemma store_cancel_stored:
  "wp (store_cancel r access) (\<lambda>j w'. \<exists>row \<in> set (db_jobs (w_db w')). j = scan_job row) (\<lambda>_ _. True) w"
proof -
  have last: "wp (and_then (and_then (attempt (query (\<lambda>d. first_row (job_select r (normalized access) d))))
      found_or_not_found) (\<lambda>j. and_then commit_tx (\<lambda>_. ret j)))
      (\<lambda>j w'. \<exists>row \<in> set (db_jobs (w_db w')). j = scan_job row) (\<lambda>_ _. True) v" for v
    by (auto simp: op_simps found_wp job_select_def select_where_def row_simps
        dest!: first_row_in split: sum.splits)
  show ?thesis
  proof (cases "job_access_matches_scope r (normalized access)")
    case True
    then show ?thesis
      unfolding store_cancel_def Let_def by (auto intro!: wp_later_tx wp_later last)
  qed (simp add: store_cancel_def op_simps)
qed

lemma store_cancel_typed:
  assumes "good_db (w_db w)"
  shows "wp (store_cancel r access) (\<lambda>j _. typed_job j) (\<lambda>_ _. True) w"
  by (rule wp_mono [OF wp_conj [OF store_cancel_stored keeps_wp [OF keeps_cancel assms]]])
    (auto intro: typed_row good_job_rows)

lemma claim_typed:
  assumes "good_db (w_db w)"
  shows "wp (claim owner ttl) (\<lambda>found _. case found of None \<Rightarrow> True | Some x \<Rightarrow> typed_item x) (\<lambda>_ _. True) w"
  by (rule wp_mono [OF claim_wp [OF assms]])
    (auto simp: takes_def split: option.splits intro: typed_claim good_job_rows [OF assms])

text \<open>
  C40: Whatever the store hands out is well typed: in a well-formed database a listing is a page of at
  most the requested number of jobs (50 by default) that meet its filters; every job that is listed,
  read or cancelled has one of the five statuses and is an import or an export; and a claimed item is
  running under a positive token, so that its processing is that of imports or of exports and never
  the error for an unknown operation.
\<close>

theorem stored_jobs_are_typed:
  assumes "good_db (w_db w)"
  shows "wp (list_jobs k (module_service check a h) ctx jl) (\<lambda>js _. typed_page jl js) (\<lambda>_ _. True) w \<and>
    wp (job_for_action k (module_service check a h) ctx r permission) (\<lambda>j _. typed_job j) (\<lambda>_ _. True) w \<and>
    wp (cancel_job k (module_service check a h) ctx r) (\<lambda>j _. typed_job j) (\<lambda>_ _. True) w \<and>
    wp (claim owner ttl)
      (\<lambda>found _. case found of None \<Rightarrow> True
       | Some x \<Rightarrow> typed_item x \<and>
           process fuel repo h csv x =
             (if j_operation (w_job x) = ''import''
              then and_then (process_import repo h csv x) (\<lambda>_. ret (Some ()))
              else process_export fuel repo h csv x))
      (\<lambda>_ _. True) w"
proof (intro conjI)
  show "wp (list_jobs k (module_service check a h) ctx jl) (\<lambda>js _. typed_page jl js) (\<lambda>_ _. True) w"
    using store_jobs_typed [OF assms]
    by (auto simp: list_jobs_def op_simps sql_repository_def split: option.splits sum.splits)
  show "wp (job_for_action k (module_service check a h) ctx r permission) (\<lambda>j _. typed_job j) (\<lambda>_ _. True) w"
    using store_job_typed [OF assms]
    by (auto simp: job_for_action_def op_simps sql_repository_def split: option.splits sum.splits)
  show "wp (cancel_job k (module_service check a h) ctx r) (\<lambda>j _. typed_job j) (\<lambda>_ _. True) w"
    using store_cancel_typed [OF assms]
    by (auto simp: cancel_job_def op_simps sql_repository_def split: option.splits sum.splits)
qed (rule wp_mono [OF claim_typed [OF assms]], simp_all add: typed_dispatch split: option.splits)

text \<open>The queued job of \<^const>\<open>queued_db\<close> is claimed.\<close>

theorem stored_jobs_are_typed_witness:
  "\<exists>x w'. claim ''o'' 0 (calm queued_db 0) = (Inr (Some x), w') \<and> typed_item x \<and>
     process 1 (sql_repository (\<lambda>_. None)) no_providers sample_codec x =
       (if j_operation (w_job x) = ''import''
        then and_then (process_import (sql_repository (\<lambda>_. None)) no_providers sample_codec x)
          (\<lambda>_. ret (Some ()))
        else process_export 1 (sql_repository (\<lambda>_. None)) no_providers sample_codec x)"
proof -
  have good: "good_db (w_db (calm queued_db 0))"
    by (simp add: calm_def queued_db_def good_db_def keyed_def all_rows_def row_simps empty_db_def
        job_row_ok_def default_job_row_def status_values_def)
  have "wp (claim ''o'' 0) (\<lambda>found _. found \<noteq> None) (\<lambda>_ _. False) (calm queued_db 0)"
    by (rule wp_mono [OF claim_wp [OF good]])
      (auto simp: calm_def queued_db_def empty_db_def claim_candidate_def claimable_def requested_def
        default_job_row_def split: option.splits)
  then obtain x w' where run: "claim ''o'' 0 (calm queued_db 0) = (Inr (Some x), w')"
    by (cases "claim ''o'' 0 (calm queued_db 0)") (auto simp: wp_def split: sum.splits)
  with stored_jobs_are_typed [OF good, where owner = "''o''" and ttl = 0]
  show ?thesis by (auto simp: wp_def)
qed

end
