(* ===== verification/Spec2Isabelle.thy ===== *)
theory Spec2Isabelle
  imports TimeOrder Retries Leases JobAuthorization Validation ExportCorrect AssemblyCorrect JobJson ErasureCorrect
    Heartbeat TypedAnswers
begin

text \<open>
  Verification of the Data Exchange module: durable imports and exports whose content lives in chunks
  in an SQL database, processed by workers that hold leases, offered over HTTP by the module itself or
  by a SaaS client, with the erasure of a subject's data.

  \<^bold>\<open>The program and its model.\<close> Every function of the source is a definition of the same name in snake
  case, and every theory opens with the files it models. From the bottom up:

  \<^item> \<open>Prelude\<close>, \<open>Timestamp\<close>, \<open>Sha256\<close>, \<open>Json\<close>, \<open>WebText\<close>: what the code uses of Go's standard library
    (strings as bytes, \<open>strings.TrimSpace\<close> over UTF-8, \<open>strconv\<close>, 64-bit wrap-around, RFC3339Nano texts
    of instants, SHA-256 on 32-bit words, \<open>encoding/json\<close> on raw texts, queries and
    \<open>Content-Disposition\<close>), executable, with round trips (\<open>JsonRoundtrip\<close>).
  \<^item> \<open>Model\<close>, \<open>Validation\<close>, \<open>JobAuthorization\<close>: \<open>internal/domain/dataexchange\<close>. Structs are records,
    errors the type \<open>err\<close>, a \<open>(value, error)\<close> pair the sum \<open>err + value\<close>.
  \<^item> \<open>Schema\<close>, \<open>Db\<close>: the engines and migrations of \<open>internal/infrastructure/persistence\<close>, the six
    tables as lists of rows, and the operations \<open>'a op\<close>: functions of a \<open>world\<close> that holds the database,
    decides which statements the driver fails, what the clock reads, and records the calls to
    providers and hosts as a trace. \<open>wp m Q R w\<close> says that \<open>m\<close>, run in \<open>w\<close>, returns a value of \<open>Q\<close> or
    an error of \<open>R\<close>.
  \<^item> \<open>Submission\<close>, \<open>JobAccess\<close>, \<open>Claiming\<close>, \<open>WorkerStore\<close>, \<open>Download\<close>, \<open>SubjectErasure\<close>: the methods of
    \<open>Store\<close> in \<open>store.go\<close> and \<open>subject_erasure.go\<close>, one operation per method, statement by statement.
  \<^item> \<open>Repository\<close>, \<open>Processing\<close>, \<open>Service\<close>: the interfaces of \<open>job_repository.go\<close> and the application
    layer (\<open>service.go\<close>, \<open>subject_lifecycle.go\<close>): the use cases with their grants, the worker's loop,
    imports by rows or files, exports by pages or files.
  \<^item> \<open>Http\<close>, \<open>Disclosure\<close>, \<open>Assembly\<close>: the HTTP adapter (\<open>adapter.go\<close>), the capability contract
    (\<open>capability/contract.go\<close>), the SDK binding, and the two ways the parts are put together
    (\<open>assembly/module\<close>, \<open>assembly/saas\<close>).

  The adapter calls a binding of the SDK, the module's binding is the service, the service authorizes
  (\<open>resolve_job_access\<close>) and calls the repository, whose operations are the store's; workers call the
  same repository and, in between, the providers of the host.

  \<^bold>\<open>Interfaces.\<close> \<open>sql_table\<close> and \<open>kept_table\<close> (\<open>Tables\<close>) state what a table is and what a predicate of
  its rows survives, interpreted on the six tables; \<open>job_repository\<close>, \<open>subject_store_contract\<close> and
  \<open>quiet_repository\<close> (\<open>Contract\<close>) what the application layer relies on in a repository, interpreted
  on the SQL store; \<open>growing_jobs\<close>, \<open>client_history\<close>, \<open>quiet_history\<close> and \<open>job_history\<close> (\<open>Lifecycle\<close>),
  each of which extends the one before, what a predicate or relation on databases has to allow so that
  the submissions, all calls of clients and of the subject lifecycle, the calls of workers that report
  no failure, and finally every store call keep it; interpreted on the life of the jobs, on the leases
  (\<open>Leases\<close>) and on single rows (\<open>ServiceCorrect\<close>); \<open>owned_binding\<close> (\<open>HttpCorrect\<close>) what the handlers rely on in a binding,
  interpreted on the module's.

  \<^bold>\<open>What is proved.\<close>

  \<^item> The database (\<open>Invariant\<close>, \<open>StoreCalls\<close>, \<open>StoreProperties\<close>, \<open>ServiceCorrect\<close>): every history of
    store calls or use cases keeps it well formed; a failed call changes nothing; no job is overlooked;
    jobs of others are left alone.
  \<^item> The life of a job (\<open>Lifecycle\<close>): the store refines a state machine on single rows; identities are
    kept, tokens never decrease, finished jobs stay finished until they are erased.
  \<^item> Leases (\<open>ClaimCorrect\<close>, \<open>TimeOrder\<close>, \<open>WorkerCorrect\<close>, \<open>Fleet\<close>, \<open>Leases\<close>, \<open>WorkerLoop\<close>, \<open>Heartbeat\<close>,
    \<open>Retries\<close>): with any number of workers and any interleaving of their statements at most one passes
    the fence of a job; stale workers change nothing; how exact a lease is as a text; a worker that
    renews in time keeps its job; the heartbeat ends with its processing, by the function's own steps;
    a job that always fails is tried three times.
  \<^item> Transfers (\<open>ImportCorrect\<close>, \<open>ExportCorrect\<close>, \<open>DownloadCorrect\<close>): an import validates everything
    before it applies anything, and applies exactly that; an export that breaks off anywhere stores
    every page once; a download delivers the recorded bytes or says that it did not.
  \<^item> Clients (\<open>SubmissionCorrect\<close>, \<open>ServiceCorrect\<close>, \<open>TypedAnswers\<close>, \<open>HttpCorrect\<close>, \<open>JobJson\<close>): submissions
    are idempotent; nobody without a grant reaches anything; callers see their own jobs, well typed;
    every request is answered, with 200 exactly when it succeeded, in a JSON that reads back as it was
    written.
  \<^item> Subjects (\<open>ErasureCorrect\<close>, \<open>ServiceCorrect\<close>): an erasure does what its plan says, once, and never
    against a legal hold.
  \<^item> Assemblies (\<open>AssemblyCorrect\<close>): routes, handlers, manifest and disclosure agree; a SaaS client is
    connected only when its verification succeeded and closed when it cannot serve.

  \<^bold>\<open>Bounds and fuel.\<close> Definitions terminate structurally or by a proved measure. Three loops depend on
  others and carry fuel: the trimming of a text and the reading of JSON have the length of the text,
  which \<open>trim_left_stuck\<close> and the round trips show to be enough; the pages of an export
  (\<open>export_pages\<close>) and the rounds of a worker (\<open>worker_rounds\<close>) can be unbounded in the program, so
  their value is an option, \<open>None\<close> when the fuel was used up, and what they guarantee then is stated.
  Integers are \<open>int\<close> with \<open>wrap64\<close> where a computation could leave 64 bits.

  \<^bold>\<open>Parameters.\<close> Code outside of the repository is an argument of the definitions: the SDK's
  \<open>Validate\<close> methods, Action keys and manifest, the foundation's error kinds, normalisation and
  capability constructors, the ORM's rendering, the CSV codec, the providers, projectors and artifact
  openers of the host, and the SaaS transport. SQL statements have their documented meaning,
  and a transaction takes effect as one step. Only the two erasure calls ask the database for
  \<open>LevelSerializable\<close>; for \<open>SubmitImport\<close>, \<open>SubmitExport\<close>, \<open>Cancel\<close>, \<open>CommitResultPage\<close> and \<open>Complete\<close>,
  which run at the engine's default level, that nobody writes between their statements is an assumption
  of the model. What the query builder renders for a negative \<open>Limit\<close> of a listing is not known: the
  model then takes no row, and the SDK's \<open>Validate\<close> is expected to refuse such a request.

  \<^bold>\<open>Not modelled.\<close> The one-line facades \<open>module\<close>, \<open>remote\<close> and \<open>capability.go\<close>; the multiplexer of
  \<open>net/http\<close> beyond the table of patterns and handlers; row-level security behind \<open>Scoped\<close>, which
  only tags a context; pooling, cancellation inside a driver and closing of readers, which show as
  failed statements; the texts of wrapped errors. The passing of time between two statements is
  arbitrary, so nothing is said about speed.
\<close>

end
